(* ===== verification/Prelude.thy ===== *)
theory Prelude
  imports Complex_Main "HOL-Library.Sublist" "HOL-Library.Multiset" "HOL-Library.AList"
begin

text \<open>
  Shared vocabulary of the development. A Python \<open>str\<close> is a sequence of Unicode code
  points, so it is modelled as \<open>ustr = nat list\<close>, one \<open>nat\<close> per code point (not as
  Isabelle's byte-sized \<open>char\<close>: the webborrow sources compare against literals such as
  \<open>'\<dots>'\<close> made of code points above 255). \<open>u\<close> turns an ASCII literal into a \<open>ustr\<close>.
  The theory defines the Python string builtins the sources call (\<open>in\<close>,
  \<open>startswith\<close>, \<open>strip\<close>, \<open>lower\<close>, \<open>split\<close>, \<open>join\<close>, \<open>replace\<close>, \<open>int\<close>,
  indexing with a default) as executable functions, relates the executable ones to the
  library's specifications (\<open>prefix\<close>, \<open>sublist\<close>), and proves the generic facts the
  component theories share (split/join round trip, what \<open>strip\<close> and \<open>split\<close> keep).
\<close>

named_theorems pystr_eval "equations that evaluate the Python string builtins on literals"

type_synonym ustr = "nat list"

definition u :: "string \<Rightarrow> ustr" where
  "u s = map of_char s"

subsection \<open>Character classes\<close>

text \<open>\<open>str.isspace\<close> (and the regular-expression class \<open>\s\<close>): the code points of
  Python's \<open>Py_UNICODE_ISSPACE\<close>.\<close>

definition is_space :: "nat \<Rightarrow> bool" where
  "is_space c \<longleftrightarrow> (9 \<le> c \<and> c \<le> 13) \<or> (28 \<le> c \<and> c \<le> 32) \<or> c = 133 \<or> c = 160 \<or>
     c = 5760 \<or> (8192 \<le> c \<and> c \<le> 8202) \<or> c = 8232 \<or> c = 8233 \<or> c = 8239 \<or>
     c = 8287 \<or> c = 12288"

text \<open>ASCII decimal digits (\<open>[0-9]\<close>); see the root theory for \<open>\d\<close> and \<open>int\<close>.\<close>

definition is_digit :: "nat \<Rightarrow> bool" where
  "is_digit c \<longleftrightarrow> 48 \<le> c \<and> c \<le> 57"

text \<open>\<open>str.lower\<close> on one code point, exact for every code point below 256 (ASCII
  and Latin-1 capitals); other code points are kept.\<close>

definition py_lower_cp :: "nat \<Rightarrow> nat" where
  "py_lower_cp c = (if (65 \<le> c \<and> c \<le> 90) \<or> (192 \<le> c \<and> c \<le> 222 \<and> c \<noteq> 215) then c + 32 else c)"

definition py_lower :: "ustr \<Rightarrow> ustr" where
  "py_lower s = map py_lower_cp s"

subsection \<open>Prefix and substring tests\<close>

fun starts_with :: "ustr \<Rightarrow> ustr \<Rightarrow> bool" where
  "starts_with [] s = True"
| "starts_with (p # ps) [] = False"
| "starts_with (p # ps) (c # cs) = (p = c \<and> starts_with ps cs)"

text \<open>Python's \<open>needle in haystack\<close> on strings.\<close>

fun contains :: "ustr \<Rightarrow> ustr \<Rightarrow> bool" where
  "contains n [] = (n = [])"
| "contains n (c # cs) = (starts_with n (c # cs) \<or> contains n cs)"

subsection \<open>strip, indexing\<close>

definition py_strip :: "ustr \<Rightarrow> ustr" where
  "py_strip s = rev (dropWhile is_space (rev (dropWhile is_space s)))"

text \<open>\<open>parts[i] if len(parts) > i else ''\<close>.\<close>

definition py_get :: "ustr list \<Rightarrow> nat \<Rightarrow> ustr" where
  "py_get xs i = (if i < length xs then xs ! i else [])"

subsection \<open>split and join\<close>

text \<open>\<open>s.split(sep)\<close> for a non-empty separator: left to right, non-overlapping. The
  accumulator holds the current piece reversed.\<close>

function split_aux :: "ustr \<Rightarrow> ustr \<Rightarrow> ustr \<Rightarrow> ustr list" where
  "split_aux sep acc [] = [rev acc]"
| "split_aux sep acc (c # cs) =
     (if sep \<noteq> [] \<and> starts_with sep (c # cs)
      then rev acc # split_aux sep [] (drop (length sep) (c # cs))
      else split_aux sep (c # acc) cs)"
  by pat_completeness auto
termination
  by (relation "measure (\<lambda>(sep, acc, s). length s)") auto

definition py_split :: "ustr \<Rightarrow> ustr \<Rightarrow> ustr list" where
  "py_split sep s = split_aux sep [] s"

fun py_join :: "ustr \<Rightarrow> ustr list \<Rightarrow> ustr" where
  "py_join sep [] = []"
| "py_join sep [x] = x"
| "py_join sep (x # y # ys) = x @ sep @ py_join sep (y # ys)"

subsection \<open>replace\<close>

function replace_aux :: "ustr \<Rightarrow> ustr \<Rightarrow> ustr \<Rightarrow> ustr" where
  "replace_aux old new [] = []"
| "replace_aux old new (c # cs) =
     (if old \<noteq> [] \<and> starts_with old (c # cs)
      then new @ replace_aux old new (drop (length old) (c # cs))
      else c # replace_aux old new cs)"
  by pat_completeness auto
termination
  by (relation "measure (\<lambda>(old, new, s). length s)") auto

text \<open>\<open>s.replace(old, new)\<close>; an empty \<open>old\<close> inserts \<open>new\<close> around every code point.\<close>

definition py_replace :: "ustr \<Rightarrow> ustr \<Rightarrow> ustr \<Rightarrow> ustr" where
  "py_replace old new s =
     (if old = [] then new @ concat (map (\<lambda>c. c # new) s) else replace_aux old new s)"

subsection \<open>int\<close>

text \<open>\<open>int(s)\<close> in base 10: surrounding whitespace, an optional sign, then digits with
  single underscores between them (PEP 515). \<open>None\<close> is the \<open>ValueError\<close>.\<close>

fun valid_digits :: "ustr \<Rightarrow> bool" where
  "valid_digits [] = False"
| "valid_digits [d] = is_digit d"
| "valid_digits (d # e # r) = (is_digit d \<and> (if e = 95 then valid_digits r else valid_digits (e # r)))"

definition digits_val :: "ustr \<Rightarrow> nat" where
  "digits_val ds = foldl (\<lambda>n d. if d = 95 then n else 10 * n + (d - 48)) 0 ds"

definition unsigned_int :: "ustr \<Rightarrow> int option" where
  "unsigned_int ds = (if valid_digits ds then Some (int (digits_val ds)) else None)"

definition py_int :: "ustr \<Rightarrow> int option" where
  "py_int s =
     (case py_strip s of
        [] \<Rightarrow> None
      | c # cs \<Rightarrow>
          if c = 45 then map_option uminus (unsigned_int cs)
          else if c = 43 then unsigned_int cs
          else unsigned_int (c # cs))"

declare u_def [pystr_eval] is_space_def [pystr_eval] is_digit_def [pystr_eval]
  py_lower_def [pystr_eval] py_lower_cp_def [pystr_eval] py_strip_def [pystr_eval]
  py_get_def [pystr_eval] py_split_def [pystr_eval] py_replace_def [pystr_eval]
  py_int_def [pystr_eval] unsigned_int_def [pystr_eval] digits_val_def [pystr_eval]

subsection \<open>JSON request bodies\<close>

text \<open>The values of a decoded JSON request body that the handlers look at (arrays and
  nested objects are not modelled); an object is an association list and
  \<open>data.get(k, default)\<close> takes the first binding. A JSON number with a fraction or an
  exponent decodes to a Python \<open>float\<close>; \<open>JFloat\<close> holds its value as a rational (the
  rounding to the nearest double, and infinities, are not modelled).\<close>

datatype json = JNull | JBool bool | JInt int | JFloat rat | JStr ustr

type_synonym json_obj = "(ustr \<times> json) list"

text \<open>\<open>data.get(key, default)\<close>.\<close>

definition dict_get :: "json_obj \<Rightarrow> ustr \<Rightarrow> json \<Rightarrow> json" where
  "dict_get d k dflt = (case map_of d k of Some v \<Rightarrow> v | None \<Rightarrow> dflt)"

text \<open>Python truthiness (\<open>if not x\<close>).\<close>

fun truthy :: "json \<Rightarrow> bool" where
  "truthy JNull = False"
| "truthy (JBool b) = b"
| "truthy (JInt i) = (i \<noteq> 0)"
| "truthy (JFloat r) = (r \<noteq> 0)"
| "truthy (JStr s) = (s \<noteq> [])"

text \<open>\<open>x.strip()\<close> on a JSON value: only a \<open>str\<close> has the method, anything else raises
  \<open>AttributeError\<close> (\<open>None\<close>).\<close>

fun json_strip :: "json \<Rightarrow> ustr option" where
  "json_strip (JStr s) = Some (py_strip s)"
| "json_strip _ = None"

subsection \<open>split with a limit, zero padding\<close>

text \<open>The first occurrence of a non-empty separator: the text before it and the text
  after it.\<close>

fun cut_at :: "ustr \<Rightarrow> ustr \<Rightarrow> ustr \<Rightarrow> (ustr \<times> ustr) option" where
  "cut_at sep acc [] = None"
| "cut_at sep acc (c # cs) =
     (if starts_with sep (c # cs) then Some (rev acc, drop (length sep) (c # cs))
      else cut_at sep (c # acc) cs)"

text \<open>\<open>s.split(sep, n)\<close> for a non-empty separator: at most \<open>n\<close> cuts, left to right.\<close>

fun py_split_max :: "ustr \<Rightarrow> nat \<Rightarrow> ustr \<Rightarrow> ustr list" where
  "py_split_max sep 0 s = [s]"
| "py_split_max sep (Suc n) s =
     (case cut_at sep [] s of None \<Rightarrow> [s] | Some (a, b) \<Rightarrow> a # py_split_max sep n b)"

text \<open>\<open>s.split()\<close> with no separator: the maximal runs of non-whitespace code points.\<close>

fun words_aux :: "ustr \<Rightarrow> ustr \<Rightarrow> ustr list" where
  "words_aux acc [] = (if acc = [] then [] else [rev acc])"
| "words_aux acc (c # cs) =
     (if is_space c then (if acc = [] then words_aux [] cs else rev acc # words_aux [] cs)
      else words_aux (c # acc) cs)"

definition py_split_ws :: "ustr \<Rightarrow> ustr list" where
  "py_split_ws s = words_aux [] s"

text \<open>A text in single quotes (code point 39), as f-strings such as \<open>f"'{x}'"\<close> write it.\<close>

definition quoted :: "ustr \<Rightarrow> ustr" where
  "quoted s = [39] @ s @ [39]"

declare py_split_ws_def [pystr_eval] quoted_def [pystr_eval]

subsection \<open>Exceptions and a state\<close>

text \<open>A computation that changes a state and either returns a value or lets an exception
  escape (\<open>None\<close>); the state it leaves is kept in both cases, since what was done
  before the exception stays done.\<close>

type_synonym ('a, 's) st_exc = "'s \<Rightarrow> 'a option \<times> 's"

definition exc_return :: "'a \<Rightarrow> ('a, 's) st_exc" where
  "exc_return a s = (Some a, s)"

definition exc_bind :: "('a, 's) st_exc \<Rightarrow> ('a \<Rightarrow> ('b, 's) st_exc) \<Rightarrow> ('b, 's) st_exc" where
  "exc_bind m f s = (case m s of (None, s') \<Rightarrow> (None, s') | (Some a, s') \<Rightarrow> f a s')"

section \<open>Facts shared by the components\<close>

subsection \<open>The executable tests against the library's specifications\<close>

lemma starts_with_iff_prefix: "starts_with p s \<longleftrightarrow> prefix p s"
  by (induction p s rule: starts_with.induct) auto

lemma starts_with_append: "starts_with p (p @ s)"
  by (induction p) auto

lemma starts_with_drop: "starts_with p s \<Longrightarrow> s = p @ drop (length p) s"
  by (auto simp: starts_with_iff_prefix prefix_def)

lemma contains_iff_sublist: "contains n s \<longleftrightarrow> sublist n s"
proof (induction s)
  case Nil
  then show ?case by simp
next
  case (Cons c cs)
  then show ?case
    by (auto simp: starts_with_iff_prefix sublist_Cons_right)
qed

lemma contains_Nil [simp]: "contains [] s"
  by (simp add: contains_iff_sublist)

lemma contains_trans: "contains a b \<Longrightarrow> contains b c \<Longrightarrow> contains a c"
  by (auto simp: contains_iff_sublist intro: sublist_order.order_trans)

lemma contains_refl [simp]: "contains s s"
  by (simp add: contains_iff_sublist)

lemma contains_append_left [intro]: "contains n a \<Longrightarrow> contains n (a @ b)"
  unfolding contains_iff_sublist
  by (meson sublist_append_rightI sublist_order.order_trans)

lemma contains_append_right [intro]: "contains n b \<Longrightarrow> contains n (a @ b)"
  unfolding contains_iff_sublist
  by (meson sublist_append_leftI sublist_order.order_trans)

lemma contains_single: "contains [c] s \<longleftrightarrow> c \<in> set s"
  by (induction s) auto

lemma contains_set: "contains n s \<Longrightarrow> set n \<subseteq> set s"
  by (auto simp: contains_iff_sublist dest: set_mono_sublist)

lemma not_contains_if_absent: "c \<in> set n \<Longrightarrow> c \<notin> set s \<Longrightarrow> \<not> contains n s"
  using contains_set by blast

subsection \<open>split, join and strip\<close>

lemma split_aux_not_Nil [simp]: "split_aux sep acc s \<noteq> []"
  by (induction sep acc s rule: split_aux.induct) auto

lemma py_join_Cons: "ys \<noteq> [] \<Longrightarrow> py_join sep (x # ys) = x @ sep @ py_join sep ys"
  by (cases ys) auto

lemma py_join_append:
  "xs \<noteq> [] \<Longrightarrow> ys \<noteq> [] \<Longrightarrow> py_join sep (xs @ ys) = py_join sep xs @ sep @ py_join sep ys"
  by (induction sep xs rule: py_join.induct) (auto simp: py_join_Cons)

lemma set_py_join: "set (py_join sep xs) \<subseteq> set sep \<union> \<Union> (set ` set xs)"
  by (induction sep xs rule: py_join.induct) auto

text \<open>Joining the pieces of a split with the separator gives the string back.\<close>

lemma join_split_aux: "py_join sep (split_aux sep acc s) = rev acc @ s"
proof (induction sep acc s rule: split_aux.induct)
  case (1 sep acc)
  then show ?case by simp
next
  case (2 sep acc c cs)
  show ?case
  proof (cases "sep \<noteq> [] \<and> starts_with sep (c # cs)")
    case True
    then have "c # cs = sep @ drop (length sep) (c # cs)"
      using starts_with_drop by blast
    with True "2.IH"(1) show ?thesis
      by (simp add: py_join_Cons)
  next
    case False
    then have "split_aux sep acc (c # cs) = split_aux sep (c # acc) cs"
      by (simp only: split_aux.simps(2) if_False)
    with False "2.IH"(2) show ?thesis by simp
  qed
qed

lemma join_py_split [simp]: "py_join sep (py_split sep s) = s"
  by (simp add: py_split_def join_split_aux)

lemma py_split_not_Nil [simp]: "py_split sep s \<noteq> []"
  by (simp add: py_split_def)

text \<open>Every piece of a split is a substring of the string split.\<close>

lemma py_join_member_contains: "x \<in> set xs \<Longrightarrow> contains x (py_join sep xs)"
proof (induction sep xs rule: py_join.induct)
  case (3 sep x y ys)
  then show ?case by auto
qed auto

lemma py_split_piece_contains: "p \<in> set (py_split sep s) \<Longrightarrow> contains p s"
  using py_join_member_contains [of p "py_split sep s" sep] by simp

lemma prefix_rev_dropWhile_rev: "prefix (rev (dropWhile P (rev t))) t"
proof -
  have "suffix (dropWhile P (rev t)) (rev t)"
    by (simp add: suffix_dropWhile)
  then show ?thesis by (simp add: suffix_to_prefix)
qed

lemma py_strip_sublist: "sublist (py_strip s) s"
proof -
  have "suffix (dropWhile is_space s) s"
    by (simp add: suffix_dropWhile)
  then show ?thesis
    unfolding py_strip_def
    by (meson prefix_rev_dropWhile_rev prefix_imp_sublist sublist_order.order_trans
        suffix_imp_sublist)
qed

lemma py_strip_contains [intro]: "contains (py_strip s) s"
  by (simp add: contains_iff_sublist py_strip_sublist)

lemma py_strip_Nil [simp]: "py_strip [] = []"
  by (simp add: py_strip_def)

lemma py_strip_not_space_hd:
  assumes "py_strip s = c # r"
  shows "\<not> is_space c"
proof -
  let ?d = "dropWhile is_space s"
  have "prefix (c # r) ?d"
    using assms prefix_rev_dropWhile_rev [of is_space ?d] by (simp add: py_strip_def)
  then obtain zs where "?d = c # r @ zs"
    by (auto simp: prefix_def)
  then have "?d \<noteq> []" and "hd ?d = c"
    by simp_all
  then show ?thesis using hd_dropWhile by metis
qed

lemma py_get_contains: "i < length xs \<Longrightarrow> py_get xs i \<in> set xs"
  by (simp add: py_get_def)

lemma py_get_set: "py_get xs i \<in> set xs \<or> py_get xs i = []"
  by (simp add: py_get_def)

text \<open>Splitting a join gives the pieces back when no piece contains the first code point
  of the separator.\<close>

lemma split_aux_sep_free:
  "sep \<noteq> [] \<Longrightarrow> hd sep \<notin> set x \<Longrightarrow> split_aux sep acc x = [rev acc @ x]"
proof (induction x arbitrary: acc)
  case (Cons c x)
  then have "\<not> starts_with sep (c # x)"
    by (cases sep) auto
  with Cons show ?case by simp
qed simp

lemma split_aux_sep_next:
  "sep \<noteq> [] \<Longrightarrow> hd sep \<notin> set x \<Longrightarrow>
   split_aux sep acc (x @ sep @ r) = (rev acc @ x) # split_aux sep [] r"
proof (induction x arbitrary: acc)
  case Nil
  then obtain d ds where "sep = d # ds" by (cases sep) auto
  then show ?case by (simp add: starts_with_append)
next
  case (Cons c x)
  then have "\<not> starts_with sep (c # x @ sep @ r)"
    by (cases sep) auto
  with Cons show ?case by simp
qed

lemma py_split_py_join:
  assumes "sep \<noteq> []" and "ps \<noteq> []" and "\<forall>p \<in> set ps. hd sep \<notin> set p"
  shows "py_split sep (py_join sep ps) = ps"
proof -
  have "split_aux sep [] (py_join sep ps) = ps" using assms(2,3)
  proof (induction ps rule: induct_list012)
    case (2 x)
    with assms(1) show ?case by (simp add: split_aux_sep_free)
  next
    case (3 x y ys)
    with assms(1) show ?case by (simp add: split_aux_sep_next)
  qed simp
  then show ?thesis by (simp add: py_split_def)
qed

text \<open>The same when some code point of the separator occurs in no piece: the first
  occurrence of the separator is then always the one the join put there.\<close>

lemma takeWhile_first_occurrence: "c \<notin> set a \<Longrightarrow> takeWhile (\<lambda>d. d \<noteq> c) (a @ c # b) = a"
  by (induction a) auto

lemma first_occurrence_unique:
  assumes "c \<notin> set a" and "c \<notin> set x" and "a @ c # b = x @ a @ c # b'"
  shows "x = []"
proof -
  have "a = takeWhile (\<lambda>d. d \<noteq> c) (a @ c # b)"
    using assms(1) by (rule takeWhile_first_occurrence [symmetric])
  also have "\<dots> = takeWhile (\<lambda>d. d \<noteq> c) ((x @ a) @ c # b')"
    using assms(3) by simp
  also have "\<dots> = x @ a"
    using assms(1,2) by (intro takeWhile_first_occurrence) simp
  finally show ?thesis by simp
qed

lemma starts_with_sep_avoid:
  assumes "c \<in> set sep" and "c \<notin> set x" and "x \<noteq> []"
  shows "\<not> starts_with sep (x @ sep @ r)"
proof
  assume "starts_with sep (x @ sep @ r)"
  then obtain t where t: "x @ sep @ r = sep @ t"
    by (auto simp: starts_with_iff_prefix prefix_def)
  from split_list_first [OF assms(1)] obtain a b where sep: "sep = a @ c # b" and ca: "c \<notin> set a"
    by blast
  from t sep have "a @ c # (b @ t) = x @ a @ c # (b @ r)" by simp
  from first_occurrence_unique [OF ca assms(2) this] assms(3) show False by simp
qed

lemma starts_with_avoid_set: "starts_with sep s \<Longrightarrow> set sep \<subseteq> set s"
  by (auto simp: starts_with_iff_prefix prefix_def)

lemma split_aux_avoid_last:
  "c \<in> set sep \<Longrightarrow> c \<notin> set x \<Longrightarrow> split_aux sep acc x = [rev acc @ x]"
proof (induction x arbitrary: acc)
  case (Cons d x)
  then have "\<not> starts_with sep (d # x)" using starts_with_avoid_set by blast
  with Cons show ?case by simp
qed simp

lemma split_aux_avoid_next:
  "c \<in> set sep \<Longrightarrow> c \<notin> set x \<Longrightarrow>
   split_aux sep acc (x @ sep @ r) = (rev acc @ x) # split_aux sep [] r"
proof (induction x arbitrary: acc)
  case Nil
  then have "sep \<noteq> []" by auto
  then show ?case by (cases sep) (simp_all add: starts_with_append)
next
  case (Cons d x)
  then have "\<not> starts_with sep ((d # x) @ sep @ r)"
    using starts_with_sep_avoid [of c sep "d # x"] by blast
  with Cons show ?case by simp
qed

lemma py_split_py_join_avoid:
  assumes "c \<in> set sep" and "ps \<noteq> []" and "\<forall>p \<in> set ps. c \<notin> set p"
  shows "py_split sep (py_join sep ps) = ps"
proof -
  have "split_aux sep [] (py_join sep ps) = ps" using assms(2,3)
  proof (induction ps rule: induct_list012)
    case (2 x)
    with assms(1) show ?case by (simp add: split_aux_avoid_last)
  next
    case (3 x y ys)
    with assms(1) show ?case by (simp add: split_aux_avoid_next)
  qed simp
  then show ?thesis by (simp add: py_split_def)
qed

lemma dropWhile_none: "\<forall>c \<in> set xs. \<not> P c \<Longrightarrow> dropWhile P xs = xs"
  by (cases xs) auto

lemma py_strip_no_space: "\<forall>c \<in> set x. \<not> is_space c \<Longrightarrow> py_strip x = x"
  by (simp add: py_strip_def dropWhile_none)

lemma is_space_32: "is_space 32"
  by (simp add: is_space_def)

lemma py_strip_padded:
  assumes "x \<noteq> []" and "\<forall>c \<in> set x. \<not> is_space c"
  shows "py_strip (32 # x @ [32]) = x"
proof -
  have "dropWhile is_space (32 # x @ [32]) = x @ [32]"
    using assms is_space_32 by (cases x) auto
  moreover have "dropWhile is_space (rev (x @ [32])) = rev x"
    using assms is_space_32 by (simp add: dropWhile_none)
  ultimately show ?thesis by (simp add: py_strip_def)
qed

subsection \<open>Decimal digits\<close>

text \<open>\<open>str(n)\<close> for a natural number, and \<open>int\<close> reading it back.\<close>

fun dec :: "nat \<Rightarrow> ustr" where
  "dec n = (if n < 10 then [48 + n] else dec (n div 10) @ [48 + n mod 10])"

declare dec.simps [simp del]

text \<open>\<open>'%0wd' % n\<close> (and the two-digit fields of \<open>strftime\<close>).\<close>

definition pad :: "nat \<Rightarrow> nat \<Rightarrow> ustr" where
  "pad w n = replicate (w - length (dec n)) 48 @ dec n"

lemma dec_digits: "list_all is_digit (dec n)"
proof (induction n rule: dec.induct)
  case (1 n)
  show ?case
  proof (cases "n < 10")
    case True
    then show ?thesis by (subst dec.simps) (simp add: is_digit_def)
  next
    case False
    with "1.IH" show ?thesis by (subst dec.simps) (auto simp: is_digit_def list_all_iff)
  qed
qed

lemma dec_not_Nil [simp]: "dec n \<noteq> []"
  by (subst dec.simps) simp

lemma valid_digits_all: "xs \<noteq> [] \<Longrightarrow> list_all is_digit xs \<Longrightarrow> valid_digits xs"
  by (induction xs rule: valid_digits.induct) (auto simp: is_digit_def)

lemma digits_val_dec: "digits_val (dec n) = n"
proof (induction n rule: dec.induct)
  case (1 n)
  show ?case
  proof (cases "n < 10")
    case True
    then show ?thesis by (subst dec.simps) (simp add: digits_val_def)
  next
    case False
    with "1.IH" show ?thesis
      by (subst dec.simps) (simp add: digits_val_def)
  qed
qed

lemma py_int_dec: "py_int (dec n) = Some (int n)"
proof -
  have d: "list_all is_digit (dec n)" by (rule dec_digits)
  then have ns: "\<forall>c \<in> set (dec n). \<not> is_space c"
    by (auto simp: list_all_iff is_digit_def is_space_def)
  have strip: "py_strip (dec n) = dec n"
    using ns by (rule py_strip_no_space)
  obtain c r where cr: "dec n = c # r" by (cases "dec n") auto
  with d have "c \<noteq> 45" "c \<noteq> 43" by (auto simp: is_digit_def)
  with cr strip have "py_int (dec n) = unsigned_int (dec n)"
    by (simp add: py_int_def)
  with d show ?thesis
    by (simp add: unsigned_int_def valid_digits_all digits_val_dec)
qed

subsection \<open>Lists: folds, sums and filters\<close>

lemma fold_max_le: "list_all (\<lambda>x. x \<le> b) xs \<Longrightarrow> a \<le> b \<Longrightarrow> fold max xs a \<le> b"
  by (induction xs arbitrary: a) (simp_all add: max_def)

lemma sum_list_partition:
  fixes g :: "'a \<Rightarrow> 'c::comm_monoid_add"
  assumes "distinct ks" and "set (map f xs) \<subseteq> set ks"
  shows "(\<Sum>k\<leftarrow>ks. sum_list (map g (filter (\<lambda>x. f x = k) xs))) = sum_list (map g xs)"
  using assms(2)
proof (induction xs)
  case Nil
  then show ?case by (induction ks) simp_all
next
  case (Cons x xs)
  have "(\<Sum>k\<leftarrow>ks. sum_list (map g (filter (\<lambda>y. f y = k) (x # xs)))) =
        (\<Sum>k\<leftarrow>ks. (if f x = k then g x else 0) + sum_list (map g (filter (\<lambda>y. f y = k) xs)))"
    by (rule arg_cong [where f = sum_list], rule map_cong) auto
  also have "\<dots> = (\<Sum>k\<leftarrow>ks. if f x = k then g x else 0) +
                   (\<Sum>k\<leftarrow>ks. sum_list (map g (filter (\<lambda>y. f y = k) xs)))"
    by (simp add: sum_list_addf)
  also have "(\<Sum>k\<leftarrow>ks. if f x = k then g x else 0) = g x"
    using Cons.prems assms(1) by (simp add: sum_list_distinct_conv_sum_set sum.delta)
  finally show ?case using Cons by simp
qed

lemma sum_list_mset_eq:
  fixes f :: "'a \<Rightarrow> 'b::comm_monoid_add"
  shows "mset xs = mset ys \<Longrightarrow> sum_list (map f xs) = sum_list (map f ys)"
proof -
  assume "mset xs = mset ys"
  then have "mset (map f xs) = mset (map f ys)" by simp
  then have "sum_mset (mset (map f xs)) = sum_mset (mset (map f ys))" by (rule arg_cong)
  then show ?thesis by (simp only: sum_mset_sum_list)
qed

lemma filter_unique:
  assumes "distinct (map f xs)" and "x \<in> set xs" and "P x"
    and "\<forall>y \<in> set xs. P y \<longrightarrow> f y = f x"
  shows "filter P xs = [x]"
  using assms
proof (induction xs)
  case (Cons a xs)
  have fa: "f a \<notin> f ` set xs" using Cons.prems(1) by simp
  show ?case
  proof (cases "a = x")
    case True
    have "\<not> P y" if "y \<in> set xs" for y
    proof
      assume "P y"
      with Cons.prems(4) that True have "f y = f a" by simp
      then have "f a \<in> f ` set xs" using that by (simp add: rev_image_eqI)
      with fa show False by simp
    qed
    then have "filter P xs = []" by (simp add: filter_empty_conv)
    with True Cons.prems(3) show ?thesis by simp
  next
    case False
    with Cons.prems(2) have x: "x \<in> set xs" by simp
    have "\<not> P a"
    proof
      assume "P a"
      with Cons.prems(4) have "f a = f x" by simp
      then have "f a \<in> f ` set xs" using x by (simp add: rev_image_eqI)
      with fa show False by simp
    qed
    moreover have "distinct (map f xs)" "\<forall>y \<in> set xs. P y \<longrightarrow> f y = f x"
      using Cons.prems(1,4) by simp_all
    then have "filter P xs = [x]"
      using Cons.IH x Cons.prems(3) by blast
    ultimately show ?thesis by simp
  qed
qed simp

lemma concat_map_single: "concat (map (\<lambda>x. [x]) xs) = xs"
  by (induction xs) simp_all

subsection \<open>Cutting, stripping and replacing around known text\<close>

lemma cut_at_found:
  assumes "sep \<noteq> []" and "\<not> contains sep (a @ butlast sep)"
  shows "cut_at sep acc (a @ sep @ b) = Some (rev acc @ a, b)"
  using assms(2)
proof (induction a arbitrary: acc)
  case Nil
  from assms(1) obtain c cs where cs: "sep @ b = c # cs" by (cases sep) auto
  have "starts_with sep (c # cs)" using starts_with_append [of sep b] cs by simp
  then have "cut_at sep acc (c # cs) = Some (rev acc, drop (length sep) (c # cs))" by simp
  also have "drop (length sep) (c # cs) = b" using cs [symmetric] by simp
  finally show ?case using cs by simp
next
  case (Cons x a)
  have no: "\<not> starts_with sep (x # a @ sep @ b)"
  proof
    assume "starts_with sep (x # a @ sep @ b)"
    then have p1: "prefix sep (x # a @ sep @ b)" by (simp add: starts_with_iff_prefix)
    obtain s' l where sl: "sep = s' @ [l]" using assms(1) by (cases sep rule: rev_cases) auto
    have p2: "prefix (x # a @ butlast sep) (x # a @ sep @ b)"
      unfolding sl prefix_def by simp
    have "length sep \<le> length (x # a @ butlast sep)" using assms(1) by simp
    with p1 p2 have "prefix sep (x # a @ butlast sep)" by (rule prefix_length_prefix)
    then have "contains sep ((x # a) @ butlast sep)"
      by (simp add: contains_iff_sublist prefix_imp_sublist)
    with Cons.prems show False by simp
  qed
  have "\<not> contains sep (a @ butlast sep)"
    using Cons.prems by (simp add: contains_iff_sublist sublist_Cons_right)
  with Cons.IH no show ?case by simp
qed

lemma dropWhile_all: "list_all P a \<Longrightarrow> dropWhile P (a @ s) = dropWhile P s"
  by (induction a) auto

lemma py_strip_all_space: "list_all is_space s \<Longrightarrow> py_strip s = []"
proof -
  assume "list_all is_space s"
  then have "dropWhile is_space s = []" by (simp add: list_all_iff)
  then show ?thesis by (simp only: py_strip_def rev.simps dropWhile.simps)
qed

lemma py_strip_frame:
  assumes "list_all is_space a" and "list_all is_space b"
  shows "py_strip (a @ c @ b) = py_strip c"
proof (cases "\<exists>x \<in> set c. \<not> is_space x")
  case True
  then have d: "dropWhile is_space (c @ b) = dropWhile is_space c @ b"
    by (auto intro: dropWhile_append1)
  have "dropWhile is_space (rev (dropWhile is_space c @ b)) = dropWhile is_space (rev (dropWhile is_space c))"
    using assms(2) by (simp add: dropWhile_all list_all_rev)
  then show ?thesis
    using assms(1) d by (simp add: py_strip_def dropWhile_all)
next
  case False
  then have "list_all is_space c" by (simp add: list_all_iff)
  with assms show ?thesis by (simp add: py_strip_all_space)
qed

lemma py_strip_trimmed:
  assumes "x \<noteq> []" and "\<not> is_space (hd x)" and "\<not> is_space (last x)"
  shows "py_strip x = x"
proof -
  from assms(1,2) have "dropWhile is_space x = x" by (cases x) auto
  moreover from assms(1,3) have "dropWhile is_space (rev x) = rev x" by (cases "rev x") (auto simp: last_rev [symmetric])
  ultimately show ?thesis by (simp add: py_strip_def)
qed

lemma replace_aux_absent: "\<not> contains old s \<Longrightarrow> replace_aux old new s = s"
proof (induction old new s rule: replace_aux.induct)
  case (2 old new c cs)
  then have "\<not> (old \<noteq> [] \<and> starts_with old (c # cs))" by auto
  then have "replace_aux old new (c # cs) = c # replace_aux old new cs"
    by (subst replace_aux.simps) (simp only: if_False)
  moreover have "\<not> contains old cs" using "2.prems" by simp
  then have "replace_aux old new cs = cs"
    using "2.IH"(2) \<open>\<not> (old \<noteq> [] \<and> starts_with old (c # cs))\<close> by blast
  ultimately show ?case by (simp only:)
qed simp

lemma py_split_absent: "hd sep \<notin> set s \<Longrightarrow> sep \<noteq> [] \<Longrightarrow> py_split sep s = [s]"
  by (simp add: py_split_def split_aux_sep_free)

lemma pad_digits: "list_all is_digit (pad w n)"
  using dec_digits [of n] by (auto simp: pad_def list_all_iff is_digit_def)

lemma pad_not_Nil [simp]: "pad w n \<noteq> []"
  by (simp add: pad_def)

lemma those_None_iff: "those (map f xs) = None \<longleftrightarrow> (\<exists>x \<in> set xs. f x = None)"
  by (induction xs) (auto split: option.split)

lemma those_member:
  "those (map f xs) = Some ys \<Longrightarrow> x \<in> set xs \<Longrightarrow> \<exists>y. f x = Some y \<and> y \<in> set ys"
  by (induction xs arbitrary: ys) (auto split: option.splits)

lemma concat_those_member:
  assumes "map_option concat (those (map g xs)) = Some gs" and "x \<in> set xs" and "g x = Some ys"
    and "z \<in> set ys"
  shows "z \<in> set gs"
proof -
  from assms(1) obtain L where L: "those (map g xs) = Some L" "gs = concat L" by auto
  from those_member [OF L(1) assms(2)] assms(3) have "ys \<in> set L" by auto
  with L(2) assms(4) show ?thesis by auto
qed

lemma set_update_subset: "set (AList.update k v al) \<subseteq> insert (k, v) (set al)"
  by (induction al) auto


subsection \<open>Splitting at whitespace\<close>

lemma words_aux_word:
  "\<forall>c \<in> set w. \<not> is_space c \<Longrightarrow> words_aux acc (w @ r) = words_aux (rev w @ acc) r"
  by (induction w arbitrary: acc) auto

lemma words_aux_space: "is_space c \<Longrightarrow> words_aux [] (c # r) = words_aux [] r"
  by simp

lemma py_split_ws_join:
  assumes "\<forall>w \<in> set ws. w \<noteq> [] \<and> (\<forall>c \<in> set w. \<not> is_space c)"
  shows "py_split_ws (py_join [32] ws) = ws"
proof -
  have "words_aux [] (py_join [32] ws) = ws" using assms
  proof (induction ws rule: induct_list012)
    case (2 x)
    then show ?case using words_aux_word [of x "[]" "[]"] by (cases x rule: rev_cases) auto
  next
    case (3 x y ys)
    then have "words_aux [] (py_join [32] (x # y # ys)) = words_aux (rev x) (32 # py_join [32] (y # ys))"
      using words_aux_word [of x "[]"] by simp
    also have "\<dots> = x # words_aux [] (py_join [32] (y # ys))"
      using 3 by (cases x rule: rev_cases) (auto simp: is_space_32)
    finally show ?case using 3 by simp
  qed simp
  then show ?thesis by (simp add: py_split_ws_def)
qed

lemma py_split_ws_all_space: "list_all is_space s \<Longrightarrow> py_split_ws s = []"
proof -
  have "list_all is_space s \<Longrightarrow> words_aux [] s = []" by (induction s) auto
  then show "list_all is_space s \<Longrightarrow> py_split_ws s = []" by (simp add: py_split_ws_def)
qed


subsection \<open>Blank text, filters and needles across separators\<close>

lemma contains_split_absent:
  assumes "c \<notin> set p" and "contains p (x @ c # y)"
  shows "contains p x \<or> contains p y"
proof -
  have "sublist p (x @ c # y)" using assms(2) by (simp add: contains_iff_sublist)
  then consider "sublist p x" | "sublist p (c # y)" | xs1 xs2 where "p = xs1 @ xs2" "suffix xs1 x" "prefix xs2 (c # y)"
    by (auto simp: sublist_append)
  then show ?thesis
  proof cases
    case 2
    then have "prefix p (c # y) \<or> sublist p y" by (simp add: sublist_Cons_right)
    with assms(1) show ?thesis by (cases p) (auto simp: contains_iff_sublist)
  next
    case 3
    with assms(1) show ?thesis
      by (cases xs2) (auto simp: contains_iff_sublist suffix_imp_sublist)
  qed (simp add: contains_iff_sublist)
qed

lemma not_contains_join:
  "p \<noteq> [] \<Longrightarrow> 10 \<notin> set p \<Longrightarrow> \<forall>l \<in> set ls. \<not> contains p l \<Longrightarrow> \<not> contains p (py_join [10] ls)"
proof (induction "[10::nat]" ls rule: py_join.induct)
  case 1
  then show ?case by (cases p) auto
next
  case (3 x y ys)
  then show ?case using contains_split_absent [of 10 p x "py_join [10] (y # ys)"] by auto
qed simp

lemma py_strip_Nil_iff: "py_strip s = [] \<longleftrightarrow> list_all is_space s"
proof
  assume "py_strip s = []"
  then have "\<forall>c \<in> set (dropWhile is_space s). is_space c"
    by (simp add: py_strip_def dropWhile_eq_Nil_conv)
  moreover have "dropWhile is_space s = [] \<or> \<not> is_space (hd (dropWhile is_space s))"
    using hd_dropWhile by blast
  ultimately have "dropWhile is_space s = []" by (cases "dropWhile is_space s") auto
  then show "list_all is_space s" by (simp add: dropWhile_eq_Nil_conv list_all_iff)
qed (rule py_strip_all_space)

lemma filter_map_filter_irrelevant:
  "\<forall>x \<in> set xs. \<not> Q x \<longrightarrow> \<not> P (f x) \<Longrightarrow> filter P (map f (filter Q xs)) = filter P (map f xs)"
  by (induction xs) auto

lemma words_aux_pieces:
  "list_all (\<lambda>c. \<not> is_space c) acc \<Longrightarrow> w \<in> set (words_aux acc s) \<Longrightarrow> w \<noteq> [] \<and> list_all (\<lambda>c. \<not> is_space c) w"
  by (induction acc s rule: words_aux.induct) (auto split: if_splits)

lemma py_split_ws_pieces: "w \<in> set (py_split_ws s) \<Longrightarrow> w \<noteq> [] \<and> list_all (\<lambda>c. \<not> is_space c) w"
  unfolding py_split_ws_def by (rule words_aux_pieces) simp_all

subsection \<open>Indexing a concatenation\<close>

lemma concat_map_nth:
  "k < length (concat (map f ys)) \<Longrightarrow>
     \<exists>pre y post i. ys = pre @ y # post \<and> i < length (f y) \<and> k = length (concat (map f pre)) + i \<and>
                    concat (map f ys) ! k = f y ! i"
proof (induction ys arbitrary: k)
  case (Cons y ys)
  show ?case
  proof (cases "k < length (f y)")
    case True
    then show ?thesis
      by (intro exI [of _ "[]"] exI [of _ y] exI [of _ ys] exI [of _ k]) (simp add: nth_append)
  next
    case False
    have "k - length (f y) < length (concat (map f ys))" using Cons.prems False by simp
    then obtain pre y' post i where h: "ys = pre @ y' # post" "i < length (f y')"
        "k - length (f y) = length (concat (map f pre)) + i" "concat (map f ys) ! (k - length (f y)) = f y' ! i"
      using Cons.IH by blast
    show ?thesis
    proof (intro exI conjI)
      show "y # ys = (y # pre) @ y' # post" using h(1) by simp
      show "i < length (f y')" by (rule h(2))
      show "k = length (concat (map f (y # pre))) + i" using h(3) False by simp
      show "concat (map f (y # ys)) ! k = f y' ! i" using h(4) False by (simp add: nth_append)
    qed
  qed
qed simp

subsection \<open>The exception monad\<close>

lemma exc_return_apply [simp]: "exc_return a s = (Some a, s)"
  by (simp add: exc_return_def)

lemma exc_bind_Some [simp]: "m s = (Some a, s') \<Longrightarrow> exc_bind m f s = f a s'"
  by (simp add: exc_bind_def)

lemma exc_bind_None [simp]: "m s = (None, s') \<Longrightarrow> exc_bind m f s = (None, s')"
  by (simp add: exc_bind_def)

lemma exc_bind_cases:
  "exc_bind m f s = (r, s'') \<Longrightarrow>
     (\<And>s'. m s = (None, s') \<Longrightarrow> r = None \<Longrightarrow> s'' = s' \<Longrightarrow> P) \<Longrightarrow>
     (\<And>a s'. m s = (Some a, s') \<Longrightarrow> f a s' = (r, s'') \<Longrightarrow> P) \<Longrightarrow> P"
  by (cases "m s" rule: prod.exhaust) (auto simp: exc_bind_def split: option.splits)

subsection \<open>Lists: right strip, replicate, take, sums over permutations\<close>

lemma prefix_rstrip: "prefix (rev (dropWhile P (rev xs))) xs"
proof -
  have "suffix (dropWhile P (rev xs)) (rev xs)" by (rule suffix_dropWhile)
  then show ?thesis by (simp add: suffix_to_prefix)
qed

lemma eq_replicate_iff: "xs = replicate (length xs) a \<longleftrightarrow> (\<forall>c\<in>set xs. c = a)"
  by (metis in_set_replicate replicate_length_same)

lemma take_snoc_le: "j \<le> length cs \<Longrightarrow> take j (cs @ [c]) = take j cs"
  by simp

lemma sum_list_perm: "mset xs = mset ys \<Longrightarrow> sum_list (map g xs) = sum_list (map (g :: _ \<Rightarrow> 'b :: comm_monoid_add) ys)"
proof -
  assume "mset xs = mset ys"
  then have "mset (map g xs) = mset (map g ys)" by simp
  then show ?thesis by (metis sum_mset_sum_list)
qed

subsection \<open>replace removes every occurrence\<close>

lemma contains_skip_disjoint:
  "n \<noteq> [] \<Longrightarrow> set n \<inter> set a = {} \<Longrightarrow> contains n (a @ b) \<Longrightarrow> contains n b"
proof (induction a)
  case (Cons x a)
  have "\<not> starts_with n (x # a @ b)"
    using Cons.prems(1,2) by (cases n) auto
  then show ?case using Cons by simp
qed simp

lemma replace_aux_prefix:
  "new \<noteq> [] \<Longrightarrow> set q \<inter> set new = {} \<Longrightarrow> starts_with q (replace_aux old new s) \<Longrightarrow> starts_with q s"
proof (induction old new s arbitrary: q rule: replace_aux.induct)
  case (2 old new c cs)
  show ?case
  proof (cases "old \<noteq> [] \<and> starts_with old (c # cs)")
    case True
    have e: "replace_aux old new (c # cs) = new @ replace_aux old new (drop (length old) (c # cs))"
      by (simp only: replace_aux.simps(2) if_P [OF True])
    then have "starts_with q (new @ replace_aux old new (drop (length old) (c # cs)))"
      using "2.prems"(3) by simp
    then have "q = []" using "2.prems"(1,2) by (cases q; cases new) auto
    then show ?thesis by simp
  next
    case False
    have r: "starts_with q (c # replace_aux old new cs)"
      using "2.prems"(3) by (simp only: replace_aux.simps(2) if_not_P [OF False])
    show ?thesis
    proof (cases q)
      case (Cons x q')
      then have "x = c" "starts_with q' (replace_aux old new cs)" using r by simp_all
      moreover have "set q' \<inter> set new = {}" using "2.prems"(2) Cons by auto
      ultimately show ?thesis using "2.IH"(2) [OF False "2.prems"(1)] Cons by simp
    qed simp
  qed
qed simp

lemma replace_aux_hides:
  "old \<noteq> [] \<Longrightarrow> new \<noteq> [] \<Longrightarrow> set old \<inter> set new = {} \<Longrightarrow> \<not> contains old (replace_aux old new s)"
proof (induction old new s rule: replace_aux.induct)
  case (2 old new c cs)
  show ?case
  proof (cases "old \<noteq> [] \<and> starts_with old (c # cs)")
    case True
    have "\<not> contains old (replace_aux old new (drop (length old) (c # cs)))"
      using "2.IH"(1) [OF True "2.prems"] .
    moreover have "replace_aux old new (c # cs) = new @ replace_aux old new (drop (length old) (c # cs))"
      by (simp only: replace_aux.simps(2) if_P [OF True])
    ultimately show ?thesis using contains_skip_disjoint [OF "2.prems"(1)] "2.prems"(3) by (metis inf_commute)
  next
    case False
    have e: "replace_aux old new (c # cs) = c # replace_aux old new cs"
      by (simp only: replace_aux.simps(2) if_not_P [OF False])
    obtain x old' where o: "old = x # old'" using "2.prems"(1) by (cases old) auto
    have "\<not> starts_with old (c # replace_aux old new cs)"
    proof
      assume a: "starts_with old (c # replace_aux old new cs)"
      have sw: "\<And>R. starts_with old (c # R) \<longleftrightarrow> x = c \<and> starts_with old' R" using o by simp
      have "x = c" "starts_with old' (replace_aux old new cs)" using a sw [of "replace_aux old new cs"] by simp_all
      moreover have "set old' \<inter> set new = {}" using "2.prems"(3) o by auto
      ultimately have "starts_with old' cs"
        using replace_aux_prefix [OF "2.prems"(2), where q = old' and old = old and s = cs] by simp
      then have "starts_with old (c # cs)" using o \<open>x = c\<close> by simp
      then show False using False "2.prems"(1) by simp
    qed
    then show ?thesis using "2.IH"(2) [OF False "2.prems"] e by simp
  qed
qed simp

end
