(* ===== verification/Ansi.thy ===== *)
theory Ansi
  imports Prelude
begin

text \<open>
  The ANSI normaliser of webborrow (\<open>strip_ansi\<close>, src/webborrow/app.py): the
  substitution \<open>re.sub(r'\x1b\[[0-9;]*m', '', text)\<close>. Python's \<open>re.sub\<close> scans left
  to right; at each position it tries the pattern, removes a match and resumes after it,
  and otherwise keeps the code point and moves on. Because \<open>m\<close> is not in
  \<open>[0-9;]\<close>, the greedy star never backtracks, so a match at a position is: ESC,
  \<open>[\<close>, a maximal run of \<open>[0-9;]\<close>, then \<open>m\<close>. \<open>sgr_match\<close> is that match
  test, returning the rest of the text after the match.
\<close>

definition is_sgr_param :: "nat \<Rightarrow> bool" where
  "is_sgr_param c \<longleftrightarrow> is_digit c \<or> c = 59"

text \<open>After \<open>ESC [\<close>: the run of \<open>[0-9;]\<close> then \<open>m\<close> (code point 109).\<close>

fun sgr_tail :: "ustr \<Rightarrow> ustr option" where
  "sgr_tail [] = None"
| "sgr_tail (c # cs) = (if c = 109 then Some cs else if is_sgr_param c then sgr_tail cs else None)"

fun sgr_match :: "ustr \<Rightarrow> ustr option" where
  "sgr_match (e # b # rest) = (if e = 27 \<and> b = 91 then sgr_tail rest else None)"
| "sgr_match _ = None"

lemma sgr_tail_shorter: "sgr_tail s = Some r \<Longrightarrow> length r < length s"
  by (induction s rule: sgr_tail.induct) (auto split: if_splits)

lemma sgr_match_shorter: "sgr_match s = Some r \<Longrightarrow> length r < length s"
  by (induction s rule: sgr_match.induct) (auto split: if_splits dest: sgr_tail_shorter)

function strip_ansi :: "ustr \<Rightarrow> ustr" where
  "strip_ansi [] = []"
| "strip_ansi (c # cs) =
     (case sgr_match (c # cs) of
        Some r \<Rightarrow> strip_ansi r
      | None \<Rightarrow> c # strip_ansi cs)"
  by pat_completeness auto
termination
  by (relation "measure length") (auto dest: sgr_match_shorter)

text \<open>Whether a text still holds a match of the pattern somewhere.\<close>

fun has_sgr :: "ustr \<Rightarrow> bool" where
  "has_sgr [] = False"
| "has_sgr (c # cs) = (sgr_match (c # cs) \<noteq> None \<or> has_sgr cs)"

text \<open>The code points a match consists of.\<close>

definition is_sgr_char :: "nat \<Rightarrow> bool" where
  "is_sgr_char c \<longleftrightarrow> c = 27 \<or> c = 91 \<or> c = 109 \<or> is_sgr_param c"

declare is_sgr_param_def [pystr_eval] is_sgr_char_def [pystr_eval]

text \<open>A well-formed SGR sequence with parameters \<open>p\<close>: \<open>ESC [ p m\<close>.\<close>

definition sgr_seq :: "ustr \<Rightarrow> ustr" where
  "sgr_seq p = [27, 91] @ p @ [109]"

section \<open>Facts about a match\<close>

lemma sgr_tail_split:
  "sgr_tail s = Some r \<Longrightarrow> \<exists>p. s = p @ r \<and> (\<forall>c \<in> set p. is_sgr_char c)"
proof (induction s rule: sgr_tail.induct)
  case (2 c cs)
  show ?case
  proof (cases "c = 109")
    case True
    with "2.prems" show ?thesis by (auto simp: is_sgr_char_def intro: exI [of _ "[c]"])
  next
    case False
    with "2.prems" have "is_sgr_param c" and "sgr_tail cs = Some r"
      by (auto split: if_splits)
    with "2.IH" False obtain p where "cs = p @ r" and "\<forall>c \<in> set p. is_sgr_char c"
      by blast
    with \<open>is_sgr_param c\<close> show ?thesis
      by (intro exI [of _ "c # p"]) (auto simp: is_sgr_char_def)
  qed
qed simp

lemma sgr_match_split:
  "sgr_match s = Some r \<Longrightarrow> \<exists>p. s = p @ r \<and> (\<forall>c \<in> set p. is_sgr_char c)"
proof (induction s rule: sgr_match.induct)
  case (1 e b rest)
  then have "e = 27" "b = 91" "sgr_tail rest = Some r"
    by (auto split: if_splits)
  with sgr_tail_split obtain p where "rest = p @ r" and "\<forall>c \<in> set p. is_sgr_char c"
    by blast
  with \<open>e = 27\<close> \<open>b = 91\<close> show ?case
    by (intro exI [of _ "e # b # p"]) (auto simp: is_sgr_char_def)
qed auto

lemma sgr_tail_params: "\<forall>c \<in> set p. is_sgr_param c \<Longrightarrow> sgr_tail (p @ 109 # s) = Some s"
  by (induction p) (auto simp: is_sgr_param_def is_digit_def)

text \<open>A line break is not part of any match, so a match never runs across one.\<close>

lemma sgr_tail_newline:
  "sgr_tail (x @ 10 # y) = map_option (\<lambda>r. r @ 10 # y) (sgr_tail x)"
  by (induction x) (auto simp: is_sgr_param_def is_digit_def)

lemma sgr_match_newline:
  "sgr_match (x @ 10 # y) = map_option (\<lambda>r. r @ 10 # y) (sgr_match x)"
proof (cases x)
  case (Cons e xs)
  then show ?thesis
    by (cases xs) (auto simp: sgr_tail_newline)
qed (cases y; simp)

lemma sgr_match_not_esc: "c \<noteq> 27 \<Longrightarrow> sgr_match (c # s) = None"
  by (cases s) auto

lemma strip_ansi_newline:
  "strip_ansi (x @ 10 # y) = strip_ansi x @ 10 # strip_ansi y"
proof (induction x rule: strip_ansi.induct)
  case 1
  then show ?case by (simp add: sgr_match_not_esc)
next
  case (2 c cs)
  show ?case
  proof (cases "sgr_match (c # cs)")
    case None
    with "2.IH"(1) show ?thesis
      using sgr_match_newline [of "c # cs" y] by simp
  next
    case (Some r)
    with "2.IH"(2) show ?thesis
      using sgr_match_newline [of "c # cs" y] by simp
  qed
qed

lemma strip_ansi_no_esc_prefix:
  "27 \<notin> set a \<Longrightarrow> strip_ansi (a @ s) = a @ strip_ansi s"
proof (induction a)
  case (Cons c a)
  then show ?case by (simp add: sgr_match_not_esc)
qed simp


lemma strip_ansi_set: "set (strip_ansi s) \<subseteq> set s"
proof (induction s rule: strip_ansi.induct)
  case (2 c cs)
  show ?case
  proof (cases "sgr_match (c # cs)")
    case None
    with "2.IH"(1) show ?thesis by auto
  next
    case (Some r)
    then obtain p where "c # cs = p @ r"
      using sgr_match_split by blast
    then have "set r \<subseteq> set (c # cs)"
      by (metis set_append sup_ge2)
    with Some "2.IH"(2) show ?thesis by simp
  qed
qed simp

section \<open>Properties of the normaliser\<close>

text \<open>Every code point that cannot be part of an escape sequence survives, in order:
  filtering the output and the input by "not an ESC, \<open>[\<close>, digit, \<open>;\<close> or
  \<open>m\<close>" gives the same text.\<close>

theorem strip_ansi_keeps_text:
  "filter (\<lambda>c. \<not> is_sgr_char c) (strip_ansi s) = filter (\<lambda>c. \<not> is_sgr_char c) s"
proof (induction s rule: strip_ansi.induct)
  case (2 c cs)
  show ?case
  proof (cases "sgr_match (c # cs)")
    case None
    with "2.IH"(1) show ?thesis by simp
  next
    case (Some r)
    then obtain p where "c # cs = p @ r" and "\<forall>x \<in> set p. is_sgr_char x"
      using sgr_match_split by blast
    have "strip_ansi (c # cs) = strip_ansi r"
      using Some by simp
    moreover have "filter (\<lambda>c. \<not> is_sgr_char c) (c # cs) = filter (\<lambda>c. \<not> is_sgr_char c) r"
      using \<open>c # cs = p @ r\<close> \<open>\<forall>x \<in> set p. is_sgr_char x\<close> by simp
    ultimately show ?thesis
      using Some "2.IH"(2) by simp
  qed
qed simp

text \<open>The output is a subsequence of the input: the normaliser only deletes.\<close>

theorem strip_ansi_subseq: "subseq (strip_ansi s) s"
proof (induction s rule: strip_ansi.induct)
  case (2 c cs)
  show ?case
  proof (cases "sgr_match (c # cs)")
    case None
    with "2.IH"(1) show ?thesis by simp
  next
    case (Some r)
    then obtain p where "c # cs = p @ r"
      using sgr_match_split by blast
    from Some "2.IH"(2) have "subseq (strip_ansi r) (p @ r)"
      by (simp add: list_emb_append2)
    with Some \<open>c # cs = p @ r\<close> show ?thesis
      by (metis strip_ansi.simps(2) option.simps(5))
  qed
qed simp

text \<open>A text with no escape sequence is returned unchanged.\<close>

theorem strip_ansi_identity: "\<not> has_sgr s \<Longrightarrow> strip_ansi s = s"
proof (induction s rule: strip_ansi.induct)
  case (2 c cs)
  then have "sgr_match (c # cs) = None" and "\<not> has_sgr cs"
    by simp_all
  with "2.IH"(1) show ?case by simp
qed simp

theorem strip_ansi_identity_witness:
  "\<not> has_sgr [27, 91, 49, 10, 109] \<and> strip_ansi [27, 91, 49, 10, 109] = [27, 91, 49, 10, 109]"
  using strip_ansi_identity [of "[27, 91, 49, 10, 109]"]
  by (simp add: is_sgr_param_def is_digit_def)

text \<open>A well-formed SGR sequence \<open>ESC [ p m\<close> at the front is removed entirely.\<close>

theorem strip_ansi_drops_sgr:
  "\<forall>c \<in> set p. is_sgr_param c \<Longrightarrow> strip_ansi ([27, 91] @ p @ [109] @ s) = strip_ansi s"
  by (simp add: sgr_tail_params)

theorem strip_ansi_drops_sgr_witness:
  "strip_ansi ([27, 91] @ [49, 59, 51, 50] @ [109] @ [79, 75]) = [79, 75]"
  using strip_ansi_drops_sgr [of "[49, 59, 51, 50]" "[79, 75]"]
  by (simp add: is_sgr_param_def is_digit_def)

text \<open>C35: Normalising line by line is normalising the whole text: escape sequences never
  span a line break, so stripping commutes with joining lines by \<open>\n\<close>.\<close>

theorem strip_ansi_lines: "strip_ansi (py_join [10] ls) = py_join [10] (map strip_ansi ls)"
proof (induction ls rule: induct_list012)
  case (3 x y ys)
  then show ?case by (simp add: strip_ansi_newline)
qed simp_all

text \<open>The output can still contain an escape sequence (spec 4.1 and 8 say it holds
  none): removing \<open>ESC [ m\<close> from \<open>ESC ESC [ m [ m\<close> joins the first ESC with the
  trailing \<open>[ m\<close> into a new one, and a second pass removes it.\<close>

theorem strip_ansi_can_leave_sgr:
  "strip_ansi [27, 27, 91, 109, 91, 109] = [27, 91, 109] \<and>
   has_sgr (strip_ansi [27, 27, 91, 109, 91, 109]) \<and>
   strip_ansi (strip_ansi [27, 27, 91, 109, 91, 109]) \<noteq> strip_ansi [27, 27, 91, 109, 91, 109]"
  by (simp add: is_sgr_param_def is_digit_def)

lemma strip_ansi_no_esc: "27 \<notin> set r \<Longrightarrow> strip_ansi r = r"
  using strip_ansi_no_esc_prefix [of r "[]"] by simp

text \<open>C9: strip_ansi removes exactly the SGR sequences: interleave ESC-free pieces of text (digits, [, ; and m included) with sequences ESC [ p m whose parameters p are digits and semicolons; the normaliser returns the pieces concatenated, every sequence gone and every other code point kept.\<close>

theorem strip_ansi_removes_sgr:
  assumes "\<forall>(t, p) \<in> set xs. 27 \<notin> set t \<and> (\<forall>c \<in> set p. is_sgr_param c)" and "27 \<notin> set r"
  shows "strip_ansi (concat (map (\<lambda>(t, p). t @ sgr_seq p) xs) @ r) = concat (map fst xs) @ r"
  using assms(1)
proof (induction xs)
  case Nil
  then show ?case using strip_ansi_no_esc [OF assms(2)] by simp
next
  case (Cons x xs)
  obtain t p where x: "x = (t, p)" by (cases x)
  have t: "27 \<notin> set t" and p: "\<forall>c \<in> set p. is_sgr_param c" using Cons.prems x by auto
  have "strip_ansi (concat (map (\<lambda>(t, p). t @ sgr_seq p) (x # xs)) @ r)
      = t @ strip_ansi ([27, 91] @ p @ [109] @ (concat (map (\<lambda>(t, p). t @ sgr_seq p) xs) @ r))"
    using strip_ansi_no_esc_prefix [OF t] x by (simp add: sgr_seq_def)
  also have "\<dots> = t @ strip_ansi (concat (map (\<lambda>(t, p). t @ sgr_seq p) xs) @ r)"
    using strip_ansi_drops_sgr [OF p] by simp
  finally show ?case using Cons x by simp
qed

theorem strip_ansi_removes_sgr_witness:
  "strip_ansi (concat (map (\<lambda>(t, p). t @ sgr_seq p) [(u ''[1m 42;'', u ''1;31''), (u ''ok'', [])]) @ u ''m'') =
     u ''[1m 42;okm''"
proof -
  have "\<forall>(t, p) \<in> set [(u ''[1m 42;'', u ''1;31''), (u ''ok'', [])]. 27 \<notin> set t \<and> (\<forall>c \<in> set p. is_sgr_param c)"
    "27 \<notin> set (u ''m'')" by (simp_all add: u_def is_sgr_param_def is_digit_def)
  from strip_ansi_removes_sgr [OF this] show ?thesis by (simp add: u_def)
qed

end
