(* ===== verification/Status.thy ===== *)
theory Status
  imports Prelude
begin

text \<open>
  The status classifier of webborrow (src/webborrow/app.py, the \<open>if/elif\<close> chain at
  the end of \<open>parse_machine_table\<close>): the raw status column of a row decides the
  machine's \<open>state\<close> and \<open>borrower\<close>. The substring tests run on
  \<open>status.lower()\<close>; the borrower is cut from the original status with the
  case-sensitive \<open>replace('(deploy)', '')\<close>. The spec (section 9) describes the chain
  as an ordered list of (predicate, outcome) rules; \<open>status_rules\<close> and
  \<open>first_match\<close> are that description, and the classifier refines it.
\<close>

datatype machine_state = Available | Offline | No_ssh | No_cheetah | Deployed | Borrowed

definition classify_status :: "ustr \<Rightarrow> machine_state \<times> ustr option" where
  "classify_status status =
     (let status_lower = py_lower status in
      if contains (u ''available'') status_lower then (Available, None)
      else if contains (u ''no ping'') status_lower then (Offline, None)
      else if contains (u ''no ssh'') status_lower then (No_ssh, None)
      else if contains (u ''no cheetah'') status_lower then (No_cheetah, None)
      else if contains (u ''deploy'') status_lower \<and> \<not> contains (u ''('') status_lower
        then (Deployed, None)
      else
        (let borrower = py_strip (py_replace (u ''(deploy)'') [] status)
         in (Borrowed, Some (if borrower \<noteq> [] then borrower else status))))"

subsection \<open>The specification: ordered rules, first match wins\<close>

definition status_rules :: "((ustr \<Rightarrow> bool) \<times> machine_state) list" where
  "status_rules =
     [(contains (u ''available''), Available),
      (contains (u ''no ping''), Offline),
      (contains (u ''no ssh''), No_ssh),
      (contains (u ''no cheetah''), No_cheetah),
      (\<lambda>s. contains (u ''deploy'') s \<and> \<not> contains (u ''('') s, Deployed)]"

fun first_match :: "((ustr \<Rightarrow> bool) \<times> machine_state) list \<Rightarrow> ustr \<Rightarrow> machine_state" where
  "first_match [] s = Borrowed"
| "first_match ((p, st) # rs) s = (if p s then st else first_match rs s)"

section \<open>Facts\<close>

lemma classify_status_Borrowed:
  "fst (classify_status s) = Borrowed \<Longrightarrow>
   snd (classify_status s) =
     Some (if py_strip (py_replace (u ''(deploy)'') [] s) \<noteq> [] then py_strip (py_replace (u ''(deploy)'') [] s) else s)"
  by (auto simp: classify_status_def Let_def split: if_splits)

text \<open>C6: The classifier is the spec's ordered rule list applied to the lower-cased
  status: the state is the outcome of the first rule whose test holds, and
  \<open>Borrowed\<close> when none does.\<close>

theorem classify_status_first_match:
  "fst (classify_status s) = first_match status_rules (py_lower s)"
  by (simp add: classify_status_def status_rules_def Let_def)

text \<open>A borrower is reported exactly for borrowed machines.\<close>

theorem classify_status_borrower_iff:
  "snd (classify_status s) = None \<longleftrightarrow> fst (classify_status s) \<noteq> Borrowed"
  by (simp add: classify_status_def Let_def)

text \<open>A non-empty status never yields an empty borrower name: when removing
  \<open>(deploy)\<close> and stripping leaves nothing, the raw status is the name.\<close>

theorem classify_status_borrower_nonempty:
  assumes "s \<noteq> []" and "fst (classify_status s) = Borrowed"
  shows "\<exists>b. snd (classify_status s) = Some b \<and> b \<noteq> []"
  using classify_status_Borrowed [OF assms(2)] assms(1) by auto

theorem classify_status_borrower_nonempty_witness:
  "u ''(deploy)'' \<noteq> [] \<and> fst (classify_status (u ''(deploy)'')) = Borrowed \<and>
   (\<exists>b. snd (classify_status (u ''(deploy)'')) = Some b \<and> b \<noteq> [])"
proof -
  have ne: "u ''(deploy)'' \<noteq> []" by (simp add: u_def)
  have st: "fst (classify_status (u ''(deploy)'')) = Borrowed"
    by (simp add: classify_status_def pystr_eval)
  show ?thesis using classify_status_borrower_nonempty [OF ne st] ne st by blast
qed

text \<open>The examples of spec section 8: \<open>Available\<close> is available with no borrower,
  \<open>john (deploy)\<close> is borrowed by \<open>john\<close>, a bare \<open>(deploy)\<close> falls through to
  borrowed with the raw text as borrower, and \<open>deploy\<close> is deployed.\<close>

theorem classify_status_spec_examples:
  "classify_status (u ''Available'') = (Available, None) \<and>
   classify_status (u ''john (deploy)'') = (Borrowed, Some (u ''john'')) \<and>
   classify_status (u ''(deploy)'') = (Borrowed, Some (u ''(deploy)'')) \<and>
   classify_status (u ''deploy'') = (Deployed, None)"
  by (simp add: classify_status_def pystr_eval)

text \<open>Matching is case-insensitive but the removal of \<open>(deploy)\<close> is not: a
  status \<open>john (Deploy)\<close> is borrowed with borrower \<open>john (Deploy)\<close>, marker
  included.\<close>

theorem classify_status_capital_deploy:
  "classify_status (u ''john (Deploy)'') = (Borrowed, Some (u ''john (Deploy)''))"
  by (simp add: classify_status_def pystr_eval)

end
