(* ===== verification/Table.thy ===== *)
theory Table
  imports Ansi Status
begin

text \<open>
  The machine-table scraper of webborrow (\<open>parse_machine_table\<close>,
  src/webborrow/app.py). The function strips ANSI codes, splits the output on
  \<open>'\n'\<close> and runs one loop over the lines with three mutable variables
  (\<open>current_section\<close>, \<open>current_cluster\<close>, \<open>is_cluster_table\<close>) and the result
  list \<open>machines\<close>. They are the record \<open>scan_state\<close>; one iteration of the loop is
  \<open>scan_line\<close>, the loop is \<open>foldl scan_line\<close>. The row part of an iteration (from
  \<open>if '\<dots>' not in line\<close> to the append) is \<open>parse_row\<close>; the two dictionaries the
  code builds are \<open>cluster_row\<close> and \<open>standalone_row\<close>, and \<open>add_state\<close> adds the
  \<open>state\<close>/\<open>borrower\<close> keys computed by \<open>classify_status\<close>.

  The box-drawing literals of the source are not the characters U+2500 to U+2551 the
  tool prints but their Mac-Roman mojibake, three code points each, and they are
  modelled as they are written: \<open>V_SEP\<close> is U+201A U+00EE U+00C7 (what the
  vertical bar U+2502 becomes when its UTF-8 bytes are read as Mac Roman), and likewise
  for the other rule characters.
\<close>

definition V_SEP :: ustr where "V_SEP = [8218, 238, 199]"
definition H_RULE :: ustr where "H_RULE = [8218, 238, 196]"
definition TOP_LEFT :: ustr where "TOP_LEFT = [8218, 238, 229]"
definition BOTTOM_LEFT :: ustr where "BOTTOM_LEFT = [8218, 238, 238]"
definition LEFT_TEE :: ustr where "LEFT_TEE = [8218, 238, 250]"
definition DOUBLE_H :: ustr where "DOUBLE_H = [8218, 239, 234]"

lemmas box_literals = V_SEP_def H_RULE_def TOP_LEFT_def BOTTOM_LEFT_def LEFT_TEE_def DOUBLE_H_def

subsection \<open>Rows\<close>

text \<open>The dictionary built for a row; \<open>nce_id = None\<close> is a standalone row's missing
  key, \<open>cluster = None\<close> its \<open>'cluster': None\<close>.\<close>

record raw_machine =
  nce_id :: "ustr option"
  vendor :: ustr
  mtype :: ustr
  revision :: ustr
  name :: ustr
  baseos_version :: ustr
  status :: ustr
  borrow_uptime :: ustr
  git_branch :: ustr
  last_connection :: ustr
  comment :: ustr
  cluster :: "ustr option"

record machine = raw_machine +
  state :: machine_state
  borrower :: "ustr option"

definition cluster_row :: "ustr option \<Rightarrow> ustr list \<Rightarrow> raw_machine" where
  "cluster_row current_cluster parts =
     \<lparr>nce_id = Some (py_get parts 0), vendor = py_get parts 1, mtype = py_get parts 2,
      revision = py_get parts 3, name = py_get parts 4, baseos_version = py_get parts 5,
      status = py_get parts 6, borrow_uptime = py_get parts 7, git_branch = py_get parts 8,
      last_connection = py_get parts 9, comment = py_get parts 10, cluster = current_cluster\<rparr>"

definition standalone_row :: "ustr list \<Rightarrow> raw_machine" where
  "standalone_row parts =
     \<lparr>nce_id = None, vendor = py_get parts 0, mtype = py_get parts 1,
      revision = py_get parts 2, name = py_get parts 3, baseos_version = py_get parts 4,
      status = py_get parts 5, borrow_uptime = py_get parts 6, git_branch = py_get parts 7,
      last_connection = py_get parts 8, comment = py_get parts 9, cluster = None\<rparr>"

definition add_state :: "raw_machine \<Rightarrow> machine" where
  "add_state r =
     (case classify_status (status r) of
        (st, b) \<Rightarrow> raw_machine.extend r (machine.fields st b))"

text \<open>\<open>parts = [p.strip() for p in line.split(V)]\<close> then \<open>[p for p in parts if p != '']\<close>.\<close>

definition row_parts :: "ustr \<Rightarrow> ustr list" where
  "row_parts line = filter (\<lambda>p. p \<noteq> []) (map py_strip (py_split V_SEP line))"

definition parse_row :: "bool \<Rightarrow> ustr option \<Rightarrow> ustr \<Rightarrow> machine option" where
  "parse_row is_cluster_table current_cluster line =
     (if \<not> contains V_SEP line then None
      else if contains H_RULE line \<or> contains TOP_LEFT line \<or> contains BOTTOM_LEFT line \<or>
              contains LEFT_TEE line \<or> contains DOUBLE_H line then None
      else if contains (u ''wbox_name'') line \<or>
              contains (u ''vendor'') line \<and> contains (u ''type'') line \<and> contains (u ''revision'') line
        then None
      else
        (let parts = row_parts line in
         if length parts < 6 then None
         else
           (let machine =
              (if is_cluster_table \<and> 10 \<le> length parts then Some (cluster_row current_cluster parts)
               else if \<not> is_cluster_table \<and> 6 \<le> length parts then Some (standalone_row parts)
               else None)
            in case machine of
                 None \<Rightarrow> None
               | Some r \<Rightarrow>
                   if name r = [] then None
                   else if name r = u ''wbox_name'' then None
                   else if name r = [] \<and> vendor r = [] then None
                   else Some (add_state r))))"

subsection \<open>Sections\<close>

text \<open>\<open>re.search(r'Cluster\s+(\d+)', line)\<close>: the leftmost position where
  \<open>Cluster\<close>, at least one whitespace and at least one digit follow; the group is the
  maximal digit run (the classes are disjoint, so the greedy match never backtracks).\<close>

definition cluster_at :: "ustr \<Rightarrow> ustr option" where
  "cluster_at s =
     (if starts_with (u ''Cluster'') s then
        (let r = drop 7 s; ws = takeWhile is_space r; ds = takeWhile is_digit (drop (length ws) r)
         in if ws \<noteq> [] \<and> ds \<noteq> [] then Some ds else None)
      else None)"

fun cluster_search :: "ustr \<Rightarrow> ustr option" where
  "cluster_search [] = None"
| "cluster_search (c # cs) = (case cluster_at (c # cs) of Some d \<Rightarrow> Some d | None \<Rightarrow> cluster_search cs)"

record scan_state =
  current_section :: "ustr option"
  current_cluster :: "ustr option"
  is_cluster_table :: bool
  machines :: "machine list"

definition scan_init :: scan_state where
  "scan_init = \<lparr>current_section = None, current_cluster = None, is_cluster_table = False, machines = []\<rparr>"

text \<open>Python truthiness of \<open>current_section\<close> and its \<open>startswith\<close>; the second is
  never reached with \<open>None\<close> (the first disjunct of the guard short-circuits).\<close>

fun opt_truthy :: "ustr option \<Rightarrow> bool" where
  "opt_truthy None = False"
| "opt_truthy (Some s) = (s \<noteq> [])"

fun opt_startswith :: "ustr option \<Rightarrow> ustr \<Rightarrow> bool" where
  "opt_startswith None p = False"
| "opt_startswith (Some s) p = starts_with p s"

text \<open>The guard of lines 97-100, as written: \<open>A and not B or C == False\<close>, then the two
  nested \<open>if\<close>s. True means \<open>continue\<close>.\<close>

definition section_skip :: "ustr option \<Rightarrow> bool" where
  "section_skip sec \<longleftrightarrow>
     ((sec \<noteq> Some (u ''standalone'') \<and> \<not> opt_truthy sec) \<or> \<not> opt_startswith sec (u ''cluster_'')) \<and>
     sec \<noteq> Some (u ''standalone'') \<and>
     \<not> (opt_truthy sec \<and> opt_startswith sec (u ''cluster_''))"

definition scan_line :: "scan_state \<Rightarrow> ustr \<Rightarrow> scan_state" where
  "scan_line st line =
     (if contains (u ''Stand alone'') line then
        st\<lparr>current_section := Some (u ''standalone''), is_cluster_table := False,
           current_cluster := None\<rparr>
      else if contains (u ''Cluster'') line \<and> \<not> contains H_RULE line then
        (case cluster_search line of
           None \<Rightarrow> st
         | Some cid \<Rightarrow>
             st\<lparr>current_cluster := Some cid, current_section := Some (u ''cluster_'' @ cid),
                is_cluster_table := True\<rparr>)
      else if contains (u ''DP IXIAs'') line then st\<lparr>current_section := Some (u ''ixia'')\<rparr>
      else if contains (u ''Total'') line \<and> contains (u ''Free'') line \<and> contains (u ''Taken'') line
        then st\<lparr>current_section := Some (u ''summary'')\<rparr>
      else if section_skip (current_section st) then st
      else
        (case parse_row (is_cluster_table st) (current_cluster st) line of
           None \<Rightarrow> st
         | Some m \<Rightarrow> st\<lparr>machines := machines st @ [m]\<rparr>))"

definition parse_machine_table :: "ustr \<Rightarrow> machine list" where
  "parse_machine_table output =
     machines (foldl scan_line scan_init (py_split [10] (strip_ansi output)))"

subsection \<open>Specification of the section classifier (spec 4.2)\<close>

text \<open>The spec's section state: one of \<open>none\<close>, \<open>standalone\<close>, \<open>cluster_<id>\<close>,
  \<open>ixia\<close>, \<open>summary\<close>, with its transition rules evaluated in priority order.
  \<open>section_of\<close> reads the code's \<open>current_section\<close> string as such a state.\<close>

datatype section_kind = No_section | Standalone | Cluster_section ustr | Ixia | Summary_section

fun yields_rows :: "section_kind \<Rightarrow> bool" where
  "yields_rows Standalone = True"
| "yields_rows (Cluster_section c) = True"
| "yields_rows _ = False"

text \<open>Spec 4.2's transition rules as an ordered list of (test, new section) pairs, the
  first whose test holds deciding; a line no rule matches keeps the section. Rule 2's
  "numeric id adjacent to Cluster" is the leftmost \<open>Cluster\s+\d+\<close> of the line.\<close>

definition section_rules :: "((ustr \<Rightarrow> bool) \<times> (ustr \<Rightarrow> section_kind)) list" where
  "section_rules =
     [(\<lambda>l. contains (u ''Stand alone'') l, \<lambda>l. Standalone),
      (\<lambda>l. contains (u ''Cluster'') l \<and> \<not> contains H_RULE l \<and> cluster_search l \<noteq> None,
       \<lambda>l. Cluster_section (the (cluster_search l))),
      (\<lambda>l. contains (u ''DP IXIAs'') l, \<lambda>l. Ixia),
      (\<lambda>l. contains (u ''Total'') l \<and> contains (u ''Free'') l \<and> contains (u ''Taken'') l, \<lambda>l. Summary_section)]"

fun first_rule :: "((ustr \<Rightarrow> bool) \<times> (ustr \<Rightarrow> section_kind)) list \<Rightarrow> section_kind \<Rightarrow> ustr \<Rightarrow> section_kind" where
  "first_rule [] sec l = sec"
| "first_rule ((p, f) # rs) sec l = (if p l then f l else first_rule rs sec l)"

definition section_step :: "section_kind \<Rightarrow> ustr \<Rightarrow> section_kind" where
  "section_step sec line = first_rule section_rules sec line"

text \<open>A line the code and the spec read differently: it mentions \<open>Cluster\<close> (and is not a
  rule line) without an id, so the code's \<open>elif\<close> takes it and \<open>continue\<close>s, while the spec
  goes on to rule 3 or 4, which match it.\<close>

definition shadowed_header :: "ustr \<Rightarrow> bool" where
  "shadowed_header line \<longleftrightarrow>
     \<not> contains (u ''Stand alone'') line \<and>
     contains (u ''Cluster'') line \<and> \<not> contains H_RULE line \<and> cluster_search line = None \<and>
     (contains (u ''DP IXIAs'') line \<or>
      contains (u ''Total'') line \<and> contains (u ''Free'') line \<and> contains (u ''Taken'') line)"

definition section_of :: "ustr option \<Rightarrow> section_kind" where
  "section_of sec =
     (case sec of
        None \<Rightarrow> No_section
      | Some s \<Rightarrow>
          if s = u ''standalone'' then Standalone
          else if starts_with (u ''cluster_'') s then Cluster_section (drop 8 s)
          else if s = u ''ixia'' then Ixia
          else if s = u ''summary'' then Summary_section
          else No_section)"

subsection \<open>Invariants\<close>

text \<open>What every emitted machine satisfies: a non-empty name other than the header
  token and a non-empty status, the \<open>nce_id\<close> key exactly on cluster rows, a cluster
  id made of digits, and state and borrower as the classifier gives them.\<close>

definition machine_wf :: "machine \<Rightarrow> bool" where
  "machine_wf m \<longleftrightarrow>
     name m \<noteq> [] \<and> name m \<noteq> u ''wbox_name'' \<and> status m \<noteq> [] \<and>
     (cluster m = None \<longleftrightarrow> nce_id m = None) \<and>
     (case cluster m of None \<Rightarrow> True | Some c \<Rightarrow> c \<noteq> [] \<and> list_all is_digit c) \<and>
     (state m, borrower m) = classify_status (status m)"

text \<open>How the three loop variables agree: a standalone section never reads rows as
  cluster rows, a cluster section does and remembers its id, and a cluster table always
  has a cluster id of digits.\<close>

definition section_inv :: "scan_state \<Rightarrow> bool" where
  "section_inv st \<longleftrightarrow>
     (current_section st = Some (u ''standalone'') \<longrightarrow> \<not> is_cluster_table st) \<and>
     (case current_section st of
        None \<Rightarrow> True
      | Some s \<Rightarrow> starts_with (u ''cluster_'') s \<longrightarrow>
                  is_cluster_table st \<and> current_cluster st = Some (drop 8 s)) \<and>
     (case current_cluster st of
        None \<Rightarrow> \<not> is_cluster_table st
      | Some c \<Rightarrow> c \<noteq> [] \<and> list_all is_digit c)"

definition scan_inv :: "scan_state \<Rightarrow> bool" where
  "scan_inv st \<longleftrightarrow> section_inv st \<and> list_all machine_wf (machines st)"

subsection \<open>Sample tool output\<close>

text \<open>Rows in the layout \<open>parse_machine_table\<close> expects, cells separated by the
  separator literal of the source, and the same table as the tool really prints it,
  with the vertical bar U+2502 (9474). They are the concrete inputs of the witnesses.\<close>

definition sample_standalone_row :: ustr where
  "sample_standalone_row = py_join V_SEP
     [[], u '' Dell '', u '' x86 '', u '' A '', u '' m1 '', u '' 1.0 '', u '' Available '',
      u '' 1d '', u '' main '', u '' now '', u '' c '', []]"

definition sample_cluster_row :: ustr where
  "sample_cluster_row = py_join V_SEP
     [[], u '' 7 '', u '' Dell '', u '' x86 '', u '' A '', u '' m2 '', u '' 1.0 '',
      u '' john (deploy) '', u '' 1d '', u '' main '', u '' now '', u '' c '', []]"

definition sample_output :: ustr where
  "sample_output = py_join [10]
     [u ''Stand alone'', sample_standalone_row, u ''Cluster 2'', sample_cluster_row]"

definition genuine_output :: ustr where
  "genuine_output = py_join [10]
     [u ''Stand alone'',
      py_join [9474] [[], u '' Dell '', u '' x86 '', u '' A '', u '' m1 '', u '' 1.0 '',
                      u '' Available '', u '' 1d '', u '' main '', u '' now '', u '' c '', []]]"

section \<open>Facts\<close>

lemma add_state_fields [simp]:
  "nce_id (add_state r) = nce_id r" "vendor (add_state r) = vendor r"
  "mtype (add_state r) = mtype r" "revision (add_state r) = revision r"
  "name (add_state r) = name r" "baseos_version (add_state r) = baseos_version r"
  "status (add_state r) = status r" "borrow_uptime (add_state r) = borrow_uptime r"
  "git_branch (add_state r) = git_branch r" "last_connection (add_state r) = last_connection r"
  "comment (add_state r) = comment r" "cluster (add_state r) = cluster r"
  "state (add_state r) = fst (classify_status (status r))"
  "borrower (add_state r) = snd (classify_status (status r))"
  by (simp_all add: add_state_def raw_machine.defs machine.defs split: prod.split)

lemmas row_simps [simp] = cluster_row_def standalone_row_def

lemmas table_eval = parse_machine_table_def scan_line_def scan_init_def parse_row_def
  row_parts_def section_skip_def cluster_at_def classify_status_def box_literals
  sample_standalone_row_def sample_cluster_row_def sample_output_def genuine_output_def

subsection \<open>Rows\<close>

lemma row_parts_contains: "p \<in> set (row_parts line) \<Longrightarrow> contains p line"
  unfolding row_parts_def
  using py_split_piece_contains py_strip_contains contains_trans by fastforce

lemma row_parts_not_Nil: "p \<in> set (row_parts line) \<Longrightarrow> p \<noteq> []"
  by (simp add: row_parts_def)

lemma py_get_row_parts: "contains (py_get (row_parts line) i) line"
  using py_get_set [of "row_parts line" i] row_parts_contains by fastforce

lemma py_get_row_parts_not_Nil: "i < length (row_parts line) \<Longrightarrow> py_get (row_parts line) i \<noteq> []"
  using py_get_contains row_parts_not_Nil by blast

text \<open>What a successful row parse consists of: the separator is there, at least six
  cells, and the machine is a cluster row (at least ten cells) in a cluster table or a
  standalone row otherwise, with a non-empty name that is not the header token.\<close>

lemma parse_row_SomeE:
  assumes "parse_row ict cc line = Some m"
  obtains r where "contains V_SEP line" and "6 \<le> length (row_parts line)"
    and "m = add_state r" and "name r \<noteq> []" and "name r \<noteq> u ''wbox_name''"
    and "ict \<and> 10 \<le> length (row_parts line) \<and> r = cluster_row cc (row_parts line) \<or>
         \<not> ict \<and> r = standalone_row (row_parts line)"
  using assms unfolding parse_row_def Let_def
  by (auto split: if_splits option.splits)

lemma parse_row_needs_sep: "\<not> contains V_SEP line \<Longrightarrow> parse_row ict cc line = None"
  by (simp add: parse_row_def)

subsection \<open>Sections\<close>

lemma cluster_at_digits: "cluster_at s = Some c \<Longrightarrow> c \<noteq> [] \<and> list_all is_digit c"
  by (auto simp: cluster_at_def Let_def list_all_iff dest: set_takeWhileD split: if_splits)

lemma cluster_search_digits: "cluster_search s = Some c \<Longrightarrow> c \<noteq> [] \<and> list_all is_digit c"
  by (induction s rule: cluster_search.induct) (auto dest: cluster_at_digits split: option.splits)

lemma section_of_literals [simp]:
  "section_of (Some (u ''standalone'')) = Standalone"
  "section_of (Some (u ''cluster_'' @ cid)) = Cluster_section cid"
  "section_of (Some (u ''ixia'')) = Ixia"
  "section_of (Some (u ''summary'')) = Summary_section"
  by (simp_all add: section_of_def u_def starts_with_append)

lemma scan_line_cases:
  "scan_line st line = st\<lparr>current_section := Some (u ''standalone''), is_cluster_table := False,
                          current_cluster := None\<rparr> \<and> contains (u ''Stand alone'') line \<or>
   (\<exists>cid. scan_line st line = st\<lparr>current_cluster := Some cid, current_section := Some (u ''cluster_'' @ cid),
                          is_cluster_table := True\<rparr> \<and> cluster_search line = Some cid) \<or>
   scan_line st line = st\<lparr>current_section := Some (u ''ixia'')\<rparr> \<or>
   scan_line st line = st\<lparr>current_section := Some (u ''summary'')\<rparr> \<or>
   scan_line st line = st \<or>
   (\<exists>m. \<not> section_skip (current_section st) \<and>
        parse_row (is_cluster_table st) (current_cluster st) line = Some m \<and>
        scan_line st line = st\<lparr>machines := machines st @ [m]\<rparr>)"
  unfolding scan_line_def by (auto split: option.splits)

subsection \<open>The loop invariant\<close>

lemma section_inv_init: "section_inv scan_init"
  by (simp add: section_inv_def scan_init_def)

lemma section_inv_step: "section_inv st \<Longrightarrow> section_inv (scan_line st line)"
  using scan_line_cases [of st line]
  by (elim disjE exE conjE) (auto simp: section_inv_def u_def dest: cluster_search_digits split: option.splits)

lemma parse_row_wf:
  assumes "parse_row ict cc line = Some m"
    and "ict \<Longrightarrow> \<exists>c. cc = Some c \<and> c \<noteq> [] \<and> list_all is_digit c"
  shows "machine_wf m"
proof -
  obtain r where sep: "6 \<le> length (row_parts line)" and m: "m = add_state r"
    and nm: "name r \<noteq> []" "name r \<noteq> u ''wbox_name''"
    and kind: "ict \<and> 10 \<le> length (row_parts line) \<and> r = cluster_row cc (row_parts line) \<or>
         \<not> ict \<and> r = standalone_row (row_parts line)"
    using assms(1) by (rule parse_row_SomeE)
  from kind show ?thesis
  proof
    assume c: "ict \<and> 10 \<le> length (row_parts line) \<and> r = cluster_row cc (row_parts line)"
    with assms(2) obtain k where "cc = Some k" "k \<noteq> []" "list_all is_digit k" by blast
    with c m nm py_get_row_parts_not_Nil [of 6 line] show ?thesis
      by (auto simp: machine_wf_def)
  next
    assume "\<not> ict \<and> r = standalone_row (row_parts line)"
    with sep m nm py_get_row_parts_not_Nil [of 5 line] show ?thesis
      by (auto simp: machine_wf_def)
  qed
qed

lemma section_inv_cluster:
  "section_inv st \<Longrightarrow> is_cluster_table st \<Longrightarrow>
   \<exists>c. current_cluster st = Some c \<and> c \<noteq> [] \<and> list_all is_digit c"
  by (auto simp: section_inv_def split: option.splits)

lemma scan_inv_step: "scan_inv st \<Longrightarrow> scan_inv (scan_line st line)"
  using scan_line_cases [of st line] section_inv_step [of st line]
  by (elim disjE exE conjE)
     (auto simp: scan_inv_def intro: parse_row_wf dest: section_inv_cluster)

lemma scan_inv_foldl: "scan_inv st \<Longrightarrow> scan_inv (foldl scan_line st ls)"
  by (induction ls arbitrary: st) (auto intro: scan_inv_step)

lemma scan_inv_init: "scan_inv scan_init"
  by (simp add: scan_inv_def section_inv_init) (simp add: scan_init_def)

lemma section_skip_eq: "section_skip sec \<longleftrightarrow> \<not> yields_rows (section_of sec)"
proof (cases sec)
  case (Some s)
  show ?thesis
  proof (cases "starts_with (u ''cluster_'') s")
    case True
    then have "s \<noteq> []" and "s \<noteq> u ''standalone''"
      by (auto simp: u_def)
    with True Some show ?thesis by (simp add: section_skip_def section_of_def)
  next
    case False
    with Some show ?thesis by (auto simp: section_skip_def section_of_def)
  qed
qed (simp add: section_skip_def section_of_def)

lemma foldl_scan_no_sep:
  "\<forall>l \<in> set ls. \<not> contains V_SEP l \<Longrightarrow> machines (foldl scan_line st ls) = machines st"
proof (induction ls arbitrary: st)
  case (Cons l ls)
  then have "machines (scan_line st l) = machines st"
    using scan_line_cases [of st l] parse_row_needs_sep [of l] by auto
  with Cons show ?case by simp
qed simp

lemma scan_line_machines:
  assumes "machines (scan_line st line) \<noteq> machines st"
  shows "\<not> section_skip (current_section st) \<and>
         (\<exists>m. parse_row (is_cluster_table st) (current_cluster st) line = Some m \<and>
              scan_line st line = st\<lparr>machines := machines st @ [m]\<rparr>)"
  using scan_line_cases [of st line] assms by auto

lemma section_of_Standalone: "section_of sec = Standalone \<Longrightarrow> sec = Some (u ''standalone'')"
  by (auto simp: section_of_def split: option.splits if_splits)

lemma section_of_Cluster:
  "section_of sec = Cluster_section c \<Longrightarrow> \<exists>s. sec = Some s \<and> starts_with (u ''cluster_'') s \<and> c = drop 8 s"
  by (auto simp: section_of_def split: option.splits if_splits)

lemma reachable_section_inv: "section_inv (foldl scan_line scan_init ls)"
  using scan_inv_foldl [OF scan_inv_init] by (simp add: scan_inv_def)

section \<open>Properties of the table scraper\<close>

text \<open>C1: Every machine the scraper returns is well formed: it has a non-empty name other than the header token \<open>wbox_name\<close> and a non-empty status, carries an \<open>nce_id\<close> exactly when it carries a cluster id, the cluster id is a non-empty run of digits, and its state and borrower are those the status classifier gives for its status. The proof is the loop invariant \<open>scan_inv\<close>, kept by every iteration.\<close>

theorem parse_machine_table_wf: "list_all machine_wf (parse_machine_table output)"
  using scan_inv_foldl [OF scan_inv_init] by (simp add: parse_machine_table_def scan_inv_def)

theorem parse_machine_table_wf_witness:
  "parse_machine_table sample_output \<noteq> [] \<and> list_all machine_wf (parse_machine_table sample_output)"
proof -
  have "parse_machine_table sample_output \<noteq> []"
    by (simp add: table_eval pystr_eval)
  then show ?thesis using parse_machine_table_wf [of sample_output] by simp
qed

text \<open>C3: The section bookkeeping of the loop implements the section classifier of spec 4.2: reading the code's \<open>current_section\<close> string as a section, one iteration moves it exactly as \<open>section_step\<close> does (Stand alone, then Cluster with a numeric id, then DP IXIAs, then the summary header, in that priority; other lines keep the section).\<close>

theorem scan_line_refines_section_step:
  "(\<not> shadowed_header line \<longrightarrow>
      section_of (current_section (scan_line st line)) = section_step (section_of (current_section st)) line) \<and>
   (shadowed_header line \<longrightarrow>
      section_of (current_section (scan_line st line)) = section_of (current_section st) \<and>
      section_step (section_of (current_section st)) line \<in> {Ixia, Summary_section})"
  by (auto simp: scan_line_def section_step_def section_rules_def shadowed_header_def split: option.split)

theorem scan_line_refines_section_step_witness:
  "section_of (current_section (scan_line scan_init (u ''Cluster 2''))) = Cluster_section (u ''2'') \<and>
   section_of (current_section (scan_line scan_init (u ''Cluster DP IXIAs''))) = No_section \<and>
   section_step No_section (u ''Cluster DP IXIAs'') = Ixia"
proof -
  have a: "\<not> shadowed_header (u ''Cluster 2'')" and b: "shadowed_header (u ''Cluster DP IXIAs'')"
    by (simp_all add: shadowed_header_def table_eval pystr_eval)
  have c: "section_step No_section (u ''Cluster 2'') = Cluster_section (u ''2'')"
    and d: "section_step No_section (u ''Cluster DP IXIAs'') = Ixia"
    by (simp_all add: section_step_def section_rules_def table_eval pystr_eval)
  have e: "section_of (current_section scan_init) = No_section" by (simp add: scan_init_def section_of_def)
  show ?thesis
    using scan_line_refines_section_step [of "u ''Cluster 2''" scan_init]
      scan_line_refines_section_step [of "u ''Cluster DP IXIAs''" scan_init] a b c d e by simp
qed

text \<open>C4: The tangled guard of the loop (\<open>A and not B or C == False\<close> with two nested \<open>if\<close>s) skips a line exactly when the current section is not one that yields rows: only standalone and cluster sections are parsed for machines.\<close>

theorem section_guard_iff: "section_skip sec \<longleftrightarrow> \<not> yields_rows (section_of sec)"
  by (rule section_skip_eq)

text \<open>A machine is added only by a line read in a standalone or cluster section, and only as the one machine \<open>parse_row\<close> makes of that line.\<close>

theorem scan_line_emits_only_rows:
  assumes "machines (scan_line st line) \<noteq> machines st"
  shows "yields_rows (section_of (current_section st)) \<and>
         (\<exists>m. parse_row (is_cluster_table st) (current_cluster st) line = Some m \<and>
              machines (scan_line st line) = machines st @ [m])"
  using scan_line_machines [OF assms] section_skip_eq by auto

theorem scan_line_emits_only_rows_witness:
  "machines (scan_line (scan_line scan_init (u ''Stand alone'')) sample_standalone_row) \<noteq>
     machines (scan_line scan_init (u ''Stand alone'')) \<and>
   yields_rows (section_of (current_section (scan_line scan_init (u ''Stand alone''))))"
proof -
  have h: "machines (scan_line (scan_line scan_init (u ''Stand alone'')) sample_standalone_row) \<noteq>
     machines (scan_line scan_init (u ''Stand alone''))"
    by (simp add: table_eval pystr_eval)
  show ?thesis using scan_line_emits_only_rows [OF h] h by blast
qed

text \<open>C5: In every state the loop reaches, a machine added in a standalone section has no cluster and no \<open>nce_id\<close>, and one added in the section of cluster \<open>c\<close> has cluster \<open>c\<close> and an \<open>nce_id\<close>; no other section adds machines.\<close>

theorem scan_tags_rows_with_section:
  assumes "st = foldl scan_line scan_init ls"
    and "machines (scan_line st line) = machines st @ [m]"
  shows "(case section_of (current_section st) of
            Standalone \<Rightarrow> cluster m = None \<and> nce_id m = None
          | Cluster_section c \<Rightarrow> cluster m = Some c \<and> nce_id m \<noteq> None
          | _ \<Rightarrow> False)"
proof -
  have inv: "section_inv st" using assms(1) reachable_section_inv by simp
  from assms(2) have "machines (scan_line st line) \<noteq> machines st" by simp
  from scan_line_machines [OF this] assms(2) have
    skip: "\<not> section_skip (current_section st)" and
    row: "parse_row (is_cluster_table st) (current_cluster st) line = Some m"
    by auto
  obtain r where m: "m = add_state r"
    and kind: "is_cluster_table st \<and> r = cluster_row (current_cluster st) (row_parts line) \<or>
         \<not> is_cluster_table st \<and> r = standalone_row (row_parts line)"
    using row by (rule parse_row_SomeE) blast
  from skip have yr: "yields_rows (section_of (current_section st))"
    by (simp add: section_skip_eq)
  show ?thesis
  proof (cases "section_of (current_section st)")
    case Standalone
    then have "current_section st = Some (u ''standalone'')" by (rule section_of_Standalone)
    with inv kind m Standalone show ?thesis by (auto simp: section_inv_def)
  next
    case (Cluster_section c)
    then obtain s where "current_section st = Some s" "starts_with (u ''cluster_'') s" "c = drop 8 s"
      using section_of_Cluster by blast
    with inv kind m Cluster_section show ?thesis by (auto simp: section_inv_def)
  qed (use yr in auto)
qed

theorem scan_tags_rows_with_section_witness:
  "machines (scan_line (foldl scan_line scan_init [u ''Cluster 2'']) sample_cluster_row) =
     machines (foldl scan_line scan_init [u ''Cluster 2'']) @
       [add_state (cluster_row (Some (u ''2'')) (row_parts sample_cluster_row))] \<and>
   cluster (add_state (cluster_row (Some (u ''2'')) (row_parts sample_cluster_row))) = Some (u ''2'')"
proof -
  have h: "machines (scan_line (foldl scan_line scan_init [u ''Cluster 2'']) sample_cluster_row) =
     machines (foldl scan_line scan_init [u ''Cluster 2'']) @
       [add_state (cluster_row (Some (u ''2'')) (row_parts sample_cluster_row))]"
    by (simp add: table_eval pystr_eval)
  have "section_of (current_section (foldl scan_line scan_init [u ''Cluster 2''])) =
          Cluster_section (u ''2'')"
    by (simp add: table_eval pystr_eval del: section_of_literals) (simp add: section_of_def u_def)
  with scan_tags_rows_with_section [OF refl h] h show ?thesis by simp
qed

text \<open>C2: The scraper only recognises rows whose separator is the literal of the source, U+201A U+00EE U+00C7, the Mac-Roman mojibake of the vertical bar U+2502. Output without the code point U+201A, which is what the tool prints with real box-drawing characters, yields no machine at all.\<close>

theorem parse_machine_table_needs_mojibake:
  assumes "8218 \<notin> set output"
  shows "parse_machine_table output = []"
proof -
  have "\<not> contains V_SEP l" if "l \<in> set (py_split [10] (strip_ansi output))" for l
  proof -
    have "set l \<subseteq> set (strip_ansi output)"
      using py_split_piece_contains [OF that] contains_set by blast
    with strip_ansi_set assms have "8218 \<notin> set l" by blast
    then show ?thesis by (auto simp: V_SEP_def dest: contains_set)
  qed
  then show ?thesis
    unfolding parse_machine_table_def
    by (subst foldl_scan_no_sep) (auto simp: scan_init_def)
qed

theorem parse_machine_table_needs_mojibake_witness:
  "8218 \<notin> set genuine_output \<and> parse_machine_table genuine_output = []"
proof -
  have h: "8218 \<notin> set genuine_output"
    by (simp add: genuine_output_def pystr_eval)
  show ?thesis using parse_machine_table_needs_mojibake [OF h] h by simp
qed

text \<open>A line with fewer than six non-empty cells never becomes a machine, and a cluster row (one with an \<open>nce_id\<close>) has at least ten.\<close>

theorem parse_row_min_columns:
  assumes "parse_row ict cc line = Some m"
  shows "6 \<le> length (row_parts line) \<and> (nce_id m \<noteq> None \<longrightarrow> 10 \<le> length (row_parts line))"
  using assms by (rule parse_row_SomeE) auto

theorem parse_row_min_columns_witness:
  "parse_row True (Some (u ''2'')) sample_cluster_row \<noteq> None \<and> 10 \<le> length (row_parts sample_cluster_row)"
proof -
  have "parse_row True (Some (u ''2'')) sample_cluster_row \<noteq> None"
    by (simp add: table_eval pystr_eval)
  then obtain m where m: "parse_row True (Some (u ''2'')) sample_cluster_row = Some m" by blast
  then have "nce_id m \<noteq> None"
    by (auto simp: table_eval pystr_eval)
  with parse_row_min_columns [OF m] m show ?thesis by simp
qed

text \<open>The scraper invents no text: every field of a parsed machine is a substring of the line it was read from.\<close>

theorem parse_row_fields_in_line:
  assumes "parse_row ict cc line = Some m"
  shows "list_all (\<lambda>f. contains f line)
           [vendor m, mtype m, revision m, name m, baseos_version m, status m,
            borrow_uptime m, git_branch m, last_connection m, comment m] \<and>
         (case nce_id m of None \<Rightarrow> True | Some i \<Rightarrow> contains i line)"
  using assms by (rule parse_row_SomeE) (auto simp: py_get_row_parts)

theorem parse_row_fields_in_line_witness:
  "\<exists>m. parse_row False None sample_standalone_row = Some m \<and>
       contains (name m) sample_standalone_row \<and> contains (status m) sample_standalone_row"
proof -
  obtain m where m: "parse_row False None sample_standalone_row = Some m"
    by (simp add: table_eval pystr_eval)
  show ?thesis
    using parse_row_fields_in_line [OF m] m by auto
qed

text \<open>The example of spec section 8: a standalone row followed by a row of cluster 2 gives two machines, the first with no cluster and no \<open>nce_id\<close>, the second with cluster \<open>2\<close>, its \<open>nce_id\<close>, and the borrower cut from \<open>john (deploy)\<close>.\<close>

theorem parse_machine_table_two_sections:
  "map (\<lambda>m. (name m, cluster m, nce_id m, state m, borrower m)) (parse_machine_table sample_output) =
   [(u ''m1'', None, None, Available, None),
    (u ''m2'', Some (u ''2''), Some (u ''7''), Borrowed, Some (u ''john''))]"
  by (simp add: table_eval pystr_eval)

text \<open>Empty cells are dropped everywhere, not only at the borders (spec 4.3 says only leading and trailing empty fields go): a standalone row whose base-OS cell is empty shifts every later column left, so \<open>Available\<close> lands in \<open>baseos_version\<close>, the uptime becomes the status and the machine is reported borrowed by \<open>1d\<close>.\<close>

theorem parse_machine_table_empty_cell_shift:
  "map (\<lambda>m. (baseos_version m, status m, state m, borrower m))
     (parse_machine_table (py_join [10] [u ''Stand alone'', py_join V_SEP
        [[], u '' Dell '', u '' x86 '', u '' A '', u '' m1 '', u ''   '', u '' Available '',
         u '' 1d '', u '' main '', u '' now '', u '' c '', []]])) =
   [(u ''Available'', u ''1d'', Borrowed, Some (u ''1d''))]"
  by (simp add: table_eval pystr_eval)

end
