(* ===== verification/Summary.thy ===== *)
theory Summary
  imports Table
begin

text \<open>
  The summary extractor of webborrow (\<open>parse_summary\<close>, src/webborrow/app.py): after
  stripping ANSI codes it looks, line by line, for a row of the double-bordered summary
  table that holds exactly four integers, the first at least the second, all
  non-negative; the first such row is the result (\<open>break\<close>), and all zeros when there
  is none. \<open>summary_line\<close> is one iteration of the loop (\<open>None\<close> = the loop goes on,
  including the \<open>except ValueError: continue\<close> path), \<open>scan_summary\<close> the loop.
  The separator literals are again Mac-Roman mojibake: \<open>DOUBLE_V\<close> stands for the
  double vertical bar U+2551, \<open>DOUBLE_H\<close> (of the table theory) for U+2550.
\<close>

definition DOUBLE_V :: ustr where "DOUBLE_V = [8218, 239, 235]"

record summary =
  total :: int
  free :: int
  taken :: int
  taken_not_used :: int

definition zero_summary :: summary where
  "zero_summary = \<lparr>total = 0, free = 0, taken = 0, taken_not_used = 0\<rparr>"

definition summary_line :: "ustr \<Rightarrow> summary option" where
  "summary_line line =
     (if contains DOUBLE_V line \<and> \<not> contains DOUBLE_H line then
        (let parts = filter (\<lambda>p. p \<noteq> []) (map py_strip (py_split DOUBLE_V line)) in
         if length parts = 4 then
           (case those (map py_int parts) of
              None \<Rightarrow> None
            | Some vals \<Rightarrow>
                if list_all (\<lambda>v. 0 \<le> v) vals \<and> vals ! 0 \<ge> vals ! 1
                then Some \<lparr>total = vals ! 0, free = vals ! 1, taken = vals ! 2,
                           taken_not_used = vals ! 3\<rparr>
                else None)
         else None)
      else None)"

fun scan_summary :: "ustr list \<Rightarrow> summary option" where
  "scan_summary [] = None"
| "scan_summary (l # ls) = (case summary_line l of Some s \<Rightarrow> Some s | None \<Rightarrow> scan_summary ls)"

definition parse_summary :: "ustr \<Rightarrow> summary" where
  "parse_summary output =
     (case scan_summary (py_split [10] (strip_ansi output)) of
        None \<Rightarrow> zero_summary
      | Some s \<Rightarrow> s)"

text \<open>A summary row as the tool prints it: each count in decimal, padded by one space,
  between the separators. It is the encoder of the round-trip property.\<close>

definition render_summary :: "summary \<Rightarrow> ustr" where
  "render_summary s =
     py_join DOUBLE_V
       [[], [32] @ dec (nat (total s)) @ [32], [32] @ dec (nat (free s)) @ [32],
        [32] @ dec (nat (taken s)) @ [32], [32] @ dec (nat (taken_not_used s)) @ [32], []]"

lemmas summary_eval = parse_summary_def summary_line_def DOUBLE_V_def DOUBLE_H_def zero_summary_def

section \<open>Facts\<close>

lemma scan_summary_Some: "scan_summary ls = Some s \<Longrightarrow> \<exists>l \<in> set ls. summary_line l = Some s"
  by (induction ls) (auto split: option.splits)

lemma scan_summary_find:
  "scan_summary ls = (case find (\<lambda>l. summary_line l \<noteq> None) ls of None \<Rightarrow> None | Some l \<Rightarrow> summary_line l)"
  by (induction ls) (auto split: option.splits)

lemma summary_line_needs_sep: "8218 \<notin> set l \<Longrightarrow> summary_line l = None"
  by (auto simp: summary_line_def DOUBLE_V_def dest: contains_set)

lemma those_map_Some: "those (map f xs) = Some ys \<longleftrightarrow> list_all2 (\<lambda>x y. f x = Some y) xs ys"
  by (induction xs arbitrary: ys) (auto split: option.splits simp: list_all2_Cons1)

lemma those_length: "those (map f xs) = Some ys \<Longrightarrow> length ys = length xs"
  by (simp add: those_map_Some list_all2_lengthD)

lemma summary_line_SomeE:
  assumes "summary_line l = Some s"
  obtains vals where "length vals = 4" and "list_all (\<lambda>v. 0 \<le> v) vals" and "vals ! 1 \<le> vals ! 0"
    and "s = \<lparr>total = vals ! 0, free = vals ! 1, taken = vals ! 2, taken_not_used = vals ! 3\<rparr>"
proof -
  define parts where "parts = filter (\<lambda>p. p \<noteq> []) (map py_strip (py_split DOUBLE_V l))"
  from assms obtain vals where "length parts = 4" and th: "those (map py_int parts) = Some vals"
    and "list_all (\<lambda>v. 0 \<le> v) vals" and "vals ! 1 \<le> vals ! 0"
    and "s = \<lparr>total = vals ! 0, free = vals ! 1, taken = vals ! 2, taken_not_used = vals ! 3\<rparr>"
    unfolding summary_line_def Let_def parts_def [symmetric]
    by (auto split: if_splits option.splits)
  moreover from th have "length vals = length parts" by (rule those_length)
  ultimately show ?thesis using that by simp
qed

lemma summary_line_bounds:
  "summary_line l = Some s \<Longrightarrow>
   0 \<le> free s \<and> free s \<le> total s \<and> 0 \<le> taken s \<and> 0 \<le> taken_not_used s"
  by (erule summary_line_SomeE) (auto simp: list_all_length)

lemma dec_no_8218 [simp]: "8218 \<notin> set (dec n)"
  using dec_digits [of n] by (auto simp: list_all_iff is_digit_def)

lemma no_8218_dec: "8218 \<notin> set ([32] @ dec n @ [32])"
  by simp

lemma no_space_dec: "\<forall>c \<in> set (dec n). \<not> is_space c"
  using dec_digits [of n] by (auto simp: list_all_iff is_digit_def is_space_def)

lemma contains_rule_skip:
  "8218 \<notin> set x \<Longrightarrow> contains [8218, b, c] (x @ r) \<longleftrightarrow> contains [8218, b, c] r"
proof (induction x)
  case (Cons d x)
  then show ?case by (cases "x @ r") auto
qed simp

lemma render_summary_parts:
  "filter (\<lambda>p. p \<noteq> []) (map py_strip (py_split DOUBLE_V (render_summary s))) =
   [dec (nat (total s)), dec (nat (free s)), dec (nat (taken s)), dec (nat (taken_not_used s))]"
proof -
  have "py_split DOUBLE_V (render_summary s) =
    [[], [32] @ dec (nat (total s)) @ [32], [32] @ dec (nat (free s)) @ [32],
     [32] @ dec (nat (taken s)) @ [32], [32] @ dec (nat (taken_not_used s)) @ [32], []]"
    unfolding render_summary_def
    by (rule py_split_py_join) (auto simp: DOUBLE_V_def no_8218_dec)
  then show ?thesis by (simp add: py_strip_padded no_space_dec)
qed

lemma render_summary_rule_free: "\<not> contains DOUBLE_H (render_summary s)"
  by (simp add: render_summary_def DOUBLE_H_def DOUBLE_V_def contains_rule_skip)

lemma render_summary_has_sep: "contains DOUBLE_V (render_summary s)"
  by (simp add: render_summary_def contains_append_left)

section \<open>Properties of the summary extractor\<close>

text \<open>C7: Whatever the tool prints, the summary has non-negative
  free, taken and taken-not-used counts and at most as many free machines as machines in
  total (hence a non-negative total).\<close>

theorem parse_summary_bounds:
  "0 \<le> free (parse_summary output) \<and> free (parse_summary output) \<le> total (parse_summary output) \<and>
   0 \<le> taken (parse_summary output) \<and> 0 \<le> taken_not_used (parse_summary output)"
proof (cases "scan_summary (py_split [10] (strip_ansi output))")
  case None
  then show ?thesis by (simp add: parse_summary_def zero_summary_def)
next
  case (Some s)
  then show ?thesis
    using scan_summary_Some [OF Some] summary_line_bounds by (auto simp: parse_summary_def)
qed

text \<open>The loop with \<open>break\<close> is a search for the first
  line that passes the shape test: the summary is that line's four numbers, and all zeros
  when no line passes.\<close>

theorem parse_summary_first_row:
  "parse_summary output =
     (case find (\<lambda>l. summary_line l \<noteq> None) (py_split [10] (strip_ansi output)) of
        None \<Rightarrow> zero_summary
      | Some l \<Rightarrow> the (summary_line l))"
proof (cases "find (\<lambda>l. summary_line l \<noteq> None) (py_split [10] (strip_ansi output))")
  case None
  then show ?thesis by (simp add: parse_summary_def scan_summary_find)
next
  case (Some l)
  then have "summary_line l \<noteq> None"
    by (simp only: find_Some_iff) blast
  with Some show ?thesis by (auto simp: parse_summary_def scan_summary_find)
qed

text \<open>C8: A summary row printed in the tool's layout (with the
  source's separator literal) is read back as the same four counts, for every summary
  whose counts are non-negative with free at most total.\<close>

theorem summary_line_roundtrip:
  assumes "0 \<le> free s" and "free s \<le> total s" and "0 \<le> taken s" and "0 \<le> taken_not_used s"
  shows "summary_line (render_summary s) = Some s"
proof -
  have "those (map py_int
          [dec (nat (total s)), dec (nat (free s)), dec (nat (taken s)), dec (nat (taken_not_used s))]) =
        Some [total s, free s, taken s, taken_not_used s]"
    using assms by (simp add: py_int_dec)
  with assms show ?thesis
    by (simp add: summary_line_def render_summary_parts render_summary_rule_free render_summary_has_sep)
qed

theorem summary_line_roundtrip_witness:
  "summary_line (render_summary \<lparr>total = 10, free = 3, taken = 7, taken_not_used = 2\<rparr>) =
     Some \<lparr>total = 10, free = 3, taken = 7, taken_not_used = 2\<rparr>"
  by (rule summary_line_roundtrip) simp_all

text \<open>The examples of spec section 8: the row
  \<open>10 | 3 | 7 | 2\<close> (double bars) gives total 10, free 3, taken 7, taken-not-used 2, and
  a row \<open>3 | 10 | 7 | 2\<close> before it is rejected (free above total) and the scan goes on.\<close>

theorem parse_summary_spec_examples:
  "parse_summary (py_join DOUBLE_V [[], u '' 10 '', u '' 3 '', u '' 7 '', u '' 2 '', []]) =
     \<lparr>total = 10, free = 3, taken = 7, taken_not_used = 2\<rparr> \<and>
   parse_summary (py_join [10]
     [py_join DOUBLE_V [[], u '' 3 '', u '' 10 '', u '' 7 '', u '' 2 '', []],
      py_join DOUBLE_V [[], u '' 10 '', u '' 3 '', u '' 7 '', u '' 2 '', []]]) =
     \<lparr>total = 10, free = 3, taken = 7, taken_not_used = 2\<rparr>"
  by (simp add: summary_eval pystr_eval)

text \<open>Like the row scraper, the summary scan only
  matches the mojibake separator: output without U+201A, such as the tool's real
  double-bordered table, always gives the all-zero summary.\<close>

theorem parse_summary_needs_mojibake:
  assumes "8218 \<notin> set output"
  shows "parse_summary output = zero_summary"
proof -
  have "summary_line l = None" if "l \<in> set (py_split [10] (strip_ansi output))" for l
  proof -
    have "set l \<subseteq> set (strip_ansi output)"
      using py_split_piece_contains [OF that] contains_set by blast
    with strip_ansi_set assms have "8218 \<notin> set l" by blast
    then show ?thesis by (rule summary_line_needs_sep)
  qed
  then have "find (\<lambda>l. summary_line l \<noteq> None) (py_split [10] (strip_ansi output)) = None"
    by (simp add: find_None_iff)
  then show ?thesis
    by (simp add: parse_summary_def scan_summary_find)
qed

theorem parse_summary_needs_mojibake_witness:
  "8218 \<notin> set (py_join [9553] [[], u '' 10 '', u '' 3 '', u '' 7 '', u '' 2 '', []]) \<and>
   parse_summary (py_join [9553] [[], u '' 10 '', u '' 3 '', u '' 7 '', u '' 2 '', []]) = zero_summary"
proof -
  have h: "8218 \<notin> set (py_join [9553] [[], u '' 10 '', u '' 3 '', u '' 7 '', u '' 2 '', []])"
    by (simp add: pystr_eval)
  show ?thesis using parse_summary_needs_mojibake [OF h] h by simp
qed

text \<open>The cells are read with Python's \<open>int\<close>, which
  also takes a sign and underscores between digits: the row \<open>1_0 | +3 | 7 | 2\<close> is
  accepted as total 10, free 3 (spec 4.5 speaks only of non-negative integers).\<close>

theorem summary_line_python_int:
  "summary_line (py_join DOUBLE_V [[], u '' 1_0 '', u '' +3 '', u '' 7 '', u '' 2 '', []]) =
     Some \<lparr>total = 10, free = 3, taken = 7, taken_not_used = 2\<rparr>"
  by (simp add: summary_eval pystr_eval)

end
