(* ===== verification/WebBorrow.thy ===== *)
theory WebBorrow
  imports Summary
begin

text \<open>
  The HTTP side of webborrow (src/webborrow/app.py): \<open>run_pyborrow\<close> runs the external
  inventory tool, and the handlers \<open>get_machines\<close>, \<open>borrow_machine\<close>,
  \<open>free_machine\<close> and \<open>get_machine_details\<close> turn its output into JSON responses.
  The tool itself is outside the repository: it is a parameter \<open>tool\<close> of type
  \<open>pyborrow\<close>, a function from the arguments after \<open>pyborrow.py\<close> to what
  \<open>subprocess.run\<close> ends with (completed with stdout, stderr and exit code, timed out
  after 180 seconds, or any other exception with its message). A response is the JSON body
  as a record or datatype together with the HTTP status.
\<close>

datatype run_result = Completed ustr ustr int | Timed_out | Raised ustr

type_synonym pyborrow = "ustr list \<Rightarrow> run_result"

text \<open>The argument list after \<open>[sys.executable, pyborrow.py]\<close>: \<open>-q\<close> is appended
  when borrowing or freeing.\<close>

definition pyborrow_args :: "ustr list \<Rightarrow> ustr list" where
  "pyborrow_args args =
     args @ (if args \<noteq> [] \<and> (u ''-b'' \<in> set args \<or> u ''-f'' \<in> set args \<or>
                               u ''--borrow'' \<in> set args \<or> u ''--free'' \<in> set args)
             then [u ''-q''] else [])"

definition run_pyborrow :: "pyborrow \<Rightarrow> ustr list \<Rightarrow> ustr \<times> ustr \<times> int" where
  "run_pyborrow tool args =
     (case tool (pyborrow_args args) of
        Completed out err code \<Rightarrow> (out, err, code)
      | Timed_out \<Rightarrow> ([], u ''Command timed out'', 1)
      | Raised msg \<Rightarrow> ([], msg, 1))"

datatype machines_body =
    Fetch_error ustr
  | Machine_list "machine list" summary nat

definition get_machines :: "pyborrow \<Rightarrow> machines_body \<times> nat" where
  "get_machines tool =
     (case run_pyborrow tool [] of
        (stdout, stderr, code) \<Rightarrow>
          if code \<noteq> 0 \<and> stdout = []
          then (Fetch_error (u ''Failed to fetch machines: '' @ stderr), 500)
          else
            (let machines = parse_machine_table stdout; summary = parse_summary stdout
             in (Machine_list machines summary (length machines), 200)))"

text \<open>The body of a borrow or free answer; \<open>error = None\<close> is the missing key of a
  successful one.\<close>

record action_body =
  success :: bool
  message :: ustr
  output_text :: ustr
  error :: "ustr option"

definition borrow_machine :: "pyborrow \<Rightarrow> ustr \<Rightarrow> action_body \<times> nat" where
  "borrow_machine tool machine_name =
     (case run_pyborrow tool [u ''-b'', machine_name] of
        (stdout, stderr, code) \<Rightarrow>
          (let clean_stdout = strip_ansi stdout; clean_stderr = strip_ansi stderr in
           if code = 0 \<or> contains (u ''borrowed'') (py_lower clean_stdout)
           then (\<lparr>success = True, message = u ''Successfully borrowed '' @ machine_name,
                  output_text = clean_stdout, error = None\<rparr>, 200)
           else (\<lparr>success = False, message = u ''Failed to borrow '' @ machine_name,
                  output_text = clean_stdout, error = Some clean_stderr\<rparr>, 400)))"

definition free_machine :: "pyborrow \<Rightarrow> ustr \<Rightarrow> action_body \<times> nat" where
  "free_machine tool machine_name =
     (case run_pyborrow tool [u ''-f'', machine_name] of
        (stdout, stderr, code) \<Rightarrow>
          (let clean_stdout = strip_ansi stdout; clean_stderr = strip_ansi stderr in
           if code = 0 \<or> contains (u ''freed'') (py_lower clean_stdout)
           then (\<lparr>success = True, message = u ''Successfully freed '' @ machine_name,
                  output_text = clean_stdout, error = None\<rparr>, 200)
           else (\<lparr>success = False, message = u ''Failed to free '' @ machine_name,
                  output_text = clean_stdout, error = Some clean_stderr\<rparr>, 400)))"

record details_body =
  detail_name :: ustr
  details :: ustr
  detail_success :: bool

definition get_machine_details :: "pyborrow \<Rightarrow> ustr \<Rightarrow> details_body" where
  "get_machine_details tool machine_name =
     (case run_pyborrow tool [machine_name] of
        (stdout, stderr, code) \<Rightarrow>
          \<lparr>detail_name = machine_name, details = strip_ansi stdout, detail_success = (code = 0)\<rparr>)"

section \<open>Facts\<close>

lemma pyborrow_args_borrow: "pyborrow_args [u ''-b'', n] = [u ''-b'', n, u ''-q'']"
  by (simp add: pyborrow_args_def)

lemma pyborrow_args_free: "pyborrow_args [u ''-f'', n] = [u ''-f'', n, u ''-q'']"
  by (simp add: pyborrow_args_def)

lemma pyborrow_args_Nil: "pyborrow_args [] = []"
  by (simp add: pyborrow_args_def)

lemmas webborrow_eval = get_machines_def borrow_machine_def free_machine_def run_pyborrow_def
  pyborrow_args_borrow pyborrow_args_free pyborrow_args_Nil

section \<open>Properties of the handlers\<close>

text \<open>A tool run that times out is reported as a fetch
  error with status 500 and the message \<open>Command timed out\<close>.\<close>

theorem get_machines_timeout:
  assumes "tool [] = Timed_out"
  shows "get_machines tool = (Fetch_error (u ''Failed to fetch machines: Command timed out''), 500)"
  using assms by (simp add: webborrow_eval u_def)

theorem get_machines_timeout_witness:
  "get_machines (\<lambda>_. Timed_out) = (Fetch_error (u ''Failed to fetch machines: Command timed out''), 500)"
  by (rule get_machines_timeout) simp

text \<open>A non-zero exit with some output is still a
  success (spec 7): the output is parsed and answered with status 200.\<close>

theorem get_machines_partial_success:
  assumes "tool [] = Completed out err code" and "out \<noteq> []"
  shows "get_machines tool =
           (Machine_list (parse_machine_table out) (parse_summary out) (length (parse_machine_table out)), 200)"
  using assms by (simp add: webborrow_eval Let_def)

theorem get_machines_partial_success_witness:
  "get_machines (\<lambda>_. Completed sample_output [] 1) =
     (Machine_list (parse_machine_table sample_output) (parse_summary sample_output)
        (length (parse_machine_table sample_output)), 200)"
proof -
  have "sample_output \<noteq> []" by (simp add: sample_output_def pystr_eval)
  then show ?thesis by (rule get_machines_partial_success [OF refl])
qed

text \<open>\<open>/api/borrow/<name>\<close> runs the tool with
  \<open>-b name -q\<close> and reports success (status 200) exactly when the exit code is 0 or the
  ANSI-stripped, lower-cased stdout contains \<open>borrowed\<close>; otherwise status 400 with the
  stripped stderr as error.\<close>

theorem borrow_machine_success_iff:
  assumes "tool [u ''-b'', n, u ''-q''] = Completed out err code"
  shows "(success (fst (borrow_machine tool n)) \<longleftrightarrow>
           code = 0 \<or> contains (u ''borrowed'') (py_lower (strip_ansi out))) \<and>
         snd (borrow_machine tool n) = (if success (fst (borrow_machine tool n)) then 200 else 400) \<and>
         error (fst (borrow_machine tool n)) =
           (if success (fst (borrow_machine tool n)) then None else Some (strip_ansi err))"
  using assms by (simp add: webborrow_eval Let_def)

theorem borrow_machine_success_iff_witness:
  "success (fst (borrow_machine (\<lambda>_. Completed (u ''ok'') [] 0) (u ''m1''))) \<and>
   snd (borrow_machine (\<lambda>_. Completed (u ''ok'') [] 0) (u ''m1'')) = 200"
  using borrow_machine_success_iff [of "\<lambda>_. Completed (u ''ok'') [] 0" "u ''m1''" "u ''ok''" "[]" 0]
  by simp

text \<open>The keyword test is a substring test,
  so a failed borrow whose message merely mentions the word is reported as a success: exit
  code 1 with \<open>m1 could not be borrowed\<close> answers 200, \<open>success: true\<close>.\<close>

theorem borrow_machine_keyword_false_positive:
  "borrow_machine (\<lambda>_. Completed (u ''m1 could not be borrowed'') (u ''denied'') 1) (u ''m1'') =
   (\<lparr>success = True, message = u ''Successfully borrowed m1'',
     output_text = u ''m1 could not be borrowed'', error = None\<rparr>, 200)"
  by (simp add: webborrow_eval pystr_eval)

text \<open>\<open>/api/free/<name>\<close> runs the tool with
  \<open>-f name -q\<close> and reports success exactly when the exit code is 0 or the stripped,
  lower-cased stdout contains \<open>freed\<close>.\<close>

theorem free_machine_success_iff:
  assumes "tool [u ''-f'', n, u ''-q''] = Completed out err code"
  shows "(success (fst (free_machine tool n)) \<longleftrightarrow>
           code = 0 \<or> contains (u ''freed'') (py_lower (strip_ansi out))) \<and>
         snd (free_machine tool n) = (if success (fst (free_machine tool n)) then 200 else 400)"
  using assms by (simp add: webborrow_eval Let_def)

theorem free_machine_success_iff_witness:
  "\<not> success (fst (free_machine (\<lambda>_. Completed (u ''busy'') (u ''e'') 2) (u ''m1''))) \<and>
   snd (free_machine (\<lambda>_. Completed (u ''busy'') (u ''e'') 2) (u ''m1'')) = 400"
  using free_machine_success_iff [of "\<lambda>_. Completed (u ''busy'') (u ''e'') 2" "u ''m1''" "u ''busy''" "u ''e''" 2]
  by (simp add: pystr_eval)

end
