(* ===== verification/TimeTracker.thy ===== *)
theory TimeTracker
  imports Prelude "HOL-Library.List_Lexorder" "HOL-Library.Product_Lexorder"
begin

text \<open>
  The time tracker (src/time_tracker/app.py): a Flask application over an SQLite
  database with two tables, \<open>subjects\<close> and \<open>time_entries\<close>. The database is the
  record \<open>db\<close>: each table a list of rows in rowid order, and the \<open>sqlite_sequence\<close>
  counter of each \<open>AUTOINCREMENT\<close> key. A handler takes the request's JSON object (an
  association list, \<open>data.get\<close> the first binding) and the database, and returns the
  response with the updated database. An exception the handler does not catch is the
  response \<open>Server_error\<close> (Flask answers 500) with the database unchanged.

  Values cross from Python to SQLite by the \<open>sqlite3\<close> adaptation (\<open>None\<close> to NULL,
  \<open>bool\<close> and \<open>int\<close> to INTEGER, \<open>float\<close> to REAL, \<open>str\<close> to TEXT); \<open>sql_value\<close> is
  ordered as SQLite compares values (NULL, then integers and reals by their value, then
  text in code-point order, which is the BINARY collation of UTF-8). Foreign keys are not enforced: \<open>sqlite3.connect\<close> leaves
  \<open>PRAGMA foreign_keys\<close> off, so the declared \<open>REFERENCES ... ON DELETE CASCADE\<close> has
  no effect and is not modelled. Of column affinity, the INTEGER and NUMERIC columns'
  conversion of a REAL with an integral value to an INTEGER is modelled
  (\<open>int_affinity\<close>); the conversion of text that looks like a number, and TEXT affinity
  of \<open>color\<close>, are not: such values are stored as bound.
\<close>

subsection \<open>SQL values\<close>

text \<open>\<open>x <= 0\<close>: \<open>bool\<close> is a subclass of \<open>int\<close>; a \<open>str\<close> or \<open>None\<close> raises \<open>TypeError\<close>.\<close>

fun json_le_zero :: "json \<Rightarrow> bool option" where
  "json_le_zero (JInt i) = Some (i \<le> 0)"
| "json_le_zero (JBool b) = Some (\<not> b)"
| "json_le_zero (JFloat r) = Some (r \<le> 0)"
| "json_le_zero _ = None"

datatype sql_value = SNull | SInt int | SReal rat | SText ustr

fun bind_value :: "json \<Rightarrow> sql_value" where
  "bind_value JNull = SNull"
| "bind_value (JBool b) = SInt (if b then 1 else 0)"
| "bind_value (JInt i) = SInt i"
| "bind_value (JFloat r) = SReal r"
| "bind_value (JStr s) = SText s"

text \<open>The \<open>INTEGER\<close> and \<open>NUMERIC\<close> column affinity (\<open>subject_id\<close>, \<open>minutes\<close>, and
  \<open>date\<close>, whose declared type \<open>DATE\<close> has NUMERIC affinity): a REAL whose value is an
  integer is stored as that INTEGER.\<close>

definition int_affinity :: "sql_value \<Rightarrow> sql_value" where
  "int_affinity v = (case v of SReal r \<Rightarrow> if of_int \<lfloor>r\<rfloor> = r then SInt \<lfloor>r\<rfloor> else SReal r | _ \<Rightarrow> v)"

text \<open>SQLite's order: NULL first, then the numbers by value (an INTEGER and a REAL of the
  same value compare equal in SQLite; here the INTEGER comes first, which makes the order
  total), then text.\<close>

instantiation sql_value :: linorder
begin

fun less_eq_sql_value :: "sql_value \<Rightarrow> sql_value \<Rightarrow> bool" where
  "less_eq_sql_value SNull _ = True"
| "less_eq_sql_value (SInt _) SNull = False"
| "less_eq_sql_value (SInt i) (SInt j) = (i \<le> j)"
| "less_eq_sql_value (SInt i) (SReal r) = (of_int i \<le> r)"
| "less_eq_sql_value (SInt _) (SText _) = True"
| "less_eq_sql_value (SReal _) SNull = False"
| "less_eq_sql_value (SReal r) (SInt i) = (r < of_int i)"
| "less_eq_sql_value (SReal r) (SReal q) = (r \<le> q)"
| "less_eq_sql_value (SReal _) (SText _) = True"
| "less_eq_sql_value (SText _) SNull = False"
| "less_eq_sql_value (SText _) (SInt _) = False"
| "less_eq_sql_value (SText _) (SReal _) = False"
| "less_eq_sql_value (SText s) (SText t) = (s \<le> t)"

definition less_sql_value :: "sql_value \<Rightarrow> sql_value \<Rightarrow> bool" where
  "less_sql_value x y \<longleftrightarrow> x \<le> y \<and> \<not> y \<le> x"

instance
proof
  fix x y z :: sql_value
  show "x < y \<longleftrightarrow> x \<le> y \<and> \<not> y \<le> x" by (rule less_sql_value_def)
  show "x \<le> x" by (cases x) simp_all
  show "x \<le> y \<Longrightarrow> y \<le> z \<Longrightarrow> x \<le> z"
    by (cases x; cases y; cases z) auto
  show "x \<le> y \<Longrightarrow> y \<le> x \<Longrightarrow> x = y"
    by (cases x; cases y) auto
  show "x \<le> y \<or> y \<le> x"
    by (cases x; cases y) auto
qed

end

subsection \<open>The database\<close>

record subject =
  subj_id :: nat
  subj_name :: ustr
  subj_color :: sql_value

record time_entry =
  ent_id :: nat
  ent_subject :: sql_value
  ent_date :: sql_value
  ent_minutes :: sql_value
  ent_notes :: ustr

record db =
  subjects :: "subject list"
  entries :: "time_entry list"
  subj_seq :: nat
  entry_seq :: nat

definition empty_db :: db where
  "empty_db = \<lparr>subjects = [], entries = [], subj_seq = 0, entry_seq = 0\<rparr>"

datatype tt_response =
    Tt_error ustr nat
  | Subject_list "subject list"
  | Subject_created nat ustr json
  | Entry_list "(time_entry \<times> subject) list"
  | Entry_created nat json json json ustr
  | Tt_success
  | Server_error

text \<open>\<open>te.subject_id = s.id\<close>.\<close>

definition refers_to :: "time_entry \<Rightarrow> subject \<Rightarrow> bool" where
  "refers_to e s \<longleftrightarrow> ent_subject e = SInt (int (subj_id s))"

text \<open>The key \<open>AUTOINCREMENT\<close> gives a new row: one more than the larger of the
  table's \<open>sqlite_sequence\<close> entry and its largest rowid.\<close>

definition next_id :: "nat \<Rightarrow> nat list \<Rightarrow> nat" where
  "next_id sq ids = Suc (max sq (fold max ids 0))"

subsection \<open>The handlers\<close>

text \<open>\<open>GET /api/subjects\<close>: \<open>SELECT * FROM subjects ORDER BY name\<close> (names are unique,
  so the order is total).\<close>

definition get_subjects :: "db \<Rightarrow> tt_response" where
  "get_subjects d = Subject_list (sort_key subj_name (subjects d))"

text \<open>\<open>POST /api/subjects\<close>. The \<open>UNIQUE\<close> constraint on \<open>name\<close> raises the
  \<open>IntegrityError\<close> the handler turns into 400.\<close>

definition create_subject :: "json_obj \<Rightarrow> db \<Rightarrow> tt_response \<times> db" where
  "create_subject data d =
     (case json_strip (dict_get data (u ''name'') (JStr [])) of
        None \<Rightarrow> (Server_error, d)
      | Some name \<Rightarrow>
          (let color = dict_get data (u ''color'') (JStr (u ''#6366f1'')) in
           if name = [] then (Tt_error (u ''Subject name is required'') 400, d)
           else if name \<in> set (map subj_name (subjects d))
             then (Tt_error (u ''Subject already exists'') 400, d)
           else
             (let i = next_id (subj_seq d) (map subj_id (subjects d)) in
              (Subject_created i name color,
               d\<lparr>subjects := subjects d @ [\<lparr>subj_id = i, subj_name = name, subj_color = bind_value color\<rparr>],
                 subj_seq := i\<rparr>))))"

text \<open>\<open>DELETE /api/subjects/<id>\<close>: the entries of the subject first, then the subject.\<close>

definition delete_subject :: "nat \<Rightarrow> db \<Rightarrow> tt_response \<times> db" where
  "delete_subject sid d =
     (Tt_success,
      d\<lparr>entries := filter (\<lambda>e. ent_subject e \<noteq> SInt (int sid)) (entries d),
        subjects := filter (\<lambda>s. subj_id s \<noteq> sid) (subjects d)\<rparr>)"

text \<open>\<open>ORDER BY k DESC\<close>: a key ordered the other way round.\<close>

datatype 'a desc = Desc 'a

instantiation desc :: (linorder) linorder
begin

fun less_eq_desc :: "'a desc \<Rightarrow> 'a desc \<Rightarrow> bool" where
  "less_eq_desc (Desc x) (Desc y) = (y \<le> x)"

fun less_desc :: "'a desc \<Rightarrow> 'a desc \<Rightarrow> bool" where
  "less_desc (Desc x) (Desc y) = (y < x)"

instance
proof
  fix x y z :: "'a desc"
  show "x < y \<longleftrightarrow> x \<le> y \<and> \<not> y \<le> x" by (cases x; cases y) auto
  show "x \<le> x" by (cases x) simp
  show "x \<le> y \<Longrightarrow> y \<le> z \<Longrightarrow> x \<le> z" by (cases x; cases y; cases z) auto
  show "x \<le> y \<Longrightarrow> y \<le> x \<Longrightarrow> x = y" by (cases x; cases y) auto
  show "x \<le> y \<or> y \<le> x" by (cases x; cases y) auto
qed

end

text \<open>The inner join of \<open>GET /api/entries\<close> (each entry with the subjects it refers
  to) and its \<open>ORDER BY te.date DESC, s.name\<close>. SQLite leaves the order of rows equal
  on both keys open; the stable sort fixes one.\<close>

definition joined :: "db \<Rightarrow> (time_entry \<times> subject) list" where
  "joined d = concat (map (\<lambda>e. map (Pair e) (filter (refers_to e) (subjects d))) (entries d))"

definition order_entries :: "(time_entry \<times> subject) list \<Rightarrow> (time_entry \<times> subject) list" where
  "order_entries rows = sort_key (\<lambda>r. (Desc (ent_date (fst r)), subj_name (snd r))) rows"

definition in_range :: "ustr \<Rightarrow> ustr \<Rightarrow> time_entry \<Rightarrow> bool" where
  "in_range st en e \<longleftrightarrow> SText st \<le> ent_date e \<and> ent_date e \<le> SText en"

text \<open>\<open>request.args.get(k)\<close> is a \<open>str\<close> or \<open>None\<close>; \<open>if start_date and end_date\<close>.\<close>

fun arg_given :: "ustr option \<Rightarrow> bool" where
  "arg_given None = False"
| "arg_given (Some s) = (s \<noteq> [])"

definition get_entries :: "ustr option \<Rightarrow> ustr option \<Rightarrow> db \<Rightarrow> tt_response" where
  "get_entries start_date end_date d =
     (if arg_given start_date \<and> arg_given end_date
      then Entry_list (order_entries
             (filter (\<lambda>r. in_range (the start_date) (the end_date) (fst r)) (joined d)))
      else Entry_list (take 100 (order_entries (joined d))))"

text \<open>\<open>POST /api/entries\<close>. All four fields are read first (so a non-string
  \<open>notes\<close> raises before any check); \<open>not minutes or minutes <= 0\<close> short-circuits;
  an explicit \<open>"date": null\<close> violates \<open>NOT NULL\<close>, an \<open>IntegrityError\<close> the handler does
  not catch.\<close>

definition create_entry :: "ustr \<Rightarrow> json_obj \<Rightarrow> db \<Rightarrow> tt_response \<times> db" where
  "create_entry today data d =
     (let subject_id = dict_get data (u ''subject_id'') JNull;
          entry_date = dict_get data (u ''date'') (JStr today);
          minutes = dict_get data (u ''minutes'') (JInt 0)
      in case json_strip (dict_get data (u ''notes'') (JStr [])) of
           None \<Rightarrow> (Server_error, d)
         | Some notes \<Rightarrow>
             if \<not> truthy subject_id then (Tt_error (u ''Subject is required'') 400, d)
             else if \<not> truthy minutes then (Tt_error (u ''Valid time duration is required'') 400, d)
             else (case json_le_zero minutes of
                     None \<Rightarrow> (Server_error, d)
                   | Some True \<Rightarrow> (Tt_error (u ''Valid time duration is required'') 400, d)
                   | Some False \<Rightarrow>
                       if entry_date = JNull then (Server_error, d)
                       else
                         (let i = next_id (entry_seq d) (map ent_id (entries d)) in
                          (Entry_created i subject_id entry_date minutes notes,
                           d\<lparr>entries := entries d @
                                [\<lparr>ent_id = i, ent_subject = int_affinity (bind_value subject_id),
                                  ent_date = int_affinity (bind_value entry_date),
                                  ent_minutes = int_affinity (bind_value minutes),
                                  ent_notes = notes\<rparr>],
                             entry_seq := i\<rparr>))))"

definition delete_entry :: "nat \<Rightarrow> db \<Rightarrow> tt_response \<times> db" where
  "delete_entry eid d = (Tt_success, d\<lparr>entries := filter (\<lambda>e. ent_id e \<noteq> eid) (entries d)\<rparr>)"

text \<open>\<open>GET /api/stats\<close> for the window \<open>[st, en]\<close> of ISO dates (the window itself,
  \<open>today - (days - 1)\<close> to \<open>today\<close>, is calendar arithmetic and is an input here).
  \<open>SUM\<close> adds the minutes, integers and reals; the handlers store no other kind of value
  there.\<close>

fun sql_num :: "sql_value \<Rightarrow> rat" where
  "sql_num (SInt i) = of_int i"
| "sql_num (SReal r) = r"
| "sql_num _ = 0"

fun is_number :: "sql_value \<Rightarrow> bool" where
  "is_number (SInt i) = True"
| "is_number (SReal r) = True"
| "is_number _ = False"

definition subject_total :: "ustr \<Rightarrow> ustr \<Rightarrow> db \<Rightarrow> subject \<Rightarrow> rat" where
  "subject_total st en d s =
     sum_list (map (sql_num \<circ> ent_minutes) (filter (\<lambda>e. refers_to e s \<and> in_range st en e) (entries d)))"

definition daily_total :: "ustr \<Rightarrow> ustr \<Rightarrow> db \<Rightarrow> sql_value \<Rightarrow> rat" where
  "daily_total st en d dt =
     sum_list (map (sql_num \<circ> ent_minutes) (filter (\<lambda>e. ent_date e = dt \<and> in_range st en e) (entries d)))"

definition get_stats :: "ustr \<Rightarrow> ustr \<Rightarrow> db \<Rightarrow> (subject \<times> rat) list \<times> (sql_value \<times> rat) list" where
  "get_stats st en d =
     (sort_key (\<lambda>r. Desc (snd r)) (map (\<lambda>s. (s, subject_total st en d s)) (subjects d)),
      map (\<lambda>dt. (dt, daily_total st en d dt))
        (sort (remdups (map ent_date (filter (in_range st en) (entries d))))))"

subsection \<open>The requests that change the database\<close>

datatype tt_op =
    Create_subject json_obj
  | Delete_subject nat
  | Create_entry ustr json_obj
  | Delete_entry nat

fun tt_step :: "tt_op \<Rightarrow> db \<Rightarrow> tt_response \<times> db" where
  "tt_step (Create_subject data) d = create_subject data d"
| "tt_step (Delete_subject sid) d = delete_subject sid d"
| "tt_step (Create_entry today data) d = create_entry today data d"
| "tt_step (Delete_entry eid) d = delete_entry eid d"

subsection \<open>The database invariant and request sequences\<close>

text \<open>What the handlers keep true of the tables: keys distinct and never above their
  \<open>sqlite_sequence\<close> entry, subject names distinct and non-empty, and every entry with
  a subject, a date and a positive number of minutes.\<close>

definition tt_wf :: "db \<Rightarrow> bool" where
  "tt_wf d \<longleftrightarrow>
     distinct (map subj_id (subjects d)) \<and> list_all (\<lambda>s. subj_id s \<le> subj_seq d) (subjects d) \<and>
     distinct (map subj_name (subjects d)) \<and> list_all (\<lambda>s. subj_name s \<noteq> []) (subjects d) \<and>
     distinct (map ent_id (entries d)) \<and> list_all (\<lambda>e. ent_id e \<le> entry_seq d) (entries d) \<and>
     list_all (\<lambda>e. ent_subject e \<noteq> SNull \<and> ent_date e \<noteq> SNull \<and>
                   is_number (ent_minutes e) \<and> 0 < sql_num (ent_minutes e)) (entries d)"

text \<open>Referential integrity, which the schema declares and SQLite does not enforce:
  every entry's \<open>subject_id\<close> is the id of a subject.\<close>

definition refs_ok :: "db \<Rightarrow> bool" where
  "refs_ok d \<longleftrightarrow> list_all (\<lambda>e. list_ex (refers_to e) (subjects d)) (entries d)"

text \<open>A sequence of requests, answered one after the other on one connection.\<close>

fun tt_run :: "tt_op list \<Rightarrow> db \<Rightarrow> tt_response list \<times> db" where
  "tt_run [] d = ([], d)"
| "tt_run (op # ops) d =
     (case tt_step op d of (r, d') \<Rightarrow> (case tt_run ops d' of (rs, d'') \<Rightarrow> (r # rs, d'')))"

text \<open>The ids handed out in a sequence of responses: new subjects and new entries.\<close>

fun created_ids :: "tt_response list \<Rightarrow> nat list \<times> nat list" where
  "created_ids [] = ([], [])"
| "created_ids (Subject_created i _ _ # rs) = (case created_ids rs of (a, b) \<Rightarrow> (i # a, b))"
| "created_ids (Entry_created i _ _ _ _ # rs) = (case created_ids rs of (a, b) \<Rightarrow> (a, i # b))"
| "created_ids (_ # rs) = created_ids rs"

lemmas tt_eval = create_subject_def create_entry_def delete_subject_def delete_entry_def dict_get_def
  Let_def next_id_def empty_db_def u_def

section \<open>Facts about the handlers\<close>

lemma next_id_bound: "list_all (\<lambda>x. x \<le> sq) xs \<Longrightarrow> next_id sq xs = Suc sq"
  using fold_max_le [where xs = xs and b = sq and a = 0] by (simp add: next_id_def max_def)

lemma next_id_gt: "sq < next_id sq xs"
  by (simp add: next_id_def)

lemma int_affinity_simps [simp]:
  "int_affinity SNull = SNull" "int_affinity (SInt i) = SInt i" "int_affinity (SText s) = SText s"
  by (simp_all add: int_affinity_def)

lemma bind_value_SNull [simp]: "int_affinity (bind_value v) = SNull \<longleftrightarrow> v = JNull"
  by (cases v) (auto simp: int_affinity_def)

lemma int_affinity_num: "is_number (int_affinity v) = is_number v" "sql_num (int_affinity v) = sql_num v"
  by (cases v; simp add: int_affinity_def)+

lemma json_le_zero_False:
  "json_le_zero m = Some False \<Longrightarrow> is_number (int_affinity (bind_value m)) \<and> 0 < sql_num (int_affinity (bind_value m))"
  by (cases m) (auto simp: int_affinity_num)

lemma tt_wf_empty: "tt_wf empty_db"
  by (simp add: tt_wf_def empty_db_def)

lemma create_subject_wf: "tt_wf d \<Longrightarrow> tt_wf (snd (create_subject data d))"
  by (auto simp: create_subject_def tt_wf_def Let_def next_id_bound list_all_iff
           split: option.split)

lemma delete_subject_wf: "tt_wf d \<Longrightarrow> tt_wf (snd (delete_subject sid d))"
  by (auto simp: delete_subject_def tt_wf_def list_all_iff distinct_map_filter)

lemma delete_entry_wf: "tt_wf d \<Longrightarrow> tt_wf (snd (delete_entry eid d))"
  by (auto simp: delete_entry_def tt_wf_def list_all_iff distinct_map_filter)

lemma create_entry_wf: "tt_wf d \<Longrightarrow> tt_wf (snd (create_entry today data d))"
  by (auto simp: create_entry_def tt_wf_def Let_def next_id_bound list_all_iff
           dest: json_le_zero_False split: option.split bool.split)

lemma create_subject_refs: "refs_ok d \<Longrightarrow> refs_ok (snd (create_subject data d))"
  by (auto simp: create_subject_def refs_ok_def Let_def list_all_iff list_ex_iff split: option.split)

lemma delete_subject_refs: "refs_ok d \<Longrightarrow> refs_ok (snd (delete_subject sid d))"
  by (fastforce simp: delete_subject_def refs_ok_def list_all_iff list_ex_iff refers_to_def)

lemma delete_entry_refs: "refs_ok d \<Longrightarrow> refs_ok (snd (delete_entry eid d))"
  by (auto simp: delete_entry_def refs_ok_def list_all_iff)

lemma stats_subject_sum:
  assumes "tt_wf d" and "refs_ok d"
  shows "sum_list (map snd (fst (get_stats st en d))) =
         sum_list (map (sql_num \<circ> ent_minutes) (filter (in_range st en) (entries d)))"
proof -
  let ?R = "filter (in_range st en) (entries d)"
  let ?key = "\<lambda>s. SInt (int (subj_id s))"
  have "sum_list (map snd (fst (get_stats st en d))) = (\<Sum>s\<leftarrow>subjects d. subject_total st en d s)"
    by (simp add: get_stats_def sum_list_mset_eq [OF mset_sort] comp_def)
  also have "\<dots> = (\<Sum>k\<leftarrow>map ?key (subjects d).
                    sum_list (map (sql_num \<circ> ent_minutes) (filter (\<lambda>e. ent_subject e = k) ?R)))"
    by (simp add: subject_total_def refers_to_def filter_filter comp_def conj_commute)
  also have "\<dots> = sum_list (map (sql_num \<circ> ent_minutes) ?R)"
  proof (rule sum_list_partition)
    show "distinct (map ?key (subjects d))"
      using assms(1) by (simp add: tt_wf_def distinct_map inj_on_def)
    show "set (map ent_subject ?R) \<subseteq> set (map ?key (subjects d))"
      using assms(2) by (auto simp: refs_ok_def list_all_iff list_ex_iff refers_to_def)
  qed
  finally show ?thesis .
qed

lemma stats_daily_sum:
  "sum_list (map snd (snd (get_stats st en d))) =
   sum_list (map (sql_num \<circ> ent_minutes) (filter (in_range st en) (entries d)))"
proof -
  let ?R = "filter (in_range st en) (entries d)"
  have "sum_list (map snd (snd (get_stats st en d))) =
        (\<Sum>k\<leftarrow>sort (remdups (map ent_date ?R)).
           sum_list (map (sql_num \<circ> ent_minutes) (filter (\<lambda>e. ent_date e = k) ?R)))"
    by (simp add: get_stats_def daily_total_def filter_filter comp_def conj_commute)
  also have "\<dots> = sum_list (map (sql_num \<circ> ent_minutes) ?R)"
  proof (rule sum_list_partition)
    show "distinct (sort (remdups (map ent_date ?R)))" by simp
    show "set (map ent_date ?R) \<subseteq> set (sort (remdups (map ent_date ?R)))" by simp
  qed
  finally show ?thesis .
qed

lemma tt_step_wf: "tt_wf d \<Longrightarrow> tt_wf (snd (tt_step op d))"
  by (cases op) (simp_all add: create_subject_wf delete_subject_wf create_entry_wf delete_entry_wf)

lemma tt_step_seq_mono:
  "subj_seq d \<le> subj_seq (snd (tt_step op d)) \<and> entry_seq d \<le> entry_seq (snd (tt_step op d))"
  by (cases op)
     (auto simp: create_subject_def delete_subject_def create_entry_def delete_entry_def Let_def
           less_imp_le [OF next_id_gt] split: option.split bool.split)

lemma tt_step_subject_created:
  "fst (tt_step op d) = Subject_created i n c \<Longrightarrow>
   subj_seq d < i \<and> subj_seq (snd (tt_step op d)) = i \<and> entry_seq (snd (tt_step op d)) = entry_seq d"
  by (cases op)
     (auto simp: create_subject_def delete_subject_def create_entry_def delete_entry_def Let_def
           next_id_gt split: option.splits bool.splits if_splits)

lemma tt_step_entry_created:
  "fst (tt_step op d) = Entry_created i a b c n \<Longrightarrow>
   entry_seq d < i \<and> entry_seq (snd (tt_step op d)) = i \<and> subj_seq (snd (tt_step op d)) = subj_seq d"
  by (cases op)
     (auto simp: create_subject_def delete_subject_def create_entry_def delete_entry_def Let_def
           next_id_gt split: option.splits bool.splits if_splits)

lemma tt_run_ids_above:
  "sorted_wrt (<) (fst (created_ids (fst (tt_run ops d)))) \<and>
   list_all (\<lambda>i. subj_seq d < i) (fst (created_ids (fst (tt_run ops d)))) \<and>
   sorted_wrt (<) (snd (created_ids (fst (tt_run ops d)))) \<and>
   list_all (\<lambda>i. entry_seq d < i) (snd (created_ids (fst (tt_run ops d))))"
proof (induction ops arbitrary: d)
  case (Cons op ops)
  obtain r d' where st: "tt_step op d = (r, d')" by fastforce
  obtain A B where rest: "created_ids (fst (tt_run ops d')) = (A, B)" by fastforce
  have IH: "sorted_wrt (<) A \<and> list_all (\<lambda>i. subj_seq d' < i) A \<and>
            sorted_wrt (<) B \<and> list_all (\<lambda>i. entry_seq d' < i) B"
    using Cons.IH [of d'] rest by simp
  have mono: "subj_seq d \<le> subj_seq d'" "entry_seq d \<le> entry_seq d'"
    using tt_step_seq_mono [of d op] st by simp_all
  have run: "fst (tt_run (op # ops) d) = r # fst (tt_run ops d')"
    using st by (simp split: prod.split)
  show ?case
  proof (cases r)
    case (Subject_created i n c)
    with st tt_step_subject_created [of op d i n c] have "subj_seq d < i" "subj_seq d' = i" "entry_seq d' = entry_seq d"
      by simp_all
    with IH run rest Subject_created show ?thesis by (auto simp: list_all_iff)
  next
    case (Entry_created i a b c n)
    with st tt_step_entry_created [of op d i a b c n] have "entry_seq d < i" "entry_seq d' = i" "subj_seq d' = subj_seq d"
      by simp_all
    with IH run rest Entry_created show ?thesis by (auto simp: list_all_iff)
  qed (use IH run rest mono in \<open>force simp: list_all_iff\<close>)+
qed simp

lemma tt_run_wf: "tt_wf d \<Longrightarrow> tt_wf (snd (tt_run ops d))"
proof (induction ops arbitrary: d)
  case (Cons op ops)
  obtain r d' where st: "tt_step op d = (r, d')" by fastforce
  with tt_step_wf [OF Cons.prems, of op] have "tt_wf d'" by simp
  then have "tt_wf (snd (tt_run ops d'))" by (rule Cons.IH)
  with st show ?case by (cases "tt_run ops d'") simp
qed simp

lemma refers_unique:
  assumes "tt_wf d" and "refs_ok d" and "e \<in> set (entries d)"
  shows "\<exists>s. filter (refers_to e) (subjects d) = [s]"
proof -
  obtain s where s: "s \<in> set (subjects d)" "refers_to e s"
    using assms(2,3) by (auto simp: refs_ok_def list_all_iff list_ex_iff)
  have "distinct (map subj_id (subjects d))" using assms(1) by (simp add: tt_wf_def)
  moreover have "\<forall>y \<in> set (subjects d). refers_to e y \<longrightarrow> subj_id y = subj_id s"
    using s(2) by (auto simp: refers_to_def)
  ultimately have "filter (refers_to e) (subjects d) = [s]"
    by (rule filter_unique [where P = "refers_to e", OF _ s])
  then show ?thesis by blast
qed

lemma joined_entries:
  assumes "tt_wf d" and "refs_ok d"
  shows "map fst (joined d) = entries d"
proof -
  have "map fst (joined d) = concat (map (\<lambda>e. map fst (map (Pair e) (filter (refers_to e) (subjects d)))) (entries d))"
    by (simp add: joined_def map_concat comp_def)
  also have "\<dots> = concat (map (\<lambda>e. [e]) (entries d))"
  proof (rule arg_cong [where f = concat], rule map_cong [OF refl])
    fix e assume "e \<in> set (entries d)"
    from refers_unique [OF assms this] show "map fst (map (Pair e) (filter (refers_to e) (subjects d))) = [e]"
      by auto
  qed
  also have "\<dots> = entries d"
    by (rule concat_map_single)
  finally show ?thesis .
qed

lemma json_le_zero_False_iff:
  "truthy m \<and> json_le_zero m = Some False \<longleftrightarrow> (\<exists>i>0. m = JInt i) \<or> (\<exists>r>0. m = JFloat r) \<or> m = JBool True"
  by (cases m) auto


section \<open>Properties of the time tracker\<close>

text \<open>C10: Every sequence of requests from the empty database
  leaves it well formed: keys distinct and below their sequence, subject names distinct
  and non-empty, every entry with a subject, a date and a positive number of minutes (an
  integer, or a real such as 0.5).\<close>

theorem tt_run_wf_reachable: "tt_wf (snd (tt_run ops empty_db))"
  by (rule tt_run_wf [OF tt_wf_empty])

text \<open>C37: Creating or deleting a subject and deleting an entry keep
  referential integrity; \<open>delete_subject\<close> removes the subject's entries itself, since
  the declared cascade is not in force.\<close>

theorem tt_step_refs:
  assumes "refs_ok d" and "\<forall>t data. op \<noteq> Create_entry t data"
  shows "refs_ok (snd (tt_step op d))"
  using assms by (cases op) (simp_all add: create_subject_refs delete_subject_refs delete_entry_refs)

theorem tt_step_refs_witness:
  "refs_ok (snd (tt_step (Delete_subject 1) (snd (tt_run [Create_subject [(u ''name'', JStr (u ''Math''))],
             Create_entry (u ''2024-01-02'') [(u ''subject_id'', JInt 1), (u ''minutes'', JInt 30)]] empty_db))))"
proof -
  have "refs_ok (snd (tt_run [Create_subject [(u ''name'', JStr (u ''Math''))],
             Create_entry (u ''2024-01-02'') [(u ''subject_id'', JInt 1), (u ''minutes'', JInt 30)]] empty_db))"
    by (simp add: tt_eval pystr_eval refs_ok_def refers_to_def)
  then show ?thesis by (rule tt_step_refs) simp
qed






text \<open>C30: On a well-formed database with referential
  integrity, the per-subject totals and the per-day totals of \<open>/api/stats\<close> add up to
  the same number of minutes.\<close>

theorem get_stats_totals_agree:
  assumes "tt_wf d" and "refs_ok d"
  shows "sum_list (map snd (fst (get_stats st en d))) = sum_list (map snd (snd (get_stats st en d)))"
  using stats_subject_sum [OF assms] stats_daily_sum by simp

theorem get_stats_totals_agree_witness:
  "sum_list (map snd (fst (get_stats (u ''2024-01-01'') (u ''2024-01-31'') (snd (tt_run [Create_subject [(u ''name'', JStr (u ''Math''))],
             Create_entry (u ''2024-01-02'') [(u ''subject_id'', JInt 1), (u ''minutes'', JInt 30)]] empty_db))))) =
   sum_list (map snd (snd (get_stats (u ''2024-01-01'') (u ''2024-01-31'') (snd (tt_run [Create_subject [(u ''name'', JStr (u ''Math''))],
             Create_entry (u ''2024-01-02'') [(u ''subject_id'', JInt 1), (u ''minutes'', JInt 30)]] empty_db)))))"
proof (rule get_stats_totals_agree)
  show "tt_wf (snd (tt_run [Create_subject [(u ''name'', JStr (u ''Math''))],
             Create_entry (u ''2024-01-02'') [(u ''subject_id'', JInt 1), (u ''minutes'', JInt 30)]] empty_db))" by (rule tt_run_wf [OF tt_wf_empty])
  show "refs_ok (snd (tt_run [Create_subject [(u ''name'', JStr (u ''Math''))],
             Create_entry (u ''2024-01-02'') [(u ''subject_id'', JInt 1), (u ''minutes'', JInt 30)]] empty_db))" by (simp add: tt_eval pystr_eval refs_ok_def refers_to_def)
qed

text \<open>C36: With both dates given, \<open>GET /api/entries\<close> on a
  well-formed database with referential integrity lists every entry dated within the
  range exactly once and nothing else, ordered by date (newest first) then subject name.\<close>

theorem get_entries_range:
  assumes "tt_wf d" and "refs_ok d" and "st \<noteq> []" and "en \<noteq> []"
  shows "\<exists>rs. get_entries (Some st) (Some en) d = Entry_list rs \<and>
              mset (map fst rs) = mset (filter (in_range st en) (entries d)) \<and>
              sorted (map (\<lambda>r. (Desc (ent_date (fst r)), subj_name (snd r))) rs)"
proof -
  let ?rows = "filter (\<lambda>r. in_range st en (fst r)) (joined d)"
  have "map fst ?rows = filter (in_range st en) (map fst (joined d))"
    by (simp add: filter_map comp_def)
  then have "map fst ?rows = filter (in_range st en) (entries d)"
    by (simp add: joined_entries [OF assms(1,2)])
  moreover have "mset (map fst (order_entries ?rows)) = mset (map fst ?rows)"
    by (simp add: order_entries_def)
  moreover have "sorted (map (\<lambda>r. (Desc (ent_date (fst r)), subj_name (snd r))) (order_entries ?rows))"
    by (simp add: order_entries_def)
  ultimately show ?thesis
    using assms(3,4) by (simp add: get_entries_def)
qed

theorem get_entries_range_witness:
  "\<exists>rs. get_entries (Some (u ''2024-01-01'')) (Some (u ''2024-01-31'')) (snd (tt_run [Create_subject [(u ''name'', JStr (u ''Math''))],
             Create_entry (u ''2024-01-02'') [(u ''subject_id'', JInt 1), (u ''minutes'', JInt 30)]] empty_db)) = Entry_list rs \<and>
        mset (map fst rs) = mset (filter (in_range (u ''2024-01-01'') (u ''2024-01-31'')) (entries (snd (tt_run [Create_subject [(u ''name'', JStr (u ''Math''))],
             Create_entry (u ''2024-01-02'') [(u ''subject_id'', JInt 1), (u ''minutes'', JInt 30)]] empty_db)))) \<and>
        sorted (map (\<lambda>r. (Desc (ent_date (fst r)), subj_name (snd r))) rs)"
proof (rule get_entries_range)
  show "tt_wf (snd (tt_run [Create_subject [(u ''name'', JStr (u ''Math''))],
             Create_entry (u ''2024-01-02'') [(u ''subject_id'', JInt 1), (u ''minutes'', JInt 30)]] empty_db))" by (rule tt_run_wf [OF tt_wf_empty])
  show "refs_ok (snd (tt_run [Create_subject [(u ''name'', JStr (u ''Math''))],
             Create_entry (u ''2024-01-02'') [(u ''subject_id'', JInt 1), (u ''minutes'', JInt 30)]] empty_db))" by (simp add: tt_eval pystr_eval refs_ok_def refers_to_def)
qed (simp_all add: u_def)

text \<open>C34: Ids are never reused: over any sequence of requests from
  the empty database the ids of created subjects strictly increase, and so do those of
  created entries, deletions in between notwithstanding (\<open>AUTOINCREMENT\<close>).\<close>

theorem tt_run_fresh_ids:
  "sorted_wrt (<) (fst (created_ids (fst (tt_run ops empty_db)))) \<and>
   sorted_wrt (<) (snd (created_ids (fst (tt_run ops empty_db))))"
  using tt_run_ids_above [of ops empty_db] by simp

text \<open>\<open>POST /api/entries\<close> stores a row exactly when
  \<open>notes\<close> (if given) is a string, \<open>subject_id\<close> is truthy, \<open>minutes\<close> is a positive
  integer, a positive float or \<open>true\<close>, and \<open>date\<close> is not an explicit \<open>null\<close>.\<close>

theorem create_entry_inserts_iff:
  "entries (snd (create_entry today data d)) \<noteq> entries d \<longleftrightarrow>
     json_strip (dict_get data (u ''notes'') (JStr [])) \<noteq> None \<and>
     truthy (dict_get data (u ''subject_id'') JNull) \<and>
     ((\<exists>i>0. dict_get data (u ''minutes'') (JInt 0) = JInt i) \<or> (\<exists>r>0. dict_get data (u ''minutes'') (JInt 0) = JFloat r) \<or>
      dict_get data (u ''minutes'') (JInt 0) = JBool True) \<and>
     dict_get data (u ''date'') (JStr today) \<noteq> JNull"
  by (auto simp: create_entry_def Let_def simp flip: json_le_zero_False_iff split: option.split bool.split)

text \<open>The duration check assumes a number: a string
  \<open>"30"\<close> makes \<open>minutes <= 0\<close> raise \<open>TypeError\<close> (500, nothing stored) instead of the
  400 answer, and the JSON \<open>true\<close> passes as one minute.\<close>

theorem create_entry_minutes_types:
  "create_entry (u ''2024-01-01'') [(u ''subject_id'', JInt 1), (u ''minutes'', JStr (u ''30''))] empty_db =
     (Server_error, empty_db) \<and>
   map ent_minutes (entries (snd (create_entry (u ''2024-01-01'')
     [(u ''subject_id'', JInt 1), (u ''minutes'', JBool True)] empty_db))) = [SInt 1]"
  by (simp add: create_entry_def empty_db_def dict_get_def u_def Let_def)

text \<open>A float duration passes the check and is stored as a REAL (SQLite keeps 0.5 in the
  INTEGER column, since it is not an integer).\<close>

lemma create_entry_float_minutes:
  "map ent_minutes (entries (snd (create_entry (u ''2024-01-01'')
     [(u ''subject_id'', JInt 1), (u ''minutes'', JFloat (1/2))] empty_db))) = [SReal (1/2)]"
proof -
  have "\<lfloor>(1/2 :: rat)\<rfloor> = 0" by (simp add: floor_eq_iff)
  then show ?thesis by (simp add: create_entry_def empty_db_def dict_get_def u_def Let_def int_affinity_def)
qed

end
