(* ===== verification/DiaryTodos.thy ===== *)
theory DiaryTodos
  imports Prelude
begin

text \<open>
  The todo list of the diary application (src/diary/app.py, \<open>load_todos\<close> to
  \<open>delete_todo\<close> and the \<open>/api/todos\<close> routes). The list lives in the file
  \<open>todos.json\<close> of the diary repository; every change rewrites the whole file and runs
  \<open>git add todos.json\<close> and \<open>git commit -m 'Update todos'\<close>. The state is the record
  \<open>todo_store\<close>: the file (missing, unreadable or not valid JSON, or a list of todos)
  and the git commands issued so far, in order. The random id (\<open>uuid4().hex[:8]\<close>) and
  the creation time are inputs. A successful change through the API also starts a
  background sync thread; the handlers return that as a flag (the sync itself is in
  \<open>DiarySync\<close>).
\<close>

record todo =
  todo_id :: ustr
  todo_text :: ustr
  todo_done :: bool
  todo_created :: ustr

datatype todo_file = No_file | Corrupt ustr | Todo_list "todo list"

record todo_store =
  todos_file :: todo_file
  git_commands :: "ustr list list"

text \<open>\<open>load_todos\<close>: a missing file, and one that fails to decode
  (\<open>JSONDecodeError\<close>, \<open>OSError\<close>), both read as the empty list.\<close>

definition load_todos :: "todo_store \<Rightarrow> todo list" where
  "load_todos st = (case todos_file st of Todo_list ts \<Rightarrow> ts | _ \<Rightarrow> [])"

definition save_todos :: "todo list \<Rightarrow> todo_store \<Rightarrow> todo_store" where
  "save_todos ts st =
     \<lparr>todos_file = Todo_list ts,
      git_commands = git_commands st @ [[u ''add'', u ''todos.json''],
                                        [u ''commit'', u ''-m'', u ''Update todos'']]\<rparr>"

definition create_todo :: "ustr \<Rightarrow> ustr \<Rightarrow> ustr \<Rightarrow> todo_store \<Rightarrow> todo \<times> todo_store" where
  "create_todo fresh now text st =
     (let t = \<lparr>todo_id = fresh, todo_text = text, todo_done = False, todo_created = now\<rparr>
      in (t, save_todos (load_todos st @ [t]) st))"

text \<open>The \<open>for t in todos\<close> loops of \<open>toggle_todo\<close> and \<open>update_todo_text\<close>: the first
  todo with the id is changed in place; the changed list and the changed todo, or
  \<open>None\<close> when no todo has the id.\<close>

fun update_first :: "ustr \<Rightarrow> (todo \<Rightarrow> todo) \<Rightarrow> todo list \<Rightarrow> (todo list \<times> todo) option" where
  "update_first i f [] = None"
| "update_first i f (t # ts) =
     (if todo_id t = i then Some (f t # ts, f t)
      else map_option (\<lambda>(ts', t'). (t # ts', t')) (update_first i f ts))"

definition toggle_todo :: "ustr \<Rightarrow> todo_store \<Rightarrow> todo option \<times> todo_store" where
  "toggle_todo i st =
     (case update_first i (\<lambda>t. t\<lparr>todo_done := \<not> todo_done t\<rparr>) (load_todos st) of
        None \<Rightarrow> (None, st)
      | Some (ts, t) \<Rightarrow> (Some t, save_todos ts st))"

definition update_todo_text :: "ustr \<Rightarrow> ustr \<Rightarrow> todo_store \<Rightarrow> todo option \<times> todo_store" where
  "update_todo_text i text st =
     (case update_first i (\<lambda>t. t\<lparr>todo_text := text\<rparr>) (load_todos st) of
        None \<Rightarrow> (None, st)
      | Some (ts, t) \<Rightarrow> (Some t, save_todos ts st))"

definition delete_todo :: "ustr \<Rightarrow> todo_store \<Rightarrow> bool \<times> todo_store" where
  "delete_todo i st =
     (let todos = load_todos st; new_todos = filter (\<lambda>t. todo_id t \<noteq> i) todos
      in if length new_todos = length todos then (False, st) else (True, save_todos new_todos st))"

subsection \<open>The routes\<close>

datatype todo_response =
    Todo_error ustr nat
  | Todo_listing "todo list"
  | Todo_ok "todo option"

text \<open>A route's answer, its new store, and whether it started a sync thread.\<close>

type_synonym todo_answer = "todo_response \<times> todo_store \<times> bool"

definition api_get_todos :: "todo_store \<Rightarrow> todo_response" where
  "api_get_todos st = Todo_listing (load_todos st)"

text \<open>A body whose \<open>text\<close> is not a string makes \<open>.strip()\<close> raise: the 500 answer
  \<open>Todo_error [] 500\<close>.\<close>

definition api_create_todo :: "ustr \<Rightarrow> ustr \<Rightarrow> json_obj \<Rightarrow> todo_store \<Rightarrow> todo_answer" where
  "api_create_todo fresh now data st =
     (case json_strip (dict_get data (u ''text'') (JStr [])) of
        None \<Rightarrow> (Todo_error [] 500, st, False)
      | Some text \<Rightarrow>
          if text = [] then (Todo_error (u ''Text is required'') 400, st, False)
          else (case create_todo fresh now text st of (t, st') \<Rightarrow> (Todo_ok (Some t), st', True)))"

definition api_toggle_todo :: "ustr \<Rightarrow> todo_store \<Rightarrow> todo_answer" where
  "api_toggle_todo i st =
     (case toggle_todo i st of
        (Some t, st') \<Rightarrow> (Todo_ok (Some t), st', True)
      | (None, st') \<Rightarrow> (Todo_error (u ''Todo not found'') 404, st', False))"

definition api_update_todo :: "ustr \<Rightarrow> json_obj \<Rightarrow> todo_store \<Rightarrow> todo_answer" where
  "api_update_todo i data st =
     (case json_strip (dict_get data (u ''text'') (JStr [])) of
        None \<Rightarrow> (Todo_error [] 500, st, False)
      | Some text \<Rightarrow>
          if text = [] then (Todo_error (u ''Text is required'') 400, st, False)
          else (case update_todo_text i text st of
                  (Some t, st') \<Rightarrow> (Todo_ok (Some t), st', True)
                | (None, st') \<Rightarrow> (Todo_error (u ''Todo not found'') 404, st', False)))"

definition api_delete_todo :: "ustr \<Rightarrow> todo_store \<Rightarrow> todo_answer" where
  "api_delete_todo i st =
     (case delete_todo i st of
        (True, st') \<Rightarrow> (Todo_ok None, st', True)
      | (False, st') \<Rightarrow> (Todo_error (u ''Todo not found'') 404, st', False))"

subsection \<open>The list as a map from ids\<close>

text \<open>What the list means when ids are distinct: a finite map from id to todo. The
  operations refine the map operations on it.\<close>

definition todo_map :: "todo list \<Rightarrow> ustr \<rightharpoonup> todo" where
  "todo_map ts = map_of (map (\<lambda>t. (todo_id t, t)) ts)"

definition ids_distinct :: "todo_store \<Rightarrow> bool" where
  "ids_distinct st \<longleftrightarrow> distinct (map todo_id (load_todos st))"

section \<open>Facts about the list operations\<close>

lemma update_first_None_iff: "update_first i f ts = None \<longleftrightarrow> i \<notin> set (map todo_id ts)"
  by (induction ts) auto

lemma update_first_Some_mem: "update_first i f ts = Some p \<Longrightarrow> i \<in> set (map todo_id ts)"
  using update_first_None_iff [of i f ts] by auto

lemma update_first_Some:
  assumes "update_first i f ts = Some (ts', t')" and "\<forall>t. todo_id (f t) = todo_id t"
  shows "\<exists>xs t0 ys. ts = xs @ t0 # ys \<and> i \<notin> set (map todo_id xs) \<and> todo_id t0 = i \<and>
                    ts' = xs @ f t0 # ys \<and> t' = f t0"
  using assms(1)
proof (induction ts arbitrary: ts')
  case (Cons t ts)
  show ?case
  proof (cases "todo_id t = i")
    case True
    with Cons.prems show ?thesis by (intro exI [of _ "[]"]) auto
  next
    case False
    with Cons.prems obtain ts'' where r: "update_first i f ts = Some (ts'', t')" and "ts' = t # ts''"
      by (auto split: prod.splits)
    from Cons.IH [OF r] obtain xs t0 ys where
      "ts = xs @ t0 # ys" "i \<notin> set (map todo_id xs)" "todo_id t0 = i" "ts'' = xs @ f t0 # ys" "t' = f t0"
      by blast
    with False \<open>ts' = t # ts''\<close> show ?thesis by (intro exI [of _ "t # xs"]) auto
  qed
qed simp

lemma map_of_ids_append:
  "i \<notin> set (map todo_id xs) \<Longrightarrow>
   map_of (map (\<lambda>t. (todo_id t, t)) (xs @ ys)) i = map_of (map (\<lambda>t. (todo_id t, t)) ys) i"
  by (induction xs) auto

lemma todo_map_update_first:
  assumes "distinct (map todo_id ts)" and "\<forall>t. todo_id (f t) = todo_id t"
  shows "case update_first i f ts of
           None \<Rightarrow> todo_map ts i = None
         | Some (ts', t') \<Rightarrow> todo_map ts' = (todo_map ts)(i \<mapsto> t') \<and>
                            map_option f (todo_map ts i) = Some t' \<and> map todo_id ts' = map todo_id ts"
proof (cases "update_first i f ts")
  case None
  then have "i \<notin> set (map todo_id ts)" by (simp add: update_first_None_iff)
  then have "todo_map ts i = None" by (simp add: todo_map_def map_of_eq_None_iff image_iff)
  with None show ?thesis by (simp only: option.case)
next
  case (Some r)
  obtain ts' t' where r: "r = (ts', t')" by fastforce
  from update_first_Some [OF Some [unfolded r] assms(2)] obtain xs t0 ys where
    s: "ts = xs @ t0 # ys" "i \<notin> set (map todo_id xs)" "todo_id t0 = i" "ts' = xs @ f t0 # ys" "t' = f t0"
    by blast
  from assms(1) s have "i \<notin> set (map todo_id ys)" by auto
  have ids: "map todo_id ts' = map todo_id ts" using s assms(2) by simp
  have "todo_map ts' = (todo_map ts)(i \<mapsto> t')"
  proof
    fix k
    show "todo_map ts' k = ((todo_map ts)(i \<mapsto> t')) k"
      using s assms(2) \<open>i \<notin> set (map todo_id ys)\<close>
      by (cases "k = i") (auto simp: todo_map_def map_add_def map_of_eq_None_iff image_iff dest: map_of_SomeD split: option.split)
  qed
  moreover have "todo_map ts i = Some t0"
    using map_of_ids_append [OF s(2), of "t0 # ys"] s(1,3)
    by (simp add: todo_map_def del: map_of_append map_append)
  ultimately show ?thesis using Some r s ids by simp
qed

lemma load_save [simp]: "load_todos (save_todos ts st) = ts"
  by (simp add: save_todos_def load_todos_def)

lemma todo_map_filter:
  "todo_map (filter (\<lambda>t. todo_id t \<noteq> i) ts) = (todo_map ts)(i := None)"
  by (induction ts) (auto simp: todo_map_def fun_eq_iff)

lemma length_filter_eq_iff: "length (filter P xs) = length xs \<longleftrightarrow> (\<forall>x \<in> set xs. P x)"
proof (induction xs)
  case (Cons a xs)
  show ?case
  proof (cases "P a")
    case True
    with Cons.IH show ?thesis by simp
  next
    case False
    have "length (filter P xs) \<le> length xs" by (rule length_filter_le)
    then have "length (filter P xs) \<noteq> Suc (length xs)" by linarith
    with False show ?thesis by simp
  qed
qed simp

lemma todo_map_dom: "i \<in> set (map todo_id ts) \<longleftrightarrow> todo_map ts i \<noteq> None"
  by (simp add: todo_map_def map_of_eq_None_iff image_iff)

lemma todo_map_snoc:
  "todo_id t \<notin> set (map todo_id ts) \<Longrightarrow> todo_map (ts @ [t]) = (todo_map ts)(todo_id t \<mapsto> t)"
  by (induction ts) (auto simp: todo_map_def fun_upd_twist)

lemma update_first_store:
  assumes "ids_distinct st" and "\<forall>t. todo_id (f t) = todo_id t"
    and "(case update_first i f (load_todos st) of
            None \<Rightarrow> (None, st) | Some (ts, t) \<Rightarrow> (Some t, save_todos ts st)) = (r, st')"
  shows "r = map_option f (todo_map (load_todos st) i) \<and>
         todo_map (load_todos st') = (todo_map (load_todos st))(i := r) \<and> ids_distinct st'"
proof -
  have m: "case update_first i f (load_todos st) of
             None \<Rightarrow> todo_map (load_todos st) i = None
           | Some (ts', t') \<Rightarrow> todo_map ts' = (todo_map (load_todos st))(i \<mapsto> t') \<and>
                              map_option f (todo_map (load_todos st) i) = Some t' \<and>
                              map todo_id ts' = map todo_id (load_todos st)"
    using todo_map_update_first [OF assms(1) [unfolded ids_distinct_def] assms(2)] .
  show ?thesis
  proof (cases "update_first i f (load_todos st)")
    case None
    with m assms(1,3) show ?thesis by (simp add: fun_upd_idem)
  next
    case (Some p)
    obtain ts t where p: "p = (ts, t)" by fastforce
    with Some m assms(1,3) show ?thesis by (auto simp: ids_distinct_def)
  qed
qed

lemma toggle_todo_split:
  "(case update_first i (\<lambda>t. t\<lparr>todo_done := \<not> todo_done t\<rparr>) (load_todos st) of
      None \<Rightarrow> (None, st) | Some (ts, t) \<Rightarrow> (Some t, save_todos ts st)) =
   (fst (toggle_todo i st), snd (toggle_todo i st))"
  by (simp add: toggle_todo_def)

lemma update_todo_text_split:
  "(case update_first i (\<lambda>t. t\<lparr>todo_text := text\<rparr>) (load_todos st) of
      None \<Rightarrow> (None, st) | Some (ts, t) \<Rightarrow> (Some t, save_todos ts st)) =
   (fst (update_todo_text i text st), snd (update_todo_text i text st))"
  by (simp add: update_todo_text_def)

lemma update_first_twice:
  assumes "update_first i f ts = Some (ts', t')" and "\<forall>t. todo_id (f t) = todo_id t"
    and "\<forall>t. f (f t) = t"
  shows "\<exists>t''. update_first i f ts' = Some (ts, t'')"
proof -
  from update_first_Some [OF assms(1,2)] obtain xs t0 ys where
    "ts = xs @ t0 # ys" "i \<notin> set (map todo_id xs)" "todo_id t0 = i" "ts' = xs @ f t0 # ys"
    by blast
  moreover have "update_first i f (xs @ t # ys) = Some (xs @ f t # ys, f t)"
    if "i \<notin> set (map todo_id xs)" "todo_id t = i" for t
    using that by (induction xs) auto
  ultimately show ?thesis using assms(2,3) by auto
qed

section \<open>Properties of the todo list\<close>

text \<open>C13: With distinct ids the list is a finite map from id to
  todo, and every operation is the map operation on it: creating with a fresh id adds
  the new todo, toggling and editing replace the todo with that id (and answer it, or
  \<open>None\<close> when there is none), deleting removes the id and answers whether it was there.\<close>

theorem todo_ops_refine_map:
  assumes "ids_distinct st" and "fresh \<notin> set (map todo_id (load_todos st))"
  shows "todo_map (load_todos (snd (create_todo fresh now text st))) =
           (todo_map (load_todos st))(fresh \<mapsto> fst (create_todo fresh now text st)) \<and>
         fst (toggle_todo i st) = map_option (\<lambda>t. t\<lparr>todo_done := \<not> todo_done t\<rparr>) (todo_map (load_todos st) i) \<and>
         todo_map (load_todos (snd (toggle_todo i st))) = (todo_map (load_todos st))(i := fst (toggle_todo i st)) \<and>
         fst (update_todo_text i text st) = map_option (\<lambda>t. t\<lparr>todo_text := text\<rparr>) (todo_map (load_todos st) i) \<and>
         todo_map (load_todos (snd (update_todo_text i text st))) =
           (todo_map (load_todos st))(i := fst (update_todo_text i text st)) \<and>
         fst (delete_todo i st) = (todo_map (load_todos st) i \<noteq> None) \<and>
         todo_map (load_todos (snd (delete_todo i st))) = (todo_map (load_todos st))(i := None)"
proof -
  have c: "todo_map (load_todos (snd (create_todo fresh now text st))) =
           (todo_map (load_todos st))(fresh \<mapsto> fst (create_todo fresh now text st))"
    using assms(2) by (simp add: create_todo_def Let_def todo_map_snoc)
  have t: "fst (toggle_todo i st) = map_option (\<lambda>t. t\<lparr>todo_done := \<not> todo_done t\<rparr>) (todo_map (load_todos st) i) \<and>
           todo_map (load_todos (snd (toggle_todo i st))) = (todo_map (load_todos st))(i := fst (toggle_todo i st))"
    using update_first_store [OF assms(1) _ toggle_todo_split] by simp
  have u: "fst (update_todo_text i text st) = map_option (\<lambda>t. t\<lparr>todo_text := text\<rparr>) (todo_map (load_todos st) i) \<and>
           todo_map (load_todos (snd (update_todo_text i text st))) =
             (todo_map (load_todos st))(i := fst (update_todo_text i text st))"
    using update_first_store [OF assms(1) _ update_todo_text_split] by simp
  have d: "fst (delete_todo i st) = (todo_map (load_todos st) i \<noteq> None) \<and>
           todo_map (load_todos (snd (delete_todo i st))) = (todo_map (load_todos st))(i := None)"
  proof -
    have dom: "todo_map (load_todos st) i = None \<longleftrightarrow> (\<forall>x \<in> set (load_todos st). todo_id x \<noteq> i)"
      using todo_map_dom [of i "load_todos st"] by auto
    then show ?thesis
      by (auto simp: delete_todo_def Let_def length_filter_eq_iff todo_map_filter fun_upd_idem)
  qed
  from c t u d show ?thesis by blast
qed

theorem todo_ops_refine_map_witness:
  "fst (toggle_todo (u ''t1'') \<lparr>todos_file = Todo_list [\<lparr>todo_id = u ''t1'', todo_text = u ''x'', todo_done = False, todo_created = u ''d''\<rparr>], git_commands = []\<rparr>) = Some (\<lparr>todo_id = u ''t1'', todo_text = u ''x'', todo_done = False, todo_created = u ''d''\<rparr>\<lparr>todo_done := True\<rparr>) \<and>
   fst (delete_todo (u ''t1'') \<lparr>todos_file = Todo_list [\<lparr>todo_id = u ''t1'', todo_text = u ''x'', todo_done = False, todo_created = u ''d''\<rparr>], git_commands = []\<rparr>) \<and>
   todo_map (load_todos (snd (delete_todo (u ''t1'') \<lparr>todos_file = Todo_list [\<lparr>todo_id = u ''t1'', todo_text = u ''x'', todo_done = False, todo_created = u ''d''\<rparr>], git_commands = []\<rparr>))) (u ''t1'') = None"
proof -
  have d: "ids_distinct \<lparr>todos_file = Todo_list [\<lparr>todo_id = u ''t1'', todo_text = u ''x'', todo_done = False, todo_created = u ''d''\<rparr>], git_commands = []\<rparr>" by (simp add: ids_distinct_def load_todos_def)
  have f: "u ''t2'' \<notin> set (map todo_id (load_todos \<lparr>todos_file = Todo_list [\<lparr>todo_id = u ''t1'', todo_text = u ''x'', todo_done = False, todo_created = u ''d''\<rparr>], git_commands = []\<rparr>))" by (simp add: load_todos_def u_def)
  show ?thesis
    using todo_ops_refine_map [OF d f, of "u ''d''" "u ''y''" "u ''t1''"]
    by (simp add: todo_map_def load_todos_def)
qed

text \<open>Distinct ids stay distinct: creating a todo with a
  fresh id, toggling, editing and deleting all keep the ids of the stored list distinct.\<close>

theorem todo_ids_distinct_kept:
  assumes "ids_distinct st" and "fresh \<notin> set (map todo_id (load_todos st))"
  shows "ids_distinct (snd (create_todo fresh now text st)) \<and> ids_distinct (snd (toggle_todo i st)) \<and>
         ids_distinct (snd (update_todo_text i text st)) \<and> ids_distinct (snd (delete_todo i st))"
proof -
  have "ids_distinct (snd (toggle_todo i st))"
    using update_first_store [OF assms(1) _ toggle_todo_split] by simp
  moreover have "ids_distinct (snd (update_todo_text i text st))"
    using update_first_store [OF assms(1) _ update_todo_text_split] by simp
  moreover have "ids_distinct (snd (create_todo fresh now text st))"
    using assms by (simp add: create_todo_def Let_def ids_distinct_def)
  moreover have "ids_distinct (snd (delete_todo i st))"
    using assms(1) by (simp add: delete_todo_def Let_def ids_distinct_def distinct_map_filter)
  ultimately show ?thesis by blast
qed

theorem todo_ids_distinct_kept_witness:
  "ids_distinct (snd (create_todo (u ''t2'') (u ''d'') (u ''y'') \<lparr>todos_file = Todo_list [\<lparr>todo_id = u ''t1'', todo_text = u ''x'', todo_done = False, todo_created = u ''d''\<rparr>], git_commands = []\<rparr>))"
proof -
  have d: "ids_distinct \<lparr>todos_file = Todo_list [\<lparr>todo_id = u ''t1'', todo_text = u ''x'', todo_done = False, todo_created = u ''d''\<rparr>], git_commands = []\<rparr>" by (simp add: ids_distinct_def load_todos_def)
  have f: "u ''t2'' \<notin> set (map todo_id (load_todos \<lparr>todos_file = Todo_list [\<lparr>todo_id = u ''t1'', todo_text = u ''x'', todo_done = False, todo_created = u ''d''\<rparr>], git_commands = []\<rparr>))" by (simp add: load_todos_def u_def)
  show ?thesis using todo_ids_distinct_kept [OF d f, of "u ''d''" "u ''y''" "u ''t1''"] by simp
qed

text \<open>Toggling the same id twice gives back the stored list,
  whatever the file held.\<close>

theorem toggle_todo_twice:
  "load_todos (snd (toggle_todo i (snd (toggle_todo i st)))) = load_todos st"
proof (cases "update_first i (\<lambda>t. t\<lparr>todo_done := \<not> todo_done t\<rparr>) (load_todos st)")
  case None
  then show ?thesis by (simp add: toggle_todo_def)
next
  case (Some p)
  obtain ts t where p: "p = (ts, t)" by fastforce
  from update_first_twice [OF Some [unfolded p]] obtain t'' where
    "update_first i (\<lambda>t. t\<lparr>todo_done := \<not> todo_done t\<rparr>) ts = Some (load_todos st, t'')"
    by auto
  with Some p show ?thesis by (simp add: toggle_todo_def)
qed

text \<open>A todos file that does not decode is read as the
  empty list and then overwritten: creating a todo replaces everything the file held by
  the single new todo.\<close>

theorem create_todo_corrupt_file:
  "load_todos (snd (create_todo (u ''a1b2c3d4'') (u ''2024-05-01T10:00:00'') (u ''buy milk'')
     \<lparr>todos_file = Corrupt (u ''[{\"id\": \"0f0f0f0f\", \"text\": \"old\"'') , git_commands = []\<rparr>)) =
   [\<lparr>todo_id = u ''a1b2c3d4'', todo_text = u ''buy milk'', todo_done = False,
     todo_created = u ''2024-05-01T10:00:00''\<rparr>]"
  by (simp add: create_todo_def load_todos_def save_todos_def Let_def)

text \<open>\<open>PUT /api/todos/<id>\<close> answers 500 for a
  non-string text, 400 for a blank one, 404 when no todo has the id (all three with the
  store unchanged and no sync started), and otherwise the updated todo, with the stripped
  text stored and a sync started.\<close>

theorem api_update_todo_answers:
  "api_update_todo i data st =
     (case json_strip (dict_get data (u ''text'') (JStr [])) of
        None \<Rightarrow> (Todo_error [] 500, st, False)
      | Some text \<Rightarrow>
          if text = [] then (Todo_error (u ''Text is required'') 400, st, False)
          else if i \<notin> set (map todo_id (load_todos st)) then (Todo_error (u ''Todo not found'') 404, st, False)
          else (Todo_ok (fst (update_todo_text i text st)), snd (update_todo_text i text st), True))"
  by (auto simp: api_update_todo_def update_todo_text_def update_first_None_iff
           dest: update_first_Some_mem split: option.split prod.split)

end
