(* ===== verification/DiarySync.thy ===== *)
theory DiarySync
  imports Prelude
begin

text \<open>
  The git synchronisation of the diary (src/diary/app.py: \<open>run_git_command\<close>,
  \<open>ensure_remote_configured\<close>, \<open>sync_with_remote\<close>, \<open>background_sync\<close>, and
  \<open>ensure_repo_exists\<close>, \<open>api_sync\<close>, \<open>api_status\<close>). The global
  dict \<open>sync_state\<close> is the record \<open>sync_state\<close>. Git is outside the repository: the
  parameter \<open>git\<close> answers the \<open>n\<close>-th command of a run (counted from 0) with how the
  subprocess ended, so later answers may depend on what earlier commands did. A run
  threads the list of commands issued so far; its length is the next command's index.

  \<open>sync_with_remote\<close> is called from several threads at once (the background loop, and a
  fresh thread after every change made through the API). Its guard reads
  \<open>sync_state['syncing']\<close> and sets it in two separate statements, so the second part of
  the theory models the threads' interleaving as a step relation: each thread is idle,
  past the check, or inside the sync, and the flag is shared.
\<close>

datatype git_run = Git_done int ustr ustr | Git_timeout | Git_raised ustr

type_synonym git = "nat \<Rightarrow> ustr list \<Rightarrow> git_run"

record sync_state =
  last_sync :: "ustr option"
  last_error :: "ustr option"
  syncing :: bool

definition sync_init :: sync_state where
  "sync_init = \<lparr>last_sync = None, last_error = None, syncing = False\<rparr>"

text \<open>\<open>run_git_command\<close>: success is exit code 0, the output is stdout followed by
  stderr; a timeout (30 s) and any other exception are failures with their message.\<close>

definition run_git_command :: "git \<Rightarrow> ustr list \<Rightarrow> ustr list list \<Rightarrow> (bool \<times> ustr) \<times> ustr list list" where
  "run_git_command g args cs =
     ((case g (length cs) args of
         Git_done code out err \<Rightarrow> (code = 0, out @ err)
       | Git_timeout \<Rightarrow> (False, u ''Git command timed out'')
       | Git_raised msg \<Rightarrow> (False, msg)),
      cs @ [args])"

definition ensure_remote_configured :: "git \<Rightarrow> ustr \<Rightarrow> ustr list list \<Rightarrow> ustr list list" where
  "ensure_remote_configured g url cs =
     (if url = [] then cs
      else (case run_git_command g [u ''remote'', u ''get-url'', u ''origin''] cs of
              ((True, out), cs1) \<Rightarrow>
                if py_strip out \<noteq> url
                then snd (run_git_command g [u ''remote'', u ''set-url'', u ''origin'', url] cs1)
                else cs1
            | ((False, _), cs1) \<Rightarrow> snd (run_git_command g [u ''remote'', u ''add'', u ''origin'', url] cs1)))"

text \<open>A failed pull or push is recorded in \<open>last_error\<close> unless the remote could not be
  read.\<close>

definition note_failure :: "ustr \<Rightarrow> bool \<times> ustr \<Rightarrow> sync_state \<Rightarrow> sync_state" where
  "note_failure what r st =
     (case r of (ok, out) \<Rightarrow>
        if \<not> ok \<and> \<not> contains (u ''Could not read from remote'') out
        then st\<lparr>last_error := Some (what @ out)\<rparr> else st)"

text \<open>\<open>sync_with_remote\<close>: the answer \<open>(success, message)\<close>, the new state and the
  commands issued. The \<open>finally\<close> clause resets \<open>syncing\<close> on every path through the
  \<open>try\<close>; the early answer for a sync in progress is before the \<open>try\<close>.
  \<open>run_git_command\<close> catches every exception, so the \<open>except\<close> clause is not reached.\<close>

definition sync_with_remote ::
  "git \<Rightarrow> ustr \<Rightarrow> ustr \<Rightarrow> sync_state \<Rightarrow> ustr list list \<Rightarrow> (bool \<times> ustr) \<times> sync_state \<times> ustr list list" where
  "sync_with_remote g url now st cs =
     (if syncing st then ((False, u ''Sync already in progress''), st, cs)
      else
        (let st1 = st\<lparr>syncing := True\<rparr>;
             cs1 = ensure_remote_configured g url cs
         in case run_git_command g [u ''remote'', u ''-v''] cs1 of
              ((ok, out), cs2) \<Rightarrow>
                if \<not> ok \<or> \<not> contains (u ''origin'') out
                then ((True, u ''No remote configured - local only mode''), st1\<lparr>syncing := False\<rparr>, cs2)
                else
                  (case run_git_command g [u ''pull'', u ''--rebase'', u ''origin'', u ''main''] cs2 of
                     (r1, cs3) \<Rightarrow>
                       (case (if fst r1 then (r1, cs3)
                              else run_git_command g [u ''pull'', u ''--rebase'', u ''origin'', u ''master''] cs3) of
                          (r2, cs4) \<Rightarrow>
                            (let st2 = note_failure (u ''Pull failed: '') r2 st1 in
                             case run_git_command g [u ''push'', u ''origin'', u ''HEAD''] cs4 of
                               (r3, cs5) \<Rightarrow>
                                 (let st3 = note_failure (u ''Push failed: '') r3 st2;
                                      st4 = st3\<lparr>last_sync := Some now, last_error := None\<rparr>
                                  in ((True, u ''Sync complete''), st4\<lparr>syncing := False\<rparr>, cs5)))))))"

subsection \<open>Threads running the sync\<close>

text \<open>Where a thread is in \<open>sync_with_remote\<close>: not in it (or returned), past the test
  \<open>if sync_state['syncing']\<close> (which found it false) but before the assignment
  \<open>sync_state['syncing'] = True\<close>, or inside the \<open>try\<close>.\<close>

datatype sync_pc = Idle | Checked | In_sync

record sync_sys =
  flag :: bool
  pcs :: "sync_pc list"

inductive sync_step :: "sync_sys \<Rightarrow> sync_sys \<Rightarrow> bool" where
  check_free: "i < length (pcs s) \<Longrightarrow> pcs s ! i = Idle \<Longrightarrow> \<not> flag s \<Longrightarrow>
    sync_step s (s\<lparr>pcs := (pcs s)[i := Checked]\<rparr>)"
| check_busy: "i < length (pcs s) \<Longrightarrow> pcs s ! i = Idle \<Longrightarrow> flag s \<Longrightarrow> sync_step s s"
| enter: "i < length (pcs s) \<Longrightarrow> pcs s ! i = Checked \<Longrightarrow>
    sync_step s \<lparr>flag = True, pcs = (pcs s)[i := In_sync]\<rparr>"
| finish: "i < length (pcs s) \<Longrightarrow> pcs s ! i = In_sync \<Longrightarrow>
    sync_step s \<lparr>flag = False, pcs = (pcs s)[i := Idle]\<rparr>"

text \<open>The start: \<open>n\<close> threads, none in the sync, the flag of \<open>sync_state\<close> false.\<close>

definition sys_init :: "nat \<Rightarrow> sync_sys" where
  "sys_init n = \<lparr>flag = False, pcs = replicate n Idle\<rparr>"

inductive reachable_sys :: "nat \<Rightarrow> sync_sys \<Rightarrow> bool" for n where
  start: "reachable_sys n (sys_init n)"
| step: "reachable_sys n s \<Longrightarrow> sync_step s t \<Longrightarrow> reachable_sys n t"

definition all_idle :: "sync_sys \<Rightarrow> bool" where
  "all_idle s \<longleftrightarrow> list_all (\<lambda>p. p = Idle) (pcs s)"

text \<open>A remote that is configured and reachable but rejects every pull and push.\<close>

definition failing_remote :: git where
  "failing_remote n args =
     (if args = [u ''remote'', u ''get-url'', u ''origin''] then Git_done 0 (u ''git@host:diary.git'') []
      else if args = [u ''remote'', u ''-v''] then Git_done 0 (u ''origin git@host:diary.git (push)'') []
      else Git_done 1 [] (u ''error: failed to push some refs''))"

subsection \<open>Start-up and the status routes\<close>

text \<open>What \<open>ensure_repo_exists\<close> looks at on disk: the repository directory, its
  \<open>.git\<close> directory and its \<open>README.md\<close>. \<open>git init\<close> creates \<open>.git\<close> exactly when it
  succeeds.\<close>

record repo_fs =
  repo_dir :: bool
  dot_git :: bool
  readme :: bool

definition repo_fs_wf :: "repo_fs \<Rightarrow> bool" where
  "repo_fs_wf fs \<longleftrightarrow> (dot_git fs \<longrightarrow> repo_dir fs) \<and> (readme fs \<longrightarrow> repo_dir fs)"

definition ensure_repo_exists ::
  "git \<Rightarrow> ustr \<Rightarrow> repo_fs \<Rightarrow> ustr list list \<Rightarrow> bool \<times> repo_fs \<times> ustr list list" where
  "ensure_repo_exists g url fs cs =
     (let created1 = \<not> repo_dir fs;
          fs1 = fs\<lparr>repo_dir := True\<rparr>;
          (created2, fs2, cs2) =
            (if \<not> dot_git fs1 then
               (case run_git_command g [u ''init''] cs of
                  ((ok, _), cs') \<Rightarrow> (True, fs1\<lparr>dot_git := ok\<rparr>, cs'))
             else (created1, fs1, cs));
          (fs3, cs3) =
            (if created2 \<and> \<not> readme fs2 then
               (fs2\<lparr>readme := True\<rparr>,
                snd (run_git_command g [u ''commit'', u ''-m'', u ''Initial commit'']
                  (snd (run_git_command g [u ''add'', u ''README.md''] cs2))))
             else (fs2, cs2))
      in (True, fs3, ensure_remote_configured g url cs3))"

text \<open>\<open>/api/sync\<close> and \<open>/api/status\<close>: the answer of the sync with the state after it,
  and the state.\<close>

definition api_sync ::
  "git \<Rightarrow> ustr \<Rightarrow> ustr \<Rightarrow> sync_state \<Rightarrow> ustr list list \<Rightarrow> (bool \<times> ustr \<times> sync_state) \<times> sync_state \<times> ustr list list" where
  "api_sync g url now st cs =
     (case sync_with_remote g url now st cs of
        ((success, message), st', cs') \<Rightarrow> ((success, message, st'), st', cs'))"

definition api_status :: "sync_state \<Rightarrow> sync_state" where
  "api_status st = st"

section \<open>Facts about one sync\<close>

lemma note_failure_fields [simp]:
  "last_sync (note_failure w r st) = last_sync st" "syncing (note_failure w r st) = syncing st"
  by (simp_all add: note_failure_def split: prod.split)

lemma run_git_command_calls: "snd (run_git_command g args cs) = cs @ [args]"
  by (simp add: run_git_command_def)

lemma reachable_flag_in_sync:
  "reachable_sys n s \<Longrightarrow> flag s \<Longrightarrow> In_sync \<in> set (pcs s)"
proof (induction rule: reachable_sys.induct)
  case start
  then show ?case by (simp add: sys_init_def)
next
  case (step s t)
  from step.hyps(2) step.IH step.prems show ?case
  proof (cases rule: sync_step.cases)
    case (enter i)
    then show ?thesis by (simp add: set_update_memI)
  qed auto
qed

lemma length_filter_update_less:
  "i < length xs \<Longrightarrow> P (xs ! i) \<Longrightarrow> \<not> P x \<Longrightarrow> length (filter P (xs[i := x])) < length (filter P xs)"
proof (induction xs arbitrary: i)
  case (Cons y ys)
  then show ?case by (cases i) auto
qed simp

lemma settle_thread:
  assumes "i < length (pcs s)" and "pcs s ! i \<noteq> Idle"
  shows "sync_step\<^sup>*\<^sup>* s \<lparr>flag = False, pcs = (pcs s)[i := Idle]\<rparr>"
proof (cases "pcs s ! i")
  case Checked
  let ?t = "\<lparr>flag = True, pcs = (pcs s)[i := In_sync]\<rparr>"
  have "sync_step s ?t" using assms(1) Checked by (rule sync_step.enter)
  moreover have "sync_step ?t \<lparr>flag = False, pcs = (pcs ?t)[i := Idle]\<rparr>"
    using assms(1) by (intro sync_step.finish) simp_all
  ultimately show ?thesis by simp
next
  case In_sync
  have "sync_step s \<lparr>flag = False, pcs = (pcs s)[i := Idle]\<rparr>"
    using assms(1) In_sync by (rule sync_step.finish)
  then show ?thesis by simp
qed (use assms(2) in simp)

lemma settle_all:
  "\<exists>s'. sync_step\<^sup>*\<^sup>* s s' \<and> all_idle s' \<and> (flag s' \<longrightarrow> flag s \<and> all_idle s)"
proof (induction "length (filter (\<lambda>p. p \<noteq> Idle) (pcs s))" arbitrary: s rule: less_induct)
  case less
  show ?case
  proof (cases "all_idle s")
    case True
    then show ?thesis by blast
  next
    case False
    then obtain i where i: "i < length (pcs s)" "pcs s ! i \<noteq> Idle"
      by (auto simp: all_idle_def list_all_length)
    let ?t = "\<lparr>flag = False, pcs = (pcs s)[i := Idle]\<rparr>"
    have "length (filter (\<lambda>p. p \<noteq> Idle) (pcs ?t)) < length (filter (\<lambda>p. p \<noteq> Idle) (pcs s))"
      using i by (simp add: length_filter_update_less)
    from less [OF this] obtain s' where
      "sync_step\<^sup>*\<^sup>* ?t s'" "all_idle s'" "flag s' \<longrightarrow> flag ?t \<and> all_idle ?t"
      by blast
    moreover have "sync_step\<^sup>*\<^sup>* s ?t" using settle_thread [OF i] .
    ultimately have "sync_step\<^sup>*\<^sup>* s s'" "all_idle s'" "\<not> flag s'"
      by (auto intro: rtranclp_trans)
    then show ?thesis by blast
  qed
qed

lemma sync_with_remote_busy:
  "syncing st \<Longrightarrow> sync_with_remote g url now st cs = ((False, u ''Sync already in progress''), st, cs)"
  by (simp add: sync_with_remote_def)

section \<open>Properties of the sync\<close>

text \<open>C31: A sync that starts while no sync is flagged always
  answers success, always clears the \<open>syncing\<close> flag, and never records an error: it
  leaves \<open>last_error\<close> as it was (no remote) or clears it.\<close>

theorem sync_with_remote_outcome:
  assumes "\<not> syncing st"
  shows "fst (fst (sync_with_remote g url now st cs)) \<and>
         \<not> syncing (fst (snd (sync_with_remote g url now st cs))) \<and>
         (last_error (fst (snd (sync_with_remote g url now st cs))) = None \<or>
          last_error (fst (snd (sync_with_remote g url now st cs))) = last_error st)"
  using assms by (auto simp: sync_with_remote_def Let_def split: prod.split)

theorem sync_with_remote_outcome_witness:
  "fst (fst (sync_with_remote failing_remote (u ''git@host:diary.git'') (u ''now'') sync_init [])) \<and>
   \<not> syncing (fst (snd (sync_with_remote failing_remote (u ''git@host:diary.git'') (u ''now'') sync_init [])))"
  using sync_with_remote_outcome [of sync_init failing_remote "u ''git@host:diary.git''" "u ''now''" "[]"]
  by (simp add: sync_init_def)

text \<open>Failed pulls and pushes are not reported: the
  error they record is overwritten with \<open>None\<close> before the function returns, so a run
  in which both pulls and the push fail answers \<open>Sync complete\<close> with no error.\<close>

theorem sync_failure_not_reported:
  "sync_with_remote failing_remote (u ''git@host:diary.git'') (u ''2024-05-01T10:00:00'') sync_init [] =
     ((True, u ''Sync complete''),
      \<lparr>last_sync = Some (u ''2024-05-01T10:00:00''), last_error = None, syncing = False\<rparr>,
      [[u ''remote'', u ''get-url'', u ''origin''], [u ''remote'', u ''-v''],
       [u ''pull'', u ''--rebase'', u ''origin'', u ''main''],
       [u ''pull'', u ''--rebase'', u ''origin'', u ''master''],
       [u ''push'', u ''origin'', u ''HEAD'']])"
  by (simp add: sync_with_remote_def ensure_remote_configured_def run_git_command_def failing_remote_def
                note_failure_def sync_init_def pystr_eval)

text \<open>C12: The in-progress guard is not atomic: two threads can both read
  \<open>syncing\<close> as false before either sets it, and then both run the sync (pull, rebase
  and push) at the same time.\<close>

theorem sync_race:
  "reachable_sys 2 \<lparr>flag = True, pcs = [In_sync, In_sync]\<rparr>"
proof -
  have s0: "reachable_sys 2 \<lparr>flag = False, pcs = [Idle, Idle]\<rparr>"
    using reachable_sys.start [of 2] by (simp add: sys_init_def numeral_2_eq_2)
  have s1: "reachable_sys 2 \<lparr>flag = False, pcs = [Checked, Idle]\<rparr>"
    using reachable_sys.step [OF s0 sync_step.check_free [of 0]] by simp
  have s2: "reachable_sys 2 \<lparr>flag = False, pcs = [Checked, Checked]\<rparr>"
    using reachable_sys.step [OF s1 sync_step.check_free [of 1]] by simp
  have s3: "reachable_sys 2 \<lparr>flag = True, pcs = [In_sync, Checked]\<rparr>"
    using reachable_sys.step [OF s2 sync_step.enter [of 0]] by simp
  show ?thesis
    using reachable_sys.step [OF s3 sync_step.enter [of 1]] by simp
qed

text \<open>C32: The flag never stays stuck: from every reachable state
  of any number of threads, the threads can all leave the sync, after which \<open>syncing\<close>
  is false, so a later sync can start.\<close>

theorem sync_flag_released:
  assumes "reachable_sys n s"
  shows "\<exists>s'. sync_step\<^sup>*\<^sup>* s s' \<and> all_idle s' \<and> \<not> flag s'"
proof -
  obtain s' where s': "sync_step\<^sup>*\<^sup>* s s'" "all_idle s'" "flag s' \<longrightarrow> flag s \<and> all_idle s"
    using settle_all by blast
  have "\<not> flag s'"
  proof
    assume "flag s'"
    with s'(3) have "flag s" "all_idle s" by simp_all
    with reachable_flag_in_sync [OF assms] show False by (auto simp: all_idle_def list_all_iff)
  qed
  with s' show ?thesis by blast
qed

theorem sync_flag_released_witness:
  "\<exists>s'. sync_step\<^sup>*\<^sup>* (sys_init 2) s' \<and> all_idle s' \<and> \<not> flag s'"
  by (rule sync_flag_released [OF reachable_sys.start])

section \<open>Start-up\<close>

lemma ensure_repo_exists_existing:
  "repo_dir fs \<Longrightarrow> dot_git fs \<Longrightarrow> ensure_repo_exists g url fs cs = (True, fs, ensure_remote_configured g url cs)"
  by (simp add: ensure_repo_exists_def)

text \<open>\<open>ensure_repo_exists\<close> ignores a failing \<open>git init\<close>: it still adds and commits the
  README (in a directory that is not a repository) and answers True.\<close>

lemma ensure_repo_exists_init_fails:
  "\<not> dot_git fs \<Longrightarrow> \<not> readme fs \<Longrightarrow> g (length cs) [u ''init''] = Git_done 1 out err \<Longrightarrow>
   ensure_repo_exists g url fs cs =
     (True, fs\<lparr>repo_dir := True, readme := True\<rparr>,
      ensure_remote_configured g url (cs @ [[u ''init''], [u ''add'', u ''README.md''], [u ''commit'', u ''-m'', u ''Initial commit'']]))"
  by (simp add: ensure_repo_exists_def run_git_command_def)

text \<open>C33: ensure_repo_exists always answers True and leaves the repository directory in place; on a directory without .git and README.md, when git init succeeds, it runs git init, git add README.md and git commit -m "Initial commit" (in this order, before configuring the remote) and writes README.md; once git init has succeeded, a later start only configures the remote and changes nothing on disk.\<close>

theorem ensure_repo_exists_idempotent:
  assumes wf: "repo_fs_wf fs" and run: "ensure_repo_exists g url fs cs = (ok, fs', cs')"
    and init_ok: "\<not> dot_git fs \<Longrightarrow> \<exists>out err. g (length cs) [u ''init''] = Git_done 0 out err"
  shows "ok \<and> repo_dir fs' \<and> dot_git fs' \<and> (readme fs \<longrightarrow> readme fs') \<and>
         (\<not> dot_git fs \<and> \<not> readme fs \<longrightarrow> readme fs' \<and>
            cs' = ensure_remote_configured g url
                    (cs @ [[u ''init''], [u ''add'', u ''README.md''], [u ''commit'', u ''-m'', u ''Initial commit'']])) \<and>
         (\<forall>g' cs''. ensure_repo_exists g' url fs' cs'' = (True, fs', ensure_remote_configured g' url cs''))"
proof (cases "dot_git fs")
  case True
  then have "repo_dir fs" using wf by (simp add: repo_fs_wf_def)
  then have "ok \<and> fs' = fs \<and> cs' = ensure_remote_configured g url cs"
    using run True ensure_repo_exists_existing [of fs g url cs] by simp
  then show ?thesis using True \<open>repo_dir fs\<close> ensure_repo_exists_existing by blast
next
  case False
  obtain out err where g: "g (length cs) [u ''init''] = Git_done 0 out err" using init_ok [OF False] by blast
  have "ok \<and> repo_dir fs' \<and> dot_git fs' \<and> (readme fs \<longrightarrow> readme fs') \<and>
         (\<not> readme fs \<longrightarrow> readme fs' \<and>
            cs' = ensure_remote_configured g url
                    (cs @ [[u ''init''], [u ''add'', u ''README.md''], [u ''commit'', u ''-m'', u ''Initial commit'']]))"
    using run False g by (auto simp: ensure_repo_exists_def run_git_command_def Let_def split: if_splits)
  moreover have "repo_dir fs' \<and> dot_git fs'" using calculation by blast
  ultimately show ?thesis using ensure_repo_exists_existing by blast
qed


theorem ensure_repo_exists_idempotent_witness:
  "snd (snd (ensure_repo_exists (\<lambda>n args. Git_done 0 [] []) [] \<lparr>repo_dir = False, dot_git = False, readme = False\<rparr> [])) =
     [[u ''init''], [u ''add'', u ''README.md''], [u ''commit'', u ''-m'', u ''Initial commit'']]"
proof -
  let ?g = "\<lambda>n args. Git_done 0 [] []" and ?fs = "\<lparr>repo_dir = False, dot_git = False, readme = False\<rparr>"
  obtain ok fs' cs' where r: "ensure_repo_exists ?g [] ?fs [] = (ok, fs', cs')" by (metis prod_cases3)
  have "repo_fs_wf ?fs" by (simp add: repo_fs_wf_def)
  from ensure_repo_exists_idempotent [OF this r] r show ?thesis
    by (simp add: ensure_remote_configured_def)
qed

end
