(* ===== verification/DiaryEntries.thy ===== *)
theory DiaryEntries
  imports Prelude "HOL-Library.List_Lexorder"
begin

text \<open>
  The diary entries (src/diary/app.py: \<open>get_day_folder_name\<close>, \<open>get_entry_path\<close>,
  \<open>create_entry\<close>, \<open>delete_entry\<close>, \<open>get_all_entries\<close> and the \<open>/api/entries\<close>
  routes). An entry is a Markdown file \<open>YYYY/MM/DD-Day/HHMMSS_xxxxxx.md\<close> in the diary
  repository, holding a metadata header and the text. The repository directory is the
  tree \<open>fs_node\<close> (a file with its text, or a directory with named children); the
  state \<open>diary_repo\<close> is that tree with the git commands issued so far. A \<open>datetime\<close> is
  the record \<open>datetime\<close> (valid fields assumed, as the class guarantees); \<open>strftime\<close>
  uses the C library's formats (\<open>%Y\<close> unpadded, \<open>%a\<close> the English abbreviation), and
  \<open>isoformat\<close> pads the year to four digits and adds microseconds when they are
  non-zero. The six random hex digits of the id and \<open>datetime.fromisoformat\<close> are
  inputs. A failure of the file system (a path component that is a file, a directory
  named like an entry) is \<open>None\<close>.
\<close>

subsection \<open>Dates\<close>

record datetime =
  dt_year :: nat
  dt_month :: nat
  dt_day :: nat
  dt_hour :: nat
  dt_minute :: nat
  dt_second :: nat
  dt_micro :: nat

text \<open>Day of the week, 0 for Sunday (Sakamoto's method on the proleptic Gregorian
  calendar).\<close>

definition weekday :: "datetime \<Rightarrow> nat" where
  "weekday dt =
     (let m = dt_month dt; y = (if m < 3 then dt_year dt - 1 else dt_year dt)
      in (y + y div 4 - y div 100 + y div 400 + [0, 3, 2, 5, 0, 3, 5, 1, 4, 6, 2, 4] ! (m - 1)
          + dt_day dt) mod 7)"

definition day_abbr :: "nat \<Rightarrow> ustr" where
  "day_abbr w = [u ''Sun'', u ''Mon'', u ''Tue'', u ''Wed'', u ''Thu'', u ''Fri'', u ''Sat''] ! w"

text \<open>\<open>get_day_folder_name\<close>: \<open>strftime('%d-%a')\<close>.\<close>

definition get_day_folder_name :: "datetime \<Rightarrow> ustr" where
  "get_day_folder_name dt = pad 2 (dt_day dt) @ [45] @ day_abbr (weekday dt)"

text \<open>\<open>strftime('%Y-%m-%d')\<close>, \<open>strftime('%Y-%m-%d %H:%M:%S')\<close> and
  \<open>strftime('%Y-%m-%d %H:%M')\<close>.\<close>

definition fmt_date :: "datetime \<Rightarrow> ustr" where
  "fmt_date dt = dec (dt_year dt) @ [45] @ pad 2 (dt_month dt) @ [45] @ pad 2 (dt_day dt)"

definition fmt_datetime :: "datetime \<Rightarrow> ustr" where
  "fmt_datetime dt =
     fmt_date dt @ [32] @ pad 2 (dt_hour dt) @ [58] @ pad 2 (dt_minute dt) @ [58] @ pad 2 (dt_second dt)"

definition fmt_minutes :: "datetime \<Rightarrow> ustr" where
  "fmt_minutes dt = fmt_date dt @ [32] @ pad 2 (dt_hour dt) @ [58] @ pad 2 (dt_minute dt)"

definition isoformat :: "datetime \<Rightarrow> ustr" where
  "isoformat dt =
     pad 4 (dt_year dt) @ [45] @ pad 2 (dt_month dt) @ [45] @ pad 2 (dt_day dt) @ [84] @
     pad 2 (dt_hour dt) @ [58] @ pad 2 (dt_minute dt) @ [58] @ pad 2 (dt_second dt) @
     (if dt_micro dt = 0 then [] else [46] @ pad 6 (dt_micro dt))"

subsection \<open>The repository tree\<close>

datatype fs_node = File ustr | Dir "(ustr \<times> fs_node) list"

fun fs_lookup :: "ustr list \<Rightarrow> fs_node \<Rightarrow> fs_node option" where
  "fs_lookup [] n = Some n"
| "fs_lookup (x # p) (Dir es) = (case map_of es x of None \<Rightarrow> None | Some n \<Rightarrow> fs_lookup p n)"
| "fs_lookup (x # p) (File _) = None"

text \<open>\<open>folder.mkdir(parents=True, exist_ok=True)\<close> followed by \<open>write_text\<close>: missing
  directories are created; a file in the way of a directory, or a directory where the
  file goes, is an error. The node argument is \<open>None\<close> where nothing exists yet.\<close>

fun fs_put :: "ustr list \<Rightarrow> ustr \<Rightarrow> fs_node option \<Rightarrow> fs_node option" where
  "fs_put [] c None = Some (File c)"
| "fs_put [] c (Some (File _)) = Some (File c)"
| "fs_put [] c (Some (Dir _)) = None"
| "fs_put (x # p) c None = map_option (\<lambda>n. Dir [(x, n)]) (fs_put p c None)"
| "fs_put (x # p) c (Some (Dir es)) = map_option (\<lambda>n. Dir (AList.update x n es)) (fs_put p c (map_of es x))"
| "fs_put (x # p) c (Some (File _)) = None"

text \<open>\<open>Path.unlink\<close> of an existing file.\<close>

fun fs_remove :: "ustr list \<Rightarrow> fs_node \<Rightarrow> fs_node" where
  "fs_remove [] n = n"
| "fs_remove [x] (Dir es) = Dir (AList.delete x es)"
| "fs_remove (x # y # p) (Dir es) =
     (case map_of es x of None \<Rightarrow> Dir es | Some n \<Rightarrow> Dir (AList.update x (fs_remove (y # p) n) es))"
| "fs_remove (x # p) (File c) = File c"

record diary_repo =
  tree :: fs_node
  commits :: "ustr list list"

text \<open>\<open>str(relative_path)\<close>.\<close>

definition path_str :: "ustr list \<Rightarrow> ustr" where
  "path_str p = py_join [47] p"

subsection \<open>Entry files\<close>

text \<open>The file \<open>create_entry\<close> writes.\<close>

definition entry_text :: "datetime \<Rightarrow> ustr \<Rightarrow> ustr" where
  "entry_text dt content =
     u ''---'' @ [10] @ u ''date: '' @ fmt_datetime dt @ [10] @ u ''---'' @ [10, 10] @ content @ [10]"

text \<open>The metadata loop of \<open>get_all_entries\<close>: the last line starting with
  \<open>date:\<close> gives the date.\<close>

definition meta_date :: "ustr \<Rightarrow> ustr option" where
  "meta_date metadata =
     foldl (\<lambda>d line. if starts_with (u ''date:'') line
                      then Some (py_strip (py_replace (u ''date:'') [] line)) else d)
       None (py_split [10] metadata)"

text \<open>How \<open>get_all_entries\<close> reads one file: date and text.\<close>

definition parse_entry_text :: "ustr \<Rightarrow> ustr option \<times> ustr" where
  "parse_entry_text content =
     (if starts_with (u ''---'') content
      then (let parts = py_split_max (u ''---'') 2 content in
            if 3 \<le> length parts then (meta_date (py_strip (parts ! 1)), py_strip (parts ! 2))
            else (None, content))
      else (None, content))"

record diary_entry =
  entry_id :: ustr
  entry_date :: "ustr option"
  entry_content :: ustr
  entry_year :: ustr
  entry_month :: ustr
  entry_day :: ustr

record day_group =
  group_year :: ustr
  group_month :: ustr
  group_day :: ustr
  group_entries :: "diary_entry list"

text \<open>\<open>create_entry\<close>: the new tree and commands, and the returned dict, or \<open>None\<close> when
  the file cannot be written.\<close>

record created_entry =
  created_id :: ustr
  created_date :: ustr
  created_path :: ustr
  created_content :: ustr

definition entry_path :: "datetime \<Rightarrow> ustr \<Rightarrow> ustr list" where
  "entry_path dt eid =
     [dec (dt_year dt), pad 2 (dt_month dt), get_day_folder_name dt, eid @ u ''.md'']"

definition diary_create_entry :: "ustr \<Rightarrow> datetime \<Rightarrow> ustr \<Rightarrow> diary_repo \<Rightarrow> (created_entry \<times> diary_repo) option" where
  "diary_create_entry hex6 dt content r =
     (let eid = pad 2 (dt_hour dt) @ pad 2 (dt_minute dt) @ pad 2 (dt_second dt) @ [95] @ hex6;
          p = entry_path dt eid
      in map_option
           (\<lambda>t. (\<lparr>created_id = eid, created_date = isoformat dt, created_path = path_str p,
                  created_content = content\<rparr>,
                 \<lparr>tree = t, commits = commits r @
                    [[u ''add'', path_str p], [u ''commit'', u ''-m'', u ''Add entry: '' @ fmt_minutes dt]]\<rparr>))
           (fs_put p (entry_text dt content) (Some (tree r))))"

text \<open>\<open>delete_entry\<close>: \<open>exists()\<close> holds for directories too, and \<open>unlink\<close> on one
  raises (\<open>None\<close>).\<close>

definition diary_delete_entry :: "ustr \<Rightarrow> ustr \<Rightarrow> ustr \<Rightarrow> ustr \<Rightarrow> diary_repo \<Rightarrow> (bool \<times> diary_repo) option" where
  "diary_delete_entry y m d eid r =
     (let p = [y, m, d, eid @ u ''.md''] in
      case fs_lookup p (tree r) of
        None \<Rightarrow> Some (False, r)
      | Some (Dir _) \<Rightarrow> None
      | Some (File _) \<Rightarrow>
          Some (True, \<lparr>tree = fs_remove p (tree r),
                       commits = commits r @ [[u ''add'', path_str p],
                         [u ''commit'', u ''-m'', u ''Delete entry: '' @ y @ [45] @ m @ [45] @ d @ [47] @ eid]]\<rparr>))"

subsection \<open>Listing the entries\<close>

fun children :: "fs_node \<Rightarrow> (ustr \<times> fs_node) list" where
  "children (Dir es) = es"
| "children (File _) = []"

fun is_dir :: "fs_node \<Rightarrow> bool" where
  "is_dir (Dir _) = True"
| "is_dir (File _) = False"

text \<open>\<open>sorted(..., reverse=True)\<close> on the paths of one directory: by name, descending.\<close>

definition sorted_desc :: "(ustr \<times> fs_node) list \<Rightarrow> (ustr \<times> fs_node) list" where
  "sorted_desc es = rev (sort_key fst es)"

text \<open>\<open>str.isdigit\<close> on ASCII names.\<close>

definition py_isdigit :: "ustr \<Rightarrow> bool" where
  "py_isdigit s \<longleftrightarrow> s \<noteq> [] \<and> list_all is_digit s"

text \<open>\<open>Path.glob('*.md')\<close>: the names ending in \<open>.md\<close> (pathlib's \<open>*\<close> also matches a
  leading dot, unlike the shell's).\<close>

definition md_name :: "ustr \<Rightarrow> bool" where
  "md_name n \<longleftrightarrow> starts_with (rev (u ''.md'')) (rev n)"

definition stem :: "ustr \<Rightarrow> ustr" where
  "stem n = take (length n - 3) n"

definition read_entry :: "ustr \<Rightarrow> ustr \<Rightarrow> ustr \<Rightarrow> ustr \<times> fs_node \<Rightarrow> diary_entry option" where
  "read_entry y m d f =
     (case f of
        (n, File c) \<Rightarrow>
          (case parse_entry_text c of (dt, txt) \<Rightarrow>
             Some \<lparr>entry_id = stem n, entry_date = dt, entry_content = txt,
                   entry_year = y, entry_month = m, entry_day = d\<rparr>)
      | (n, Dir _) \<Rightarrow> None)"

definition read_day :: "ustr \<Rightarrow> ustr \<Rightarrow> ustr \<times> fs_node \<Rightarrow> day_group list option" where
  "read_day y m dd =
     (case dd of (d, node) \<Rightarrow>
        if is_dir node \<and> contains [45] d
        then map_option (\<lambda>es. if es = [] then []
                               else [\<lparr>group_year = y, group_month = m, group_day = d, group_entries = es\<rparr>])
               (those (map (read_entry y m d) (sorted_desc (filter (md_name \<circ> fst) (children node)))))
        else Some [])"

definition read_month :: "ustr \<Rightarrow> ustr \<times> fs_node \<Rightarrow> day_group list option" where
  "read_month y mm =
     (case mm of (m, node) \<Rightarrow>
        if is_dir node \<and> py_isdigit m
        then map_option concat (those (map (read_day y m) (sorted_desc (children node))))
        else Some [])"

definition read_year :: "ustr \<times> fs_node \<Rightarrow> day_group list option" where
  "read_year yy =
     (case yy of (y, node) \<Rightarrow>
        if is_dir node \<and> py_isdigit y
        then map_option concat (those (map (read_month y) (sorted_desc (children node))))
        else Some [])"

definition get_all_entries :: "diary_repo \<Rightarrow> day_group list option" where
  "get_all_entries r = map_option concat (those (map read_year (sorted_desc (children (tree r)))))"

subsection \<open>The routes\<close>

datatype entry_response =
    Entry_error ustr nat
  | Entries_listing "day_group list"
  | Entry_made created_entry
  | Entry_deleted
  | Entry_server_error

text \<open>\<open>POST /api/entries\<close>: \<open>now\<close> is the default date; a truthy \<open>date\<close> is parsed
  with \<open>fromisoformat\<close>, whose failure is ignored (the bare \<open>except\<close>). The flag
  says whether a sync thread was started.\<close>

definition api_create_entry ::
  "ustr \<Rightarrow> datetime \<Rightarrow> (json \<Rightarrow> datetime option) \<Rightarrow> json_obj \<Rightarrow> diary_repo \<Rightarrow> entry_response \<times> diary_repo \<times> bool" where
  "api_create_entry hex6 now fromiso data r =
     (case json_strip (dict_get data (u ''content'') (JStr [])) of
        None \<Rightarrow> (Entry_server_error, r, False)
      | Some content \<Rightarrow>
          if content = [] then (Entry_error (u ''Content is required'') 400, r, False)
          else
            (let dt = (if truthy (dict_get data (u ''date'') JNull)
                       then (case fromiso (dict_get data (u ''date'') JNull) of Some d \<Rightarrow> d | None \<Rightarrow> now)
                       else now)
             in case diary_create_entry hex6 dt content r of
                  None \<Rightarrow> (Entry_server_error, r, False)
                | Some (e, r') \<Rightarrow> (Entry_made e, r', True)))"

definition api_delete_entry :: "ustr \<Rightarrow> ustr \<Rightarrow> ustr \<Rightarrow> ustr \<Rightarrow> diary_repo \<Rightarrow> entry_response \<times> diary_repo \<times> bool" where
  "api_delete_entry y m d eid r =
     (case diary_delete_entry y m d eid r of
        None \<Rightarrow> (Entry_server_error, r, False)
      | Some (True, r') \<Rightarrow> (Entry_deleted, r', True)
      | Some (False, r') \<Rightarrow> (Entry_error (u ''Entry not found'') 404, r', False))"

definition api_get_entries :: "diary_repo \<Rightarrow> entry_response" where
  "api_get_entries r = (case get_all_entries r of None \<Rightarrow> Entry_server_error | Some gs \<Rightarrow> Entries_listing gs)"

subsection \<open>Runs of dashes\<close>


section \<open>Facts about entry files and the tree\<close>












lemma set_sorted_desc [simp]: "set (sorted_desc es) = set es"
  by (simp add: sorted_desc_def)















lemma get_all_entries_tree: "get_all_entries (r\<lparr>tree := t\<rparr>) = get_all_entries \<lparr>tree = t, commits = cs\<rparr>"
  by (simp add: get_all_entries_def)


section \<open>Properties of the entries\<close>




end
