(* ===== verification/WboxTest.thy ===== *)
theory WboxTest
  imports Prelude
begin

text \<open>
  The wbox test command generator (src/wbox_test.py). \<open>main\<close> asks seven questions on
  the terminal, builds a shell command from the answers (\<open>build_command\<close>), prints it and,
  when asked to, runs it with \<open>bash -c\<close> and exits with its return code.

  Standard input is the list of lines still to be read: \<open>input(prompt)\<close> writes the prompt
  and consumes the first line, and raises \<open>EOFError\<close> when there is none. What the script
  writes to standard output is a list of \<open>out\<close> events: \<open>Text s\<close> writes \<open>s\<close>, and
  \<open>Help_text k\<close> is \<open>print(PARAMETER_HELP[k])\<close>, the help text of key \<open>k\<close> (the
  box-drawn texts themselves are not reproduced). A computation that reads input is an
  \<open>'a io\<close>: from the remaining lines to what it wrote and either its value with the lines
  left, or \<open>None\<close> when \<open>EOFError\<close> escaped. The prompts loop until an accepted line;
  each iteration consumes a line, so they are structural recursion on the input and
  always end: with an answer, or with \<open>EOFError\<close> when the input runs out first.
\<close>

datatype out = Text ustr | Help_text ustr

type_synonym 'a io = "ustr list \<Rightarrow> out list \<times> ('a \<times> ustr list) option"

definition io_return :: "'a \<Rightarrow> 'a io" where
  "io_return a ins = ([], Some (a, ins))"

definition io_bind :: "'a io \<Rightarrow> ('a \<Rightarrow> 'b io) \<Rightarrow> 'b io" where
  "io_bind m f ins =
     (case m ins of
        (outs1, None) \<Rightarrow> (outs1, None)
      | (outs1, Some (a, ins')) \<Rightarrow> (case f a ins' of (outs2, r) \<Rightarrow> (outs1 @ outs2, r)))"

text \<open>\<open>print(s)\<close>: the text and a newline.\<close>

definition io_print :: "ustr \<Rightarrow> unit io" where
  "io_print s ins = ([Text (s @ [10])], Some ((), ins))"

subsection \<open>Help and the prompts\<close>

definition show_help :: "ustr \<Rightarrow> out list" where
  "show_help param_name =
     (if param_name \<in> set [u ''cheetah_handler'', u ''test_name'', u ''run_command'', u ''break_on_fail'',
                           u ''generate_config'', u ''clear_logs'', u ''clear_containers'']
      then [Help_text param_name]
      else [Text (u ''No help available for '' @ quoted param_name @ [10])])"

text \<open>\<open>answer in ('help', 'h', '?')\<close>, and the reply to it, the same in all three prompts
  (\<open>if help_key:\<close> is Python truthiness: an empty key counts as none).\<close>

definition help_words :: "ustr list" where
  "help_words = [u ''help'', u ''h'', u ''?'']"

definition help_reply :: "ustr option \<Rightarrow> out list" where
  "help_reply help_key =
     (case help_key of
        Some k \<Rightarrow> if k \<noteq> [] then show_help k else [Text (u ''No help available for this prompt.'' @ [10])]
      | None \<Rightarrow> [Text (u ''No help available for this prompt.'' @ [10])])"

fun prompt_yes_no_exclude :: "ustr \<Rightarrow> ustr option \<Rightarrow> ustr io" where
  "prompt_yes_no_exclude question help_key [] =
     ([Text (question @ u '' (yes/no/exclude) [exclude]: '')], None)"
| "prompt_yes_no_exclude question help_key (line # ins) =
     (let p = Text (question @ u '' (yes/no/exclude) [exclude]: ''); answer = py_lower (py_strip line) in
      if answer \<in> set help_words then
        (case prompt_yes_no_exclude question help_key ins of
           (outs, r) \<Rightarrow> (p # help_reply help_key @ outs, r))
      else if answer \<in> set [[], u ''exclude'', u ''e'', u ''x''] then ([p], Some (u ''exclude'', ins))
      else if answer \<in> set [u ''yes'', u ''y''] then ([p], Some (u ''yes'', ins))
      else if answer \<in> set [u ''no'', u ''n''] then ([p], Some (u ''no'', ins))
      else
        (case prompt_yes_no_exclude question help_key ins of
           (outs, r) \<Rightarrow>
             (p # Text (u ''Please enter '' @ quoted (u ''yes'') @ u '', '' @ quoted (u ''no'') @ u '', '' @
                        quoted (u ''exclude'') @ u '', or '' @ quoted (u ''help'') @ [10]) # outs, r)))"

fun prompt_yes_no :: "ustr \<Rightarrow> bool \<Rightarrow> ustr option \<Rightarrow> bool io" where
  "prompt_yes_no question default_val help_key [] =
     ([Text (question @ u '' ('' @ (if default_val then u ''Y/n'' else u ''y/N'') @ u ''): '')], None)"
| "prompt_yes_no question default_val help_key (line # ins) =
     (let p = Text (question @ u '' ('' @ (if default_val then u ''Y/n'' else u ''y/N'') @ u ''): '');
          answer = py_lower (py_strip line) in
      if answer \<in> set help_words then
        (case prompt_yes_no question default_val help_key ins of
           (outs, r) \<Rightarrow> (p # help_reply help_key @ outs, r))
      else if answer = [] then ([p], Some (default_val, ins))
      else if answer \<in> set [u ''yes'', u ''y''] then ([p], Some (True, ins))
      else if answer \<in> set [u ''no'', u ''n''] then ([p], Some (False, ins))
      else
        (case prompt_yes_no question default_val help_key ins of
           (outs, r) \<Rightarrow>
             (p # Text (u ''Please enter '' @ quoted (u ''yes'') @ u '', '' @ quoted (u ''no'') @ u '', or '' @
                        quoted (u ''help'') @ [10]) # outs, r)))"

fun prompt_string :: "ustr \<Rightarrow> bool \<Rightarrow> ustr option \<Rightarrow> ustr io" where
  "prompt_string question required help_key [] = ([Text (question @ u '': '')], None)"
| "prompt_string question required help_key (line # ins) =
     (let p = Text (question @ u '': ''); answer = py_strip line in
      if py_lower answer \<in> set help_words then
        (case prompt_string question required help_key ins of
           (outs, r) \<Rightarrow> (p # help_reply help_key @ outs, r))
      else if answer \<noteq> [] \<or> \<not> required then ([p], Some (answer, ins))
      else
        (case prompt_string question required help_key ins of
           (outs, r) \<Rightarrow> (p # Text (u ''This field is required.'' @ [10]) # outs, r)))"

subsection \<open>The command\<close>

definition build_command :: "ustr \<Rightarrow> bool \<Rightarrow> ustr \<Rightarrow> ustr \<Rightarrow> bool \<Rightarrow> bool \<Rightarrow> ustr" where
  "build_command test_name cheetah_handler break_on_fail generate_config clear_logs clear_containers =
     (let parts = [u ''cd ~/cheetah/src/tests''] @
                  (if clear_containers then [u ''clear_containers''] else []) @
                  (if clear_logs then [u ''clear_logs''] else []);
          make_cmd = u ''make test_wbox.'' @ test_name;
          make_params =
            (if break_on_fail = u ''yes'' then [u ''BP_ON_FAIL=1'']
             else if break_on_fail = u ''no'' then [u ''BP_ON_FAIL=0''] else []) @
            (if cheetah_handler then [u ''CHEETAH_HANDLER=remote''] else []) @
            (if generate_config = u ''yes'' then [u ''GENERATE_CONFIG=1'']
             else if generate_config = u ''no'' then [u ''GENERATE_CONFIG=0''] else []);
          make_cmd = (if make_params \<noteq> [] then make_cmd @ [32] @ py_join [32] make_params else make_cmd)
      in py_join (u '' ; '') (parts @ [make_cmd]))"

subsection \<open>The script\<close>

text \<open>How the script ends: \<open>main\<close> returns (exit status 0), \<open>sys.exit\<close> with the
  command's return code, or the \<open>EOFError\<close> of an \<open>input\<close> escapes (a traceback, exit
  status 1). \<open>bash\<close> is the return code of \<open>bash -c command\<close>, whose own output goes to
  the terminal directly.\<close>

datatype script_end = Returned | Sys_exit int | Uncaught_EOF

definition main_io :: "(ustr \<Rightarrow> int) \<Rightarrow> script_end io" where
  "main_io bash =
     io_bind (io_print (u ''=== WBox Test Command Generator ==='')) (\<lambda>_.
     io_bind (io_print (u ''(Type '' @ quoted (u ''help'') @ u '' at any prompt for detailed information)'' @ [10])) (\<lambda>_.
     io_bind (prompt_yes_no (u ''Include cheetah handler (remote)?'') False (Some (u ''cheetah_handler''))) (\<lambda>cheetah_handler.
     io_bind (prompt_string (u ''Test name (e.g., test_control_traffic)'') True (Some (u ''test_name''))) (\<lambda>test_name.
     io_bind (prompt_yes_no (u ''Run the command? (no = just show)'') False (Some (u ''run_command''))) (\<lambda>run_command.
     io_bind (prompt_yes_no_exclude (u ''Break on fail?'') (Some (u ''break_on_fail''))) (\<lambda>break_on_fail.
     io_bind (prompt_yes_no_exclude (u ''Generate config?'') (Some (u ''generate_config''))) (\<lambda>generate_config.
     io_bind (prompt_yes_no (u ''Clear logs?'') False (Some (u ''clear_logs''))) (\<lambda>clear_logs.
     io_bind (prompt_yes_no (u ''Clear containers?'') False (Some (u ''clear_containers''))) (\<lambda>clear_containers.
     (let command = build_command test_name cheetah_handler break_on_fail generate_config clear_logs clear_containers
      in io_bind (io_print ([10] @ replicate 60 61)) (\<lambda>_.
         io_bind (io_print (u ''Generated command:'')) (\<lambda>_.
         io_bind (io_print (replicate 60 61)) (\<lambda>_.
         io_bind (io_print command) (\<lambda>_.
         io_bind (io_print (replicate 60 61 @ [10])) (\<lambda>_.
         if run_command then
           io_bind (io_print (u ''Running command...'' @ [10])) (\<lambda>_. io_return (Sys_exit (bash command)))
         else
           io_bind (io_print (u ''Command not executed. Copy and paste to run manually.''))
             (\<lambda>_. io_return Returned))))))))))))))))"

definition main :: "(ustr \<Rightarrow> int) \<Rightarrow> ustr list \<Rightarrow> out list \<times> script_end" where
  "main bash stdin =
     (case main_io bash stdin of
        (outs, None) \<Rightarrow> (outs, Uncaught_EOF)
      | (outs, Some (e, _)) \<Rightarrow> (outs, e))"

subsection \<open>What the prompts accept, and what the script reads\<close>

text \<open>Each prompt loop returns on the first line it accepts and ignores (re-asks on) the
  others: \<open>first_accepted accept ins\<close> is that search, with the accepted value and the
  lines after it, or \<open>None\<close> when no line is accepted. The three \<open>_choice\<close> functions say
  which lines each prompt accepts and with which value, as the tables of the source's
  \<open>if\<close> chains.\<close>

definition first_accepted :: "(ustr \<Rightarrow> 'a option) \<Rightarrow> ustr list \<Rightarrow> ('a \<times> ustr list) option" where
  "first_accepted accept ins =
     (case dropWhile (\<lambda>l. accept l = None) ins of
        [] \<Rightarrow> None
      | l # rest \<Rightarrow> map_option (\<lambda>a. (a, rest)) (accept l))"

definition yne_choice :: "ustr \<Rightarrow> ustr option" where
  "yne_choice line =
     (let answer = py_lower (py_strip line) in
      if answer \<in> set help_words then None
      else if answer \<in> set [[], u ''exclude'', u ''e'', u ''x''] then Some (u ''exclude'')
      else if answer \<in> set [u ''yes'', u ''y''] then Some (u ''yes'')
      else if answer \<in> set [u ''no'', u ''n''] then Some (u ''no'')
      else None)"

definition yn_choice :: "bool \<Rightarrow> ustr \<Rightarrow> bool option" where
  "yn_choice default_val line =
     (let answer = py_lower (py_strip line) in
      if answer \<in> set help_words then None
      else if answer = [] then Some default_val
      else if answer \<in> set [u ''yes'', u ''y''] then Some True
      else if answer \<in> set [u ''no'', u ''n''] then Some False
      else None)"

definition string_choice :: "bool \<Rightarrow> ustr \<Rightarrow> ustr option" where
  "string_choice required line =
     (let answer = py_strip line in
      if py_lower answer \<in> set help_words then None
      else if answer \<noteq> [] \<or> \<not> required then Some answer
      else None)"

text \<open>The seven answers \<open>main\<close> reads, in the order it asks: cheetah handler, test
  name, run, break on fail, generate config, clear logs, clear containers.\<close>

definition wbox_answers :: "ustr list \<Rightarrow> (bool \<times> ustr \<times> bool \<times> ustr \<times> ustr \<times> bool \<times> bool) option" where
  "wbox_answers ins =
     Option.bind (first_accepted (yn_choice False) ins) (\<lambda>(cheetah_handler, ins).
     Option.bind (first_accepted (string_choice True) ins) (\<lambda>(test_name, ins).
     Option.bind (first_accepted (yn_choice False) ins) (\<lambda>(run_command, ins).
     Option.bind (first_accepted yne_choice ins) (\<lambda>(break_on_fail, ins).
     Option.bind (first_accepted yne_choice ins) (\<lambda>(generate_config, ins).
     Option.bind (first_accepted (yn_choice False) ins) (\<lambda>(clear_logs, ins).
     map_option (\<lambda>(clear_containers, ins).
         (cheetah_handler, test_name, run_command, break_on_fail, generate_config, clear_logs, clear_containers))
       (first_accepted (yn_choice False) ins)))))))"

text \<open>The make parameters of \<open>build_command\<close> (its local \<open>make_params\<close>), and a reader
  of the generated command: split at \<open> ; \<close>, the first part the \<open>cd\<close>, the last the
  make command split at spaces.\<close>

definition make_params :: "bool \<Rightarrow> ustr \<Rightarrow> ustr \<Rightarrow> ustr list" where
  "make_params cheetah_handler break_on_fail generate_config =
     (if break_on_fail = u ''yes'' then [u ''BP_ON_FAIL=1'']
      else if break_on_fail = u ''no'' then [u ''BP_ON_FAIL=0''] else []) @
     (if cheetah_handler then [u ''CHEETAH_HANDLER=remote''] else []) @
     (if generate_config = u ''yes'' then [u ''GENERATE_CONFIG=1'']
      else if generate_config = u ''no'' then [u ''GENERATE_CONFIG=0''] else [])"

definition param_value :: "ustr \<Rightarrow> ustr list \<Rightarrow> ustr" where
  "param_value key params =
     (if key @ u ''=1'' \<in> set params then u ''yes''
      else if key @ u ''=0'' \<in> set params then u ''no''
      else u ''exclude'')"

definition parse_command :: "ustr \<Rightarrow> (ustr \<times> bool \<times> ustr \<times> ustr \<times> bool \<times> bool) option" where
  "parse_command cmd =
     (case py_split (u '' ; '') cmd of
        [] \<Rightarrow> None
      | cd # rest \<Rightarrow>
          if cd = u ''cd ~/cheetah/src/tests'' \<and> rest \<noteq> [] then
            (case py_split [32] (last rest) of
               m # t # params \<Rightarrow>
                 if m = u ''make'' \<and> starts_with (u ''test_wbox.'') t then
                   Some (drop 10 t, u ''CHEETAH_HANDLER=remote'' \<in> set params,
                         param_value (u ''BP_ON_FAIL'') params, param_value (u ''GENERATE_CONFIG'') params,
                         u ''clear_logs'' \<in> set (butlast rest), u ''clear_containers'' \<in> set (butlast rest))
                 else None
             | _ \<Rightarrow> None)
          else None)"

section \<open>Facts\<close>

lemma first_accepted_Nil [simp]: "first_accepted accept [] = None"
  by (simp add: first_accepted_def)

lemma first_accepted_Cons [simp]:
  "first_accepted accept (l # ins) =
     (case accept l of None \<Rightarrow> first_accepted accept ins | Some a \<Rightarrow> Some (a, ins))"
  by (simp add: first_accepted_def split: option.split)

lemma snd_case_prod_out: "snd (case x of (outs, r) \<Rightarrow> (f outs, r)) = snd x"
  by (cases x) simp

lemma prompt_yes_no_exclude_answer:
  "snd (prompt_yes_no_exclude q k ins) = first_accepted yne_choice ins"
  by (induction ins) (simp_all add: yne_choice_def Let_def snd_case_prod_out)

lemma prompt_yes_no_answer:
  "snd (prompt_yes_no q d k ins) = first_accepted (yn_choice d) ins"
  by (induction ins) (simp_all add: yn_choice_def Let_def snd_case_prod_out)

lemma prompt_string_answer:
  "snd (prompt_string q r k ins) = first_accepted (string_choice r) ins"
  by (induction ins) (auto simp: string_choice_def Let_def snd_case_prod_out)

lemma snd_io_bind:
  "snd (io_bind m f ins) = (case snd (m ins) of None \<Rightarrow> None | Some (a, ins') \<Rightarrow> snd (f a ins'))"
  by (simp add: io_bind_def split: prod.split option.split)

lemma fst_io_bind:
  "fst (io_bind m f ins) = fst (m ins) @ (case snd (m ins) of None \<Rightarrow> [] | Some (a, ins') \<Rightarrow> fst (f a ins'))"
  by (simp add: io_bind_def split: prod.split option.split)

lemma io_print_run [simp]: "io_print s ins = ([Text (s @ [10])], Some ((), ins))"
  by (simp add: io_print_def)

lemma io_return_run [simp]: "io_return a ins = ([], Some (a, ins))"
  by (simp add: io_return_def)

lemma main_parts: "main bash ins = (fst (main_io bash ins), case snd (main_io bash ins) of None \<Rightarrow> Uncaught_EOF | Some (e, _) \<Rightarrow> e)"
  by (simp add: main_def split: prod.split option.split)

lemmas prompt_answers = prompt_yes_no_exclude_answer prompt_yes_no_answer prompt_string_answer

lemma main_outcome:
  "snd (main bash ins) =
     (case wbox_answers ins of
        None \<Rightarrow> Uncaught_EOF
      | Some (ch, n, run, bof, gc, cl, cc) \<Rightarrow>
          if run then Sys_exit (bash (build_command n ch bof gc cl cc)) else Returned)"
  by (simp add: main_parts main_io_def snd_io_bind prompt_answers wbox_answers_def Let_def
           split: option.split prod.split)

lemma wbox_answers_Some:
  assumes "wbox_answers ins = Some (ch, n, run, bof, gc, cl, cc)"
  obtains i1 i2 i3 i4 i5 i6 i7 where
    "first_accepted (yn_choice False) ins = Some (ch, i1)" "first_accepted (string_choice True) i1 = Some (n, i2)"
    "first_accepted (yn_choice False) i2 = Some (run, i3)" "first_accepted yne_choice i3 = Some (bof, i4)"
    "first_accepted yne_choice i4 = Some (gc, i5)" "first_accepted (yn_choice False) i5 = Some (cl, i6)"
    "first_accepted (yn_choice False) i6 = Some (cc, i7)"
  using assms by (auto simp: wbox_answers_def bind_eq_Some_conv)

lemma build_command_join:
  "build_command n ch bof gc cl cc =
     py_join (u '' ; '')
       ([u ''cd ~/cheetah/src/tests''] @ (if cc then [u ''clear_containers''] else []) @
        (if cl then [u ''clear_logs''] else []) @
        [py_join [32] ([u ''make'', u ''test_wbox.'' @ n] @ make_params ch bof gc)])"
proof -
  have mk: "(if ps \<noteq> [] then (u ''make test_wbox.'' @ n) @ [32] @ py_join [32] ps else u ''make test_wbox.'' @ n) =
        py_join [32] ([u ''make'', u ''test_wbox.'' @ n] @ ps)" for ps
    by (cases "ps = []") (simp_all add: py_join_append py_join_Cons u_def)
  show ?thesis
    unfolding build_command_def Let_def make_params_def [symmetric] mk by simp
qed

lemma make_params_pieces: "p \<in> set (make_params ch bof gc) \<Longrightarrow> 32 \<notin> set p \<and> 59 \<notin> set p"
  by (auto simp: make_params_def u_def split: if_splits)

lemma split_build_command:
  assumes "59 \<notin> set n"
  shows "py_split (u '' ; '') (build_command n ch bof gc cl cc) =
     [u ''cd ~/cheetah/src/tests''] @ (if cc then [u ''clear_containers''] else []) @
     (if cl then [u ''clear_logs''] else []) @ [py_join [32] ([u ''make'', u ''test_wbox.'' @ n] @ make_params ch bof gc)]"
proof -
  have "59 \<notin> set (py_join [32] ([u ''make'', u ''test_wbox.'' @ n] @ make_params ch bof gc))"
    using set_py_join [of "[32]" "[u ''make'', u ''test_wbox.'' @ n] @ make_params ch bof gc"]
      make_params_pieces assms by (auto simp: u_def)
  then show ?thesis
    unfolding build_command_join
    by (intro py_split_py_join_avoid [of 59]) (auto simp: u_def)
qed

lemma split_make_command:
  assumes "32 \<notin> set n"
  shows "py_split [32] (py_join [32] ([u ''make'', u ''test_wbox.'' @ n] @ make_params ch bof gc)) =
           [u ''make'', u ''test_wbox.'' @ n] @ make_params ch bof gc"
  using make_params_pieces assms by (intro py_split_py_join) (auto simp: u_def)

lemma make_params_read:
  assumes "bof \<in> {u ''yes'', u ''no'', u ''exclude''}" and "gc \<in> {u ''yes'', u ''no'', u ''exclude''}"
  shows "(u ''CHEETAH_HANDLER=remote'' \<in> set (make_params ch bof gc) \<longleftrightarrow> ch) \<and>
         param_value (u ''BP_ON_FAIL'') (make_params ch bof gc) = bof \<and>
         param_value (u ''GENERATE_CONFIG'') (make_params ch bof gc) = gc"
  using assms by (auto simp: make_params_def param_value_def u_def)

lemma clear_parts_read:
  "(u ''clear_logs'' \<in> set ((if cc then [u ''clear_containers''] else []) @ (if cl then [u ''clear_logs''] else [])) \<longleftrightarrow> cl) \<and>
   (u ''clear_containers'' \<in> set ((if cc then [u ''clear_containers''] else []) @ (if cl then [u ''clear_logs''] else [])) \<longleftrightarrow> cc)"
  by (simp add: u_def)

lemma drop_test_wbox: "drop 10 (u ''test_wbox.'' @ n) = n"
  by (simp add: u_def)

section \<open>Properties of the command generator\<close>

text \<open>C16: The script reads the seven answers in order; if the input runs out
  first it ends with the uncaught \<open>EOFError\<close>. Otherwise it prints the command built from
  the answers, then runs it with \<open>bash -c\<close> and exits with its return code when the
  answer to "Run the command?" was yes, and returns normally when it was no.\<close>

theorem main_run:
  "case wbox_answers ins of
     None \<Rightarrow> snd (main bash ins) = Uncaught_EOF
   | Some (ch, n, run, bof, gc, cl, cc) \<Rightarrow>
       Text (build_command n ch bof gc cl cc @ [10]) \<in> set (fst (main bash ins)) \<and>
       snd (main bash ins) = (if run then Sys_exit (bash (build_command n ch bof gc cl cc)) else Returned)"
proof (cases "wbox_answers ins")
  case None
  then show ?thesis using main_outcome [of bash ins] by simp
next
  case (Some a)
  then obtain ch n run bof gc cl cc where a: "a = (ch, n, run, bof, gc, cl, cc)"
    by (cases a) auto
  with Some obtain i1 i2 i3 i4 i5 i6 i7 where
    "first_accepted (yn_choice False) ins = Some (ch, i1)" "first_accepted (string_choice True) i1 = Some (n, i2)"
    "first_accepted (yn_choice False) i2 = Some (run, i3)" "first_accepted yne_choice i3 = Some (bof, i4)"
    "first_accepted yne_choice i4 = Some (gc, i5)" "first_accepted (yn_choice False) i5 = Some (cl, i6)"
    "first_accepted (yn_choice False) i6 = Some (cc, i7)"
    by (auto elim: wbox_answers_Some)
  then have "Text (build_command n ch bof gc cl cc @ [10]) \<in> set (fst (main bash ins))"
    by (simp add: main_parts main_io_def fst_io_bind snd_io_bind prompt_answers Let_def)
  with Some a show ?thesis using main_outcome [of bash ins] by simp
qed

theorem main_run_witness:
  "Text (u ''cd ~/cheetah/src/tests ; make test_wbox.t BP_ON_FAIL=1'' @ [10])
     \<in> set (fst (main (\<lambda>_. 2) [u ''?'', [], u ''t'', u ''yes'', u ''y'', [], u ''no'', u ''no''])) \<and>
   snd (main (\<lambda>_. 2) [u ''?'', [], u ''t'', u ''yes'', u ''y'', [], u ''no'', u ''no'']) = Sys_exit 2"
proof -
  have "wbox_answers [u ''?'', [], u ''t'', u ''yes'', u ''y'', [], u ''no'', u ''no''] =
          Some (False, u ''t'', True, u ''yes'', u ''exclude'', False, False)"
    by (simp add: wbox_answers_def yn_choice_def string_choice_def yne_choice_def help_words_def pystr_eval)
  moreover have "build_command (u ''t'') False (u ''yes'') (u ''exclude'') False False =
                   u ''cd ~/cheetah/src/tests ; make test_wbox.t BP_ON_FAIL=1''"
    by (simp add: build_command_def pystr_eval)
  ultimately show ?thesis
    using main_run [of "\<lambda>_. 2" "[u ''?'', [], u ''t'', u ''yes'', u ''y'', [], u ''no'', u ''no'']"] by simp
qed

text \<open>C17: The generated command determines the answers: for a
  test name without spaces and semicolons and break-on-fail and generate-config answers
  among yes, no and exclude, reading the command back (split at \<open> ; \<close>, the make
  command at spaces) gives back the test name and all five options.\<close>

theorem build_command_roundtrip:
  assumes "32 \<notin> set n" and "59 \<notin> set n"
    and "bof \<in> {u ''yes'', u ''no'', u ''exclude''}" and "gc \<in> {u ''yes'', u ''no'', u ''exclude''}"
  shows "parse_command (build_command n ch bof gc cl cc) = Some (n, ch, bof, gc, cl, cc)"
proof -
  let ?clears = "(if cc then [u ''clear_containers''] else []) @ (if cl then [u ''clear_logs''] else [])"
  let ?mk = "py_join [32] ([u ''make'', u ''test_wbox.'' @ n] @ make_params ch bof gc)"
  have split: "py_split (u '' ; '') (build_command n ch bof gc cl cc) = u ''cd ~/cheetah/src/tests'' # (?clears @ [?mk])"
    using split_build_command [OF assms(2)] by simp
  have words: "py_split [32] ?mk = u ''make'' # (u ''test_wbox.'' @ n) # make_params ch bof gc"
    using split_make_command [OF assms(1)] by simp
  show ?thesis
    unfolding parse_command_def split list.case last_snoc butlast_snoc words
    using make_params_read [OF assms(3,4)] clear_parts_read [of cc cl]
    by (simp add: starts_with_append drop_test_wbox del: drop_append)
qed

theorem build_command_roundtrip_witness:
  "32 \<notin> set (u ''test_x'') \<and> 59 \<notin> set (u ''test_x'') \<and>
   u ''yes'' \<in> {u ''yes'', u ''no'', u ''exclude''} \<and> u ''exclude'' \<in> {u ''yes'', u ''no'', u ''exclude''} \<and>
   parse_command (build_command (u ''test_x'') True (u ''yes'') (u ''exclude'') False True) =
     Some (u ''test_x'', True, u ''yes'', u ''exclude'', False, True)"
proof -
  have h: "32 \<notin> set (u ''test_x'')" "59 \<notin> set (u ''test_x'')"
    "u ''yes'' \<in> {u ''yes'', u ''no'', u ''exclude''}" "u ''exclude'' \<in> {u ''yes'', u ''no'', u ''exclude''}"
    by (simp_all add: u_def)
  show ?thesis using build_command_roundtrip [OF h] h by simp
qed

text \<open>The test name is put into the shell command
  unquoted and unchecked, so a name containing \<open> ; \<close> adds commands: answering the
  test name \<open>x ; reboot\<close> and yes to "Run the command?" makes the script run
  \<open>reboot\<close> through \<open>bash -c\<close> after the make.\<close>

theorem wbox_test_name_injection:
  "snd (main bash [[], u ''x ; reboot'', u ''y'', [], [], [], []]) =
     Sys_exit (bash (u ''cd ~/cheetah/src/tests ; make test_wbox.x ; reboot'')) \<and>
   py_split (u '' ; '') (u ''cd ~/cheetah/src/tests ; make test_wbox.x ; reboot'') =
     [u ''cd ~/cheetah/src/tests'', u ''make test_wbox.x'', u ''reboot'']"
  by (simp add: main_def main_io_def io_bind_def build_command_def help_words_def Let_def pystr_eval)


theorem wbox_test_name_injection_witness:
  "snd (main (\<lambda>c. if c = u ''cd ~/cheetah/src/tests ; make test_wbox.x ; reboot'' then 0 else 1)
          [[], u ''x ; reboot'', u ''y'', [], [], [], []]) = Sys_exit 0"
  using wbox_test_name_injection [of "\<lambda>c. if c = u ''cd ~/cheetah/src/tests ; make test_wbox.x ; reboot'' then 0 else 1"]
  by simp

end
