(* ===== verification/MachineClean.thy ===== *)
theory MachineClean
  imports Prelude
begin

text \<open>
  The machine cleaner (src/cheetah/machine_clean.py). \<open>MachineCleanup\<close> opens an SSH
  session to a lab machine, measures its disks (\<open>df\<close>), runs \<open>git clean\<close> in the
  cheetah checkout, removes all Docker containers and images, measures again, and then
  cleans the nested machine named by \<open>$REMOTE_MACHINE\<close> through \<open>sshpass ssh\<close>.

  The machine is an oracle \<open>ssh\<close>: the \<open>n\<close>-th \<open>exec_command\<close> of the session (counted
  from 0) with its command line gives the exit code, stdout and stderr (decoded), or
  \<open>None\<close> when paramiko raises. The object is the record \<open>machine_cleanup\<close>; it also keeps
  the commands sent, in order, and the state of the client. A method is a \<open>'a mc\<close>:
  from the object to its value, or \<open>None\<close> when an exception escapes, with the object
  after it. What the script prints (\<open>log\<close>, \<open>log_verbose\<close> and the summary) is not
  modelled; the commands, the values the methods return and the exit status are.
\<close>

type_synonym ssh = "nat \<Rightarrow> ustr \<Rightarrow> (int \<times> ustr \<times> ustr) option"

datatype client_state = No_client | Unconnected | Connected | Closed

record machine_cleanup =
  mc_hostname :: ustr
  mc_password :: ustr
  mc_username :: ustr
  mc_verbose :: bool
  client :: client_state
  issued :: "ustr list"

definition cleanup_init :: "ustr \<Rightarrow> ustr \<Rightarrow> ustr \<Rightarrow> bool \<Rightarrow> machine_cleanup" where
  "cleanup_init hostname password username verbose =
     \<lparr>mc_hostname = hostname, mc_password = password, mc_username = username, mc_verbose = verbose,
      client = No_client, issued = []\<rparr>"

type_synonym 'a mc = "machine_cleanup \<Rightarrow> 'a option \<times> machine_cleanup"

definition mc_return :: "'a \<Rightarrow> 'a mc" where
  "mc_return a st = (Some a, st)"

definition mc_bind :: "'a mc \<Rightarrow> ('a \<Rightarrow> 'b mc) \<Rightarrow> 'b mc" where
  "mc_bind m f st = (case m st of (None, st') \<Rightarrow> (None, st') | (Some a, st') \<Rightarrow> f a st')"

subsection \<open>Running a command\<close>

text \<open>\<open>run_command\<close>: with \<open>use_sudo\<close> the command is wrapped in
  \<open>echo '<password>' | sudo -S\<close>; the outputs are stripped, and with \<open>use_sudo\<close> the stdout
  lines holding \<open>[sudo]\<close> or the password are dropped.\<close>

definition sudo_command :: "ustr \<Rightarrow> ustr \<Rightarrow> ustr" where
  "sudo_command password command = u ''echo '' @ quoted password @ u '' | sudo -S '' @ command"

definition sudo_filter :: "ustr \<Rightarrow> ustr \<Rightarrow> ustr" where
  "sudo_filter password stdout_text =
     py_join [10] (filter (\<lambda>line. \<not> contains (u ''[sudo]'') line \<and> \<not> contains password line)
                    (py_split [10] stdout_text))"

definition run_command :: "ssh \<Rightarrow> ustr \<Rightarrow> bool \<Rightarrow> (int \<times> ustr \<times> ustr) mc" where
  "run_command ssh command use_sudo st =
     (let command = (if use_sudo then sudo_command (mc_password st) command else command);
          st' = st\<lparr>issued := issued st @ [command]\<rparr>
      in case ssh (length (issued st)) command of
           None \<Rightarrow> (None, st')
         | Some (exit_code, out, err) \<Rightarrow>
             (let stdout_text = py_strip out; stderr_text = py_strip err;
                  stdout_text = (if use_sudo \<and> stdout_text \<noteq> [] then sudo_filter (mc_password st) stdout_text
                                 else stdout_text)
              in (Some (exit_code, stdout_text, stderr_text), st')))"

subsection \<open>Verbose logging\<close>

text \<open>Verbose logging. \<open>log_command\<close> and \<open>log_output\<close> print only in verbose mode; each
  is written here as the list of lines it prints. Both mask the password with
  \<open>str.replace(self.password, '****')\<close>.\<close>

definition mask_password :: "ustr \<Rightarrow> ustr \<Rightarrow> ustr" where
  "mask_password password s = py_replace password (u ''****'') s"

definition log_prefix :: "nat \<Rightarrow> ustr" where
  "log_prefix indent = concat (replicate indent (u ''  ''))"

definition log_command :: "bool \<Rightarrow> ustr \<Rightarrow> ustr \<Rightarrow> nat \<Rightarrow> ustr list" where
  "log_command verbose password command indent =
     (if verbose then [log_prefix indent @ [9889] @ u '' [CMD] '' @ mask_password password command] else [])"

definition py_str_int :: "int \<Rightarrow> ustr" where
  "py_str_int i = (if i < 0 then 45 # dec (nat (- i)) else dec (nat i))"

definition log_stream :: "ustr \<Rightarrow> nat \<Rightarrow> nat \<Rightarrow> ustr \<Rightarrow> ustr \<Rightarrow> ustr list" where
  "log_stream password indent header_icon header text =
     (if text = [] then []
      else (log_prefix indent @ [header_icon] @ header) #
           map (\<lambda>line. log_prefix indent @ u ''   '' @ mask_password password line) (py_split [10] text))"

definition log_output :: "bool \<Rightarrow> ustr \<Rightarrow> ustr \<Rightarrow> ustr \<Rightarrow> int \<Rightarrow> nat \<Rightarrow> ustr list" where
  "log_output verbose password stdout stderr exit_code indent =
     (if verbose then
        [log_prefix indent @ [128202] @ u '' [EXIT CODE] '' @ py_str_int exit_code] @
        log_stream password indent 128228 (u '' [STDOUT]'') stdout @
        log_stream password indent 128229 (u '' [STDERR]'') stderr @
        [log_prefix indent @ replicate 50 9472]
      else [])"

subsection \<open>Disk usage\<close>

record partition =
  filesystem :: ustr
  part_total :: ustr
  part_used :: ustr
  part_available :: ustr
  part_percent :: ustr
  mountpoint :: ustr

definition unknown_partition :: partition where
  "unknown_partition =
     \<lparr>filesystem = u ''?'', part_total = u ''?'', part_used = u ''?'', part_available = u ''?'',
      part_percent = u ''?'', mountpoint = u ''?''\<rparr>"

definition df_row :: "ustr list \<Rightarrow> partition" where
  "df_row parts =
     \<lparr>filesystem = parts ! 0, part_total = parts ! 1, part_used = parts ! 2, part_available = parts ! 3,
      part_percent = parts ! 4, mountpoint = parts ! 5\<rparr>"

definition df_command :: ustr where
  "df_command = u ''df -h -x tmpfs -x devtmpfs -x squashfs -x overlay 2>/dev/null || df -h''"

text \<open>The parsing half of \<open>get_disk_usage\<close>: the first line is skipped as the header.\<close>

definition disk_usage_rows :: "ustr \<Rightarrow> partition list" where
  "disk_usage_rows output =
     (let partitions = map df_row (filter (\<lambda>parts. 6 \<le> length parts)
                                     (map py_split_ws (drop 1 (py_split [10] (py_strip output)))))
      in if partitions \<noteq> [] then partitions else [unknown_partition])"

definition get_disk_usage :: "ssh \<Rightarrow> partition list mc" where
  "get_disk_usage ssh =
     mc_bind (run_command ssh df_command False) (\<lambda>(_, output, _). mc_return (disk_usage_rows output))"

text \<open>\<open>_parse_df_output\<close>: header and blank lines are recognised instead.\<close>

definition parse_df_output :: "ustr \<Rightarrow> partition list" where
  "parse_df_output output =
     (let partitions =
            map df_row (filter (\<lambda>parts. 6 \<le> length parts)
              (map py_split_ws (filter (\<lambda>line. \<not> (starts_with (u ''Filesystem'') line \<or> py_strip line = []))
                                  (py_split [10] (py_strip output)))))
      in if partitions \<noteq> [] then partitions else [unknown_partition])"

definition get_docker_space :: "ssh \<Rightarrow> ustr mc" where
  "get_docker_space ssh =
     mc_bind (run_command ssh (u ''docker system df 2>/dev/null | head -5'') False)
       (\<lambda>(_, output, _). mc_return (if output \<noteq> [] then output else u ''Docker not available''))"

subsection \<open>Cleaning\<close>

definition CHEETAH_PATH :: ustr where
  "CHEETAH_PATH = u ''/home/dn/cheetah''"

definition git_clean_command :: ustr where
  "git_clean_command = u ''bash -c '' @ quoted (u ''cd '' @ CHEETAH_PATH @ u '' && git clean -xdf'')"

definition git_clean :: "ssh \<Rightarrow> bool mc" where
  "git_clean ssh =
     mc_bind (run_command ssh (u ''test -d '' @ CHEETAH_PATH) False) (\<lambda>(exit_code, _, _).
       if exit_code \<noteq> 0 then mc_return True
       else mc_bind (run_command ssh git_clean_command True)
              (\<lambda>(exit_code, output, stderr). mc_return (exit_code = 0)))"

text \<open>Commands run one after the other, their results unused.\<close>

fun run_all :: "ssh \<Rightarrow> ustr list \<Rightarrow> unit mc" where
  "run_all ssh [] = mc_return ()"
| "run_all ssh (c # cs) = mc_bind (run_command ssh c False) (\<lambda>_. run_all ssh cs)"

text \<open>Stop, remove, remove images, prune: the four commands of \<open>docker_cleanup\<close>.\<close>

definition docker_cleanup_commands :: "ustr list" where
  "docker_cleanup_commands =
     [u ''docker stop $(docker ps -aq) 2>/dev/null || true'', u ''docker rm -f $(docker ps -aq) 2>/dev/null || true'',
      u ''docker rmi -f $(docker images -aq) 2>/dev/null || true'',
      u ''docker system prune -af --volumes 2>/dev/null || true'']"

definition docker_cleanup :: "ssh \<Rightarrow> bool mc" where
  "docker_cleanup ssh st =
     mc_bind (run_all ssh
               ((if mc_verbose st then [u ''docker ps -a 2>/dev/null || true'', u ''docker images 2>/dev/null || true'',
                                        u ''docker system df 2>/dev/null || true''] else []) @
                docker_cleanup_commands @
                (if mc_verbose st then [u ''docker system df 2>/dev/null || true''] else [])))
       (\<lambda>_. mc_return True) st"

subsection \<open>The nested machine\<close>

text \<open>\<open>re.search(r'REMOTE_MACHINE=(["\']?)([^"\'#\s]+)\1', output).group(2)\<close>. The value
  class excludes both quotes, so the greedy group never backtracks usefully: after an
  opening quote the match needs the maximal run followed by the same quote, and without
  one the maximal non-empty run matches. A failed attempt moves the search one code
  point on.\<close>

definition rm_value_char :: "nat \<Rightarrow> bool" where
  "rm_value_char c \<longleftrightarrow> c \<noteq> 34 \<and> c \<noteq> 39 \<and> c \<noteq> 35 \<and> \<not> is_space c"

definition rm_match_at :: "ustr \<Rightarrow> ustr option" where
  "rm_match_at s =
     (if starts_with (u ''REMOTE_MACHINE='') s then
        (case drop 15 s of
           [] \<Rightarrow> None
         | c # r \<Rightarrow>
             if c = 34 \<or> c = 39 then
               (let v = takeWhile rm_value_char r
                in if v \<noteq> [] \<and> take 1 (drop (length v) r) = [c] then Some v else None)
             else
               (let v = takeWhile rm_value_char (c # r) in if v \<noteq> [] then Some v else None))
      else None)"

fun remote_machine_search :: "ustr \<Rightarrow> ustr option" where
  "remote_machine_search [] = None"
| "remote_machine_search (c # cs) =
     (case rm_match_at (c # cs) of Some v \<Rightarrow> Some v | None \<Rightarrow> remote_machine_search cs)"

definition remote_var_methods :: "(ustr \<times> ustr) list" where
  "remote_var_methods =
     [(u ''login shell'', u ''bash -l -c '' @ quoted (u ''echo $REMOTE_MACHINE'')),
      (u ''interactive login shell'', u ''bash -li -c '' @ quoted (u ''echo $REMOTE_MACHINE'') @ u '' 2>/dev/null''),
      (u ''source .bashrc'', u ''bash -c '' @ quoted (u ''source ~/.bashrc 2>/dev/null; echo $REMOTE_MACHINE'')),
      (u ''source .profile'', u ''bash -c '' @ quoted (u ''source ~/.profile 2>/dev/null; echo $REMOTE_MACHINE'')),
      (u ''grep /etc/environment'',
       u ''grep -oP '' @ quoted (u ''REMOTE_MACHINE='' @ [92] @ u ''K.*'') @ u '' /etc/environment 2>/dev/null''),
      (u ''source profile.d'',
       u ''bash -c '' @ quoted (u ''for f in /etc/profile.d/*.sh; do source $f 2>/dev/null; done; echo $REMOTE_MACHINE''))]"

text \<open>The \<open>for\<close> loop over the methods: the first stripped non-empty output.\<close>

fun first_output :: "ssh \<Rightarrow> (ustr \<times> ustr) list \<Rightarrow> ustr option mc" where
  "first_output ssh [] = mc_return None"
| "first_output ssh ((method_name, cmd) # methods) =
     mc_bind (run_command ssh cmd False) (\<lambda>(_, output, _).
       if py_strip output \<noteq> [] then mc_return (Some (py_strip output)) else first_output ssh methods)"

definition grep_remote_machine :: ustr where
  "grep_remote_machine =
     u ''grep -h '' @ quoted (u ''REMOTE_MACHINE='') @
     u '' ~/.bashrc ~/.profile ~/.bash_profile /etc/environment /etc/profile 2>/dev/null | head -1''"

definition get_remote_machine_var :: "ssh \<Rightarrow> ustr option mc" where
  "get_remote_machine_var ssh =
     mc_bind (first_output ssh remote_var_methods) (\<lambda>found.
       case found of
         Some result \<Rightarrow> mc_return (Some result)
       | None \<Rightarrow>
           mc_bind (run_command ssh grep_remote_machine False) (\<lambda>(_, output, _).
             if output \<noteq> [] \<and> contains (u ''REMOTE_MACHINE='') output
             then mc_return (remote_machine_search output) else mc_return None))"

text \<open>A command for the nested machine, run on the main one through \<open>sshpass\<close>.\<close>

definition nested_command :: "machine_cleanup \<Rightarrow> ustr \<Rightarrow> ustr \<Rightarrow> ustr" where
  "nested_command st remote_machine cmd =
     u ''sshpass -p '' @ quoted (mc_password st) @ u '' ssh -p 22 -o StrictHostKeyChecking=no '' @
     mc_username st @ [64] @ remote_machine @ [32] @ quoted cmd"

record host_result =
  result_host :: ustr
  disk_before :: "partition list option"
  disk_after :: "partition list option"
  host_ok :: bool

definition docker_commands :: "(ustr \<times> ustr) list" where
  "docker_commands =
     [(u ''Stopping containers'', u ''docker stop $(docker ps -aq) 2>/dev/null || true''),
      (u ''Removing containers'', u ''docker rm -f $(docker ps -aq) 2>/dev/null || true''),
      (u ''Removing images'', u ''docker rmi -f $(docker images -aq) 2>/dev/null || true''),
      (u ''System prune'', u ''docker system prune -af --volumes 2>/dev/null || true'')]"

definition cleanup_nested_machine :: "ssh \<Rightarrow> ustr \<Rightarrow> host_result mc" where
  "cleanup_nested_machine ssh remote_machine st =
     (let result = \<lparr>result_host = remote_machine, disk_before = None, disk_after = None, host_ok = False\<rparr>
      in mc_bind (run_command ssh (nested_command st remote_machine df_command) False) (\<lambda>(_, output, _).
           let result = (if output \<noteq> [] then result\<lparr>disk_before := Some (parse_df_output output)\<rparr> else result)
           in mc_bind (run_all ssh (map (\<lambda>(desc, cmd). nested_command st remote_machine cmd) docker_commands)) (\<lambda>_.
                mc_bind (run_command ssh (nested_command st remote_machine df_command) False) (\<lambda>(_, output, _).
                  let result = (if output \<noteq> [] then result\<lparr>disk_after := Some (parse_df_output output)\<rparr> else result)
                  in mc_return (result\<lparr>host_ok := True\<rparr>)))) st)"

subsection \<open>The whole run\<close>

text \<open>How \<open>client.connect\<close> ends: connected, or one of the three caught exceptions.\<close>

datatype connect_outcome = Connect_ok | Auth_failed | Ssh_failed | Connect_failed

definition connect :: "connect_outcome \<Rightarrow> bool mc" where
  "connect conn st =
     (if conn = Connect_ok then (Some True, st\<lparr>client := Connected\<rparr>)
      else (Some False, st\<lparr>client := Unconnected\<rparr>))"

definition disconnect :: "machine_cleanup \<Rightarrow> machine_cleanup" where
  "disconnect st = (if client st \<noteq> No_client then st\<lparr>client := Closed\<rparr> else st)"

record cleanup_results =
  main_machine :: host_result
  nested_machine :: "host_result option"

text \<open>The body of the \<open>try\<close> in \<open>run_full_cleanup\<close>.\<close>

definition cleanup_body :: "ssh \<Rightarrow> cleanup_results \<Rightarrow> cleanup_results mc" where
  "cleanup_body ssh results =
     mc_bind (get_disk_usage ssh) (\<lambda>before.
     mc_bind (git_clean ssh) (\<lambda>_.
     mc_bind (docker_cleanup ssh) (\<lambda>_.
     mc_bind (get_disk_usage ssh) (\<lambda>after.
     let results = results\<lparr>main_machine := (main_machine results)\<lparr>disk_before := Some before,
                                                                    disk_after := Some after, host_ok := True\<rparr>\<rparr>
     in mc_bind (get_remote_machine_var ssh) (\<lambda>remote_machine.
          case remote_machine of
            Some r \<Rightarrow> if r \<noteq> [] then mc_bind (cleanup_nested_machine ssh r)
                                         (\<lambda>nested. mc_return (results\<lparr>nested_machine := Some nested\<rparr>))
                      else mc_return results
          | None \<Rightarrow> mc_return results)))))"

definition run_full_cleanup :: "ssh \<Rightarrow> connect_outcome \<Rightarrow> cleanup_results mc" where
  "run_full_cleanup ssh conn st =
     (let results = \<lparr>main_machine = \<lparr>result_host = mc_hostname st, disk_before = None, disk_after = None,
                                      host_ok = False\<rparr>,
                     nested_machine = None\<rparr>
      in case connect conn st of
           (Some False, st1) \<Rightarrow> (Some results, st1)
         | (_, st1) \<Rightarrow> (case cleanup_body ssh results st1 of (r, st2) \<Rightarrow> (r, disconnect st2)))"

text \<open>How the script ends: \<open>sys.exit(0)\<close> or \<open>sys.exit(1)\<close> after the summary, or an
  exception escapes \<open>main\<close> (a traceback, exit status 1).\<close>

datatype clean_exit = Clean_exit int | Clean_uncaught

definition clean_main ::
  "ssh \<Rightarrow> connect_outcome \<Rightarrow> ustr \<Rightarrow> ustr \<Rightarrow> ustr \<Rightarrow> bool \<Rightarrow> clean_exit \<times> machine_cleanup" where
  "clean_main ssh conn hostname password username verbose =
     (case run_full_cleanup ssh conn (cleanup_init hostname password username verbose) of
        (None, st) \<Rightarrow> (Clean_uncaught, st)
      | (Some results, st) \<Rightarrow> (if host_ok (main_machine results) then Clean_exit 0 else Clean_exit 1, st))"

subsection \<open>What the proofs speak about\<close>

text \<open>A method that only sends commands: whatever it returns, the object afterwards is
  the object before with some commands appended to \<open>issued\<close> (the client, the
  password and the flags are untouched).\<close>

definition only_sends :: "'a mc \<Rightarrow> bool" where
  "only_sends m \<longleftrightarrow> (\<forall>st. \<exists>cs. snd (m st) = st\<lparr>issued := issued st @ cs\<rparr>)"

text \<open>A partition row as the parsers promise it: six non-empty fields without
  whitespace.\<close>

definition partition_wf :: "partition \<Rightarrow> bool" where
  "partition_wf p \<longleftrightarrow>
     list_all (\<lambda>f. f \<noteq> [] \<and> list_all (\<lambda>c. \<not> is_space c) f)
       [filesystem p, part_total p, part_used p, part_available p, part_percent p, mountpoint p]"

section \<open>Facts\<close>

lemma only_sends_return [intro]: "only_sends (mc_return a)"
  by (auto simp: only_sends_def mc_return_def intro: exI [of _ "[]"])

lemma only_sends_bind [intro]:
  assumes "only_sends m" and "\<And>a. only_sends (f a)"
  shows "only_sends (mc_bind m f)"
  unfolding only_sends_def
proof
  fix st
  obtain cs where m: "snd (m st) = st\<lparr>issued := issued st @ cs\<rparr>"
    using assms(1) by (auto simp: only_sends_def)
  show "\<exists>cs. snd (mc_bind m f st) = st\<lparr>issued := issued st @ cs\<rparr>"
  proof (cases "fst (m st)")
    case None
    then show ?thesis using m by (auto simp: mc_bind_def split: prod.split option.split)
  next
    case (Some a)
    obtain ds where "snd (f a (snd (m st))) = (snd (m st))\<lparr>issued := issued (snd (m st)) @ ds\<rparr>"
      using assms(2) [of a] by (auto simp: only_sends_def)
    with Some m show ?thesis
      by (auto simp: mc_bind_def split: prod.split option.split intro: exI [of _ "cs @ ds"])
  qed
qed

lemma only_sends_split3 [intro]: "(\<And>x y z. only_sends (f x y z)) \<Longrightarrow> only_sends (case a of (x, y, z) \<Rightarrow> f x y z)"
  by (cases a) auto

lemma only_sends_if [intro]: "only_sends m1 \<Longrightarrow> only_sends m2 \<Longrightarrow> only_sends (if b then m1 else m2)"
  by simp

lemma only_sends_option [intro]:
  "only_sends m1 \<Longrightarrow> (\<And>v. only_sends (m2 v)) \<Longrightarrow> only_sends (case x of None \<Rightarrow> m1 | Some v \<Rightarrow> m2 v)"
  by (cases x) auto

lemma only_sends_at:
  "(\<And>st. \<exists>cs. snd (m st st) = st\<lparr>issued := issued st @ cs\<rparr>) \<Longrightarrow> only_sends (\<lambda>st. m st st)"
  by (simp add: only_sends_def)

lemma only_sends_stE: "only_sends m \<Longrightarrow> \<exists>cs. snd (m st) = st\<lparr>issued := issued st @ cs\<rparr>"
  by (simp add: only_sends_def)

lemma only_sends_run_command [intro]: "only_sends (run_command ssh c b)"
  by (auto simp: only_sends_def run_command_def Let_def split: option.split prod.split)

lemma only_sends_run_all [intro]: "only_sends (run_all ssh cs)"
  by (induction cs) auto

lemma only_sends_bind3:
  "only_sends m \<Longrightarrow> (\<And>x y z. only_sends (f x y z)) \<Longrightarrow> only_sends (mc_bind m (\<lambda>(x, y, z). f x y z))"
  by (rule only_sends_bind) (auto split: prod.split)

lemmas only_sends_intros = only_sends_bind3 only_sends_bind only_sends_if only_sends_option
  only_sends_return only_sends_run_command only_sends_run_all

lemma only_sends_git_clean: "only_sends (git_clean ssh)"
  unfolding git_clean_def by (intro only_sends_intros)

lemma only_sends_first_output: "only_sends (first_output ssh ms)"
proof (induction ms)
  case (Cons p ms)
  then show ?case by (cases p) (simp, intro only_sends_intros)
qed (simp add: only_sends_return)

lemma only_sends_get_remote_machine_var: "only_sends (get_remote_machine_var ssh)"
  unfolding get_remote_machine_var_def by (intro only_sends_intros only_sends_first_output)

lemma only_sends_get_disk_usage: "only_sends (get_disk_usage ssh)"
  unfolding get_disk_usage_def by (intro only_sends_intros)

lemma only_sends_docker_cleanup: "only_sends (docker_cleanup ssh)"
  unfolding docker_cleanup_def
  by (rule only_sends_at, rule only_sends_stE) (intro only_sends_intros)

lemma only_sends_cleanup_nested_machine: "only_sends (cleanup_nested_machine ssh r)"
  unfolding cleanup_nested_machine_def Let_def
  by (rule only_sends_at, rule only_sends_stE) (intro only_sends_intros)

lemma only_sends_cleanup_body: "only_sends (cleanup_body ssh results)"
  unfolding cleanup_body_def Let_def
  by (intro only_sends_intros only_sends_get_disk_usage only_sends_git_clean only_sends_docker_cleanup
      only_sends_get_remote_machine_var only_sends_cleanup_nested_machine)

lemma only_sends_client: "only_sends m \<Longrightarrow> client (snd (m st)) = client st"
  using only_sends_stE [of m st] by auto

lemma only_sends_issued: "only_sends m \<Longrightarrow> \<exists>cs. issued (snd (m st)) = issued st @ cs"
  using only_sends_stE [of m st] by auto

lemma cleanup_init_fields [simp]:
  "client (cleanup_init h p us v) = No_client" "issued (cleanup_init h p us v) = []"
  "mc_verbose (cleanup_init h p us v) = v" "mc_password (cleanup_init h p us v) = p"
  by (simp_all add: cleanup_init_def)

lemma run_full_cleanup_failed_connect:
  "conn \<noteq> Connect_ok \<Longrightarrow>
   run_full_cleanup ssh conn st =
     (Some \<lparr>main_machine = \<lparr>result_host = mc_hostname st, disk_before = None, disk_after = None, host_ok = False\<rparr>,
            nested_machine = None\<rparr>, st\<lparr>client := Unconnected\<rparr>)"
  by (simp add: run_full_cleanup_def connect_def)

lemma run_full_cleanup_connected:
  "run_full_cleanup ssh Connect_ok st =
     (case cleanup_body ssh \<lparr>main_machine = \<lparr>result_host = mc_hostname st, disk_before = None, disk_after = None,
                                            host_ok = False\<rparr>, nested_machine = None\<rparr> (st\<lparr>client := Connected\<rparr>) of
        (r, st2) \<Rightarrow> (r, disconnect st2))"
  by (simp add: run_full_cleanup_def connect_def)

lemma cleanup_body_ok:
  "fst (cleanup_body ssh results st) = Some r \<Longrightarrow> host_ok (main_machine r)"
  by (auto simp: cleanup_body_def mc_bind_def mc_return_def Let_def
           split: prod.splits option.splits if_splits)

lemma run_command_issued:
  "snd (run_command ssh c b st) = st\<lparr>issued := issued st @ [if b then sudo_command (mc_password st) c else c]\<rparr>"
  by (simp add: run_command_def Let_def split: option.split prod.split)

lemma run_command_total:
  assumes "\<forall>n c. ssh n c \<noteq> None"
  shows "\<exists>a. run_command ssh c b st = (Some a, st\<lparr>issued := issued st @ [if b then sudo_command (mc_password st) c else c]\<rparr>) \<and>
             fst a = fst (the (ssh (length (issued st)) (if b then sudo_command (mc_password st) c else c)))"
proof -
  obtain e o' r where "ssh (length (issued st)) (if b then sudo_command (mc_password st) c else c) = Some (e, o', r)"
    using assms by (metis not_None_eq prod_cases3)
  then show ?thesis by (simp add: run_command_def Let_def)
qed

lemma mc_bind_Some: "m st = (Some a, st') \<Longrightarrow> mc_bind m f st = f a st'"
  by (simp add: mc_bind_def)

lemma run_all_total:
  "\<forall>n c. ssh n c \<noteq> None \<Longrightarrow> run_all ssh cs st = (Some (), st\<lparr>issued := issued st @ cs\<rparr>)"
proof (induction cs arbitrary: st)
  case Nil
  then show ?case by (simp add: mc_return_def)
next
  case (Cons c cs)
  from run_command_total [OF Cons.prems, of c False st] obtain a
    where "run_command ssh c False st = (Some a, st\<lparr>issued := issued st @ [c]\<rparr>)" by auto
  with Cons show ?case by (simp add: mc_bind_Some)
qed

lemma get_disk_usage_total:
  "\<forall>n c. ssh n c \<noteq> None \<Longrightarrow> \<exists>a. get_disk_usage ssh st = (Some a, st\<lparr>issued := issued st @ [df_command]\<rparr>)"
  using run_command_total [of ssh df_command False st]
  by (auto simp: get_disk_usage_def mc_bind_Some mc_return_def split: prod.split)

lemma git_clean_total:
  assumes "\<forall>n c. ssh n c \<noteq> None" and "fst (the (ssh (length (issued st)) (u ''test -d '' @ CHEETAH_PATH))) = 0"
  shows "\<exists>a. git_clean ssh st =
           (Some a, st\<lparr>issued := issued st @ [u ''test -d '' @ CHEETAH_PATH,
                                              sudo_command (mc_password st) git_clean_command]\<rparr>)"
proof -
  obtain a where a: "run_command ssh (u ''test -d '' @ CHEETAH_PATH) False st =
      (Some a, st\<lparr>issued := issued st @ [u ''test -d '' @ CHEETAH_PATH]\<rparr>)" and "fst a = 0"
    using run_command_total [OF assms(1), of "u ''test -d '' @ CHEETAH_PATH" False st] assms(2) by auto
  moreover obtain b where "run_command ssh git_clean_command True (st\<lparr>issued := issued st @ [u ''test -d '' @ CHEETAH_PATH]\<rparr>) =
      (Some b, st\<lparr>issued := issued st @ [u ''test -d '' @ CHEETAH_PATH, sudo_command (mc_password st) git_clean_command]\<rparr>)"
    using run_command_total [OF assms(1), of git_clean_command True "st\<lparr>issued := issued st @ [u ''test -d '' @ CHEETAH_PATH]\<rparr>"]
    by auto
  ultimately show ?thesis
    by (cases a) (auto simp: git_clean_def git_clean_command_def [symmetric] mc_bind_Some mc_return_def
                        split: prod.split)
qed

lemma docker_cleanup_total:
  "\<forall>n c. ssh n c \<noteq> None \<Longrightarrow> \<not> mc_verbose st \<Longrightarrow>
   docker_cleanup ssh st = (Some True, st\<lparr>issued := issued st @ docker_cleanup_commands\<rparr>)"
proof -
  assume t: "\<forall>n c. ssh n c \<noteq> None" and v: "\<not> mc_verbose st"
  have "run_all ssh docker_cleanup_commands st = (Some (), st\<lparr>issued := issued st @ docker_cleanup_commands\<rparr>)"
    using t by (rule run_all_total)
  then show ?thesis
    using v by (simp add: docker_cleanup_def docker_cleanup_commands_def [symmetric] mc_bind_def mc_return_def
                     del: run_all.simps)
qed

lemma only_sends_prefix: "only_sends m \<Longrightarrow> prefix (issued st) (issued (snd (m st)))"
  using only_sends_issued [of m st] by auto

lemma cleanup_body_order:
  assumes "\<forall>n c. ssh n c \<noteq> None" and "fst (the (ssh (Suc (length (issued st))) (u ''test -d '' @ CHEETAH_PATH))) = 0"
    and "\<not> mc_verbose st"
  shows "prefix (issued st @ [df_command, u ''test -d '' @ CHEETAH_PATH, sudo_command (mc_password st) git_clean_command] @
                 docker_cleanup_commands @ [df_command])
                (issued (snd (cleanup_body ssh results st)))"
proof -
  obtain a1 where a1: "get_disk_usage ssh st = (Some a1, st\<lparr>issued := issued st @ [df_command]\<rparr>)"
    using get_disk_usage_total [OF assms(1)] by blast
  let ?s1 = "st\<lparr>issued := issued st @ [df_command]\<rparr>"
  obtain a2 where a2: "git_clean ssh ?s1 =
      (Some a2, ?s1\<lparr>issued := issued ?s1 @ [u ''test -d '' @ CHEETAH_PATH, sudo_command (mc_password ?s1) git_clean_command]\<rparr>)"
    using git_clean_total [OF assms(1), of ?s1] assms(2) by auto
  let ?s2 = "?s1\<lparr>issued := issued ?s1 @ [u ''test -d '' @ CHEETAH_PATH, sudo_command (mc_password ?s1) git_clean_command]\<rparr>"
  have a3: "docker_cleanup ssh ?s2 = (Some True, ?s2\<lparr>issued := issued ?s2 @ docker_cleanup_commands\<rparr>)"
    using docker_cleanup_total [OF assms(1)] assms(3) by simp
  let ?s3 = "?s2\<lparr>issued := issued ?s2 @ docker_cleanup_commands\<rparr>"
  obtain a4 where a4: "get_disk_usage ssh ?s3 = (Some a4, ?s3\<lparr>issued := issued ?s3 @ [df_command]\<rparr>)"
    using get_disk_usage_total [OF assms(1)] by blast
  show ?thesis
    unfolding cleanup_body_def mc_bind_Some [where m = "get_disk_usage ssh", OF a1] mc_bind_Some [where m = "git_clean ssh", OF a2]
      mc_bind_Some [where m = "docker_cleanup ssh", OF a3] mc_bind_Some [where m = "get_disk_usage ssh", OF a4] Let_def
    by (rule prefix_order.order_trans [OF _ only_sends_prefix], simp)
       (intro only_sends_intros only_sends_get_remote_machine_var only_sends_cleanup_nested_machine)
qed

lemma clean_main_issued:
  "issued (snd (clean_main ssh Connect_ok h p us v)) =
   issued (snd (cleanup_body ssh \<lparr>main_machine = \<lparr>result_host = h, disk_before = None, disk_after = None,
                                   host_ok = False\<rparr>, nested_machine = None\<rparr>
                  ((cleanup_init h p us v)\<lparr>client := Connected\<rparr>)))"
proof -
  have h: "mc_hostname (cleanup_init h p us v) = h" by (simp add: cleanup_init_def)
  show ?thesis
    unfolding clean_main_def run_full_cleanup_connected h
    by (auto simp: disconnect_def split: prod.split option.split)
qed

lemma remote_machine_search_skip:
  assumes "61 \<notin> set pre" and "rm_match_at (u ''REMOTE_MACHINE='' @ r) = Some v"
  shows "remote_machine_search (pre @ u ''REMOTE_MACHINE='' @ r) = Some v"
  using assms(1)
proof (induction pre)
  case Nil
  obtain c cs where "u ''REMOTE_MACHINE='' @ r = c # cs" by (simp add: u_def)
  with assms(2) show ?case by simp
next
  case (Cons c pre)
  have "\<not> starts_with (u ''REMOTE_MACHINE='') ((c # pre) @ u ''REMOTE_MACHINE='' @ r)"
    using Cons.prems by (intro starts_with_sep_avoid [of 61]) (auto simp: u_def)
  then have "rm_match_at ((c # pre) @ u ''REMOTE_MACHINE='' @ r) = None"
    by (simp add: rm_match_at_def)
  with Cons show ?case by simp
qed

lemma rm_match_at_literal:
  "rm_match_at (u ''REMOTE_MACHINE='' @ x) =
     (case x of
        [] \<Rightarrow> None
      | c # r \<Rightarrow>
          if c = 34 \<or> c = 39 then
            (let v = takeWhile rm_value_char r
             in if v \<noteq> [] \<and> take 1 (drop (length v) r) = [c] then Some v else None)
          else (let v = takeWhile rm_value_char (c # r) in if v \<noteq> [] then Some v else None))"
proof -
  have "drop 15 (u ''REMOTE_MACHINE='' @ x) = x" by (simp add: u_def)
  then show ?thesis by (simp add: rm_match_at_def starts_with_append del: drop_append)
qed

lemma df_rows_wf:
  "list_all partition_wf (map df_row (filter (\<lambda>parts. 6 \<le> length parts) (map py_split_ws ls)))"
proof -
  have "partition_wf (df_row parts)" if "parts \<in> set (map py_split_ws ls)" and "6 \<le> length parts" for parts
  proof -
    from that(1) obtain l where "parts = py_split_ws l" by auto
    then have "\<forall>i < length parts. parts ! i \<noteq> [] \<and> list_all (\<lambda>c. \<not> is_space c) (parts ! i)"
      using py_split_ws_pieces nth_mem by metis
    with that(2) have P: "i < 6 \<Longrightarrow> parts ! i \<noteq> [] \<and> list_all (\<lambda>c. \<not> is_space c) (parts ! i)" for i
      by auto
    show ?thesis using P [of 0] P [of 1] P [of 2] P [of 3] P [of 4] P [of 5]
      by (simp add: partition_wf_def df_row_def)
  qed
  then show ?thesis by (auto simp: list_all_iff)
qed

lemma unknown_partition_wf: "partition_wf unknown_partition"
  by (simp add: partition_wf_def unknown_partition_def pystr_eval)

section \<open>Properties of the machine cleaner\<close>

text \<open>C18: When the connection fails the script sends no command and
  calls \<open>sys.exit(1)\<close>; when it succeeds, the connection is closed at the end on every
  path (the \<open>finally\<close> of \<open>run_full_cleanup\<close>), also when an SSH command raises, and the
  script never reaches \<open>sys.exit(1)\<close>: it calls \<open>sys.exit(0)\<close> after a complete cleanup,
  or an exception escapes (a traceback, also exit status 1).\<close>

theorem clean_main_session:
  "(conn \<noteq> Connect_ok \<longrightarrow> fst (clean_main ssh conn h p us v) = Clean_exit 1 \<and>
                              issued (snd (clean_main ssh conn h p us v)) = []) \<and>
   (conn = Connect_ok \<longrightarrow> client (snd (clean_main ssh conn h p us v)) = Closed \<and>
                          (fst (clean_main ssh conn h p us v) = Clean_exit 0 \<or>
                           fst (clean_main ssh conn h p us v) = Clean_uncaught))"
proof (cases "conn = Connect_ok")
  case True
  let ?R = "\<lparr>main_machine = \<lparr>result_host = h, disk_before = None, disk_after = None, host_ok = False\<rparr>,
             nested_machine = None\<rparr>"
  let ?S = "(cleanup_init h p us v)\<lparr>client := Connected\<rparr>"
  obtain r st2 where b: "cleanup_body ssh ?R ?S = (r, st2)"
    by (cases "cleanup_body ssh ?R ?S") auto
  have "client (snd (cleanup_body ssh ?R ?S)) = client ?S"
    by (rule only_sends_client [OF only_sends_cleanup_body])
  with b have "client st2 = Connected" by simp
  moreover have "r \<noteq> None \<Longrightarrow> host_ok (main_machine (the r))"
    using cleanup_body_ok [of ssh ?R ?S] b by auto
  moreover have "mc_hostname (cleanup_init h p us v) = h" by (simp add: cleanup_init_def)
  ultimately show ?thesis using True b
    by (auto simp: clean_main_def run_full_cleanup_connected disconnect_def split: option.split)
next
  case False
  then show ?thesis by (simp add: clean_main_def run_full_cleanup_failed_connect)
qed

theorem clean_main_session_witness:
  "fst (clean_main (\<lambda>_ _. None) Auth_failed (u ''m1'') (u ''pw'') (u ''dn'') False) = Clean_exit 1 \<and>
   client (snd (clean_main (\<lambda>_ _. None) Connect_ok (u ''m1'') (u ''pw'') (u ''dn'') False)) = Closed"
  using clean_main_session [where conn = Auth_failed and ssh = "\<lambda>_ _. None" and h = "u ''m1''" and p = "u ''pw''"
          and us = "u ''dn''" and v = False]
        clean_main_session [where conn = Connect_ok and ssh = "\<lambda>_ _. None" and h = "u ''m1''" and p = "u ''pw''"
          and us = "u ''dn''" and v = False]
  by simp

text \<open>C38: On a machine whose commands all complete, where the
  cheetah checkout exists, a non-verbose run sends, in this order: the \<open>df\<close> before,
  \<open>test -d\<close>, \<open>git clean -xdf\<close> under \<open>sudo -S\<close> with the password piped in, the four
  Docker clean-up commands, and the \<open>df\<close> after: the second measurement follows all the
  cleaning.\<close>

theorem clean_main_command_order:
  assumes "\<forall>n c. ssh n c \<noteq> None" and "fst (the (ssh 1 (u ''test -d '' @ CHEETAH_PATH))) = 0"
  shows "take 8 (issued (snd (clean_main ssh Connect_ok h p us False))) =
           [df_command, u ''test -d '' @ CHEETAH_PATH, sudo_command p git_clean_command] @
           docker_cleanup_commands @ [df_command]"
proof -
  let ?R = "\<lparr>main_machine = \<lparr>result_host = h, disk_before = None, disk_after = None, host_ok = False\<rparr>,
             nested_machine = None\<rparr>"
  let ?S = "(cleanup_init h p us False)\<lparr>client := Connected\<rparr>"
  have "prefix ([df_command, u ''test -d '' @ CHEETAH_PATH, sudo_command p git_clean_command] @
                docker_cleanup_commands @ [df_command]) (issued (snd (cleanup_body ssh ?R ?S)))"
    using cleanup_body_order [OF assms(1), of ?S ?R] assms(2) by simp
  then obtain zs where "issued (snd (cleanup_body ssh ?R ?S)) =
      ([df_command, u ''test -d '' @ CHEETAH_PATH, sudo_command p git_clean_command] @ docker_cleanup_commands @ [df_command]) @ zs"
    by (auto simp: prefix_def)
  then show ?thesis by (simp add: clean_main_issued docker_cleanup_commands_def)
qed

theorem clean_main_command_order_witness:
  "take 8 (issued (snd (clean_main (\<lambda>_ _. Some (0, [], [])) Connect_ok (u ''m1'') (u ''pw'') (u ''dn'') False))) =
     [df_command, u ''test -d '' @ CHEETAH_PATH, sudo_command (u ''pw'') git_clean_command] @
     docker_cleanup_commands @ [df_command]"
  using clean_main_command_order [where ssh = "\<lambda>_ _. Some (0, [], [])" and h = "u ''m1''" and p = "u ''pw''"
          and us = "u ''dn''"]
  by simp

text \<open>C19: With \<open>use_sudo\<close>, the stdout \<open>run_command\<close>
  returns never contains the password nor the \<open>[sudo]\<close> prompt, for a non-empty password
  without a newline: the filter drops every line holding either, and joining the
  remaining lines cannot create one.\<close>

theorem run_command_sudo_hides_password:
  assumes "mc_password st \<noteq> []" and "10 \<notin> set (mc_password st)"
    and "run_command ssh c True st = (Some (e, out, err), st')"
  shows "\<not> contains (mc_password st) out \<and> \<not> contains (u ''[sudo]'') out"
proof -
  have nil: "\<not> contains q []" if "q \<noteq> []" for q :: ustr using that by (cases q) auto
  have sq: "u ''[sudo]'' \<noteq> [] \<and> 10 \<notin> set (u ''[sudo]'')" by (simp add: u_def)
  from assms(3) have "out = [] \<or> out = sudo_filter (mc_password st) (py_strip (fst (snd (the (ssh (length (issued st)) (sudo_command (mc_password st) c))))))"
    by (auto simp: run_command_def Let_def split: option.splits if_splits)
  then show ?thesis
  proof
    assume "out = []" then show ?thesis using nil assms(1) sq by simp
  next
    assume "out = sudo_filter (mc_password st) (py_strip (fst (snd (the (ssh (length (issued st)) (sudo_command (mc_password st) c))))))"
    then show ?thesis unfolding sudo_filter_def
      using not_contains_join [OF assms(1,2)] not_contains_join [of "u ''[sudo]''"] sq by auto
  qed
qed

theorem run_command_sudo_hides_password_witness:
  "run_command (\<lambda>_ _. Some (0, u ''[sudo] password for dn: pw'' @ [10] @ u ''removed build/'', [])) (u ''ls'') True
      (cleanup_init (u ''m1'') (u ''pw'') (u ''dn'') False) =
     (Some (0, u ''removed build/'', []),
      (cleanup_init (u ''m1'') (u ''pw'') (u ''dn'') False)\<lparr>issued := [sudo_command (u ''pw'') (u ''ls'')]\<rparr>) \<and>
   \<not> contains (u ''pw'') (u ''removed build/'')"
proof -
  have h: "run_command (\<lambda>_ _. Some (0, u ''[sudo] password for dn: pw'' @ [10] @ u ''removed build/'', [])) (u ''ls'') True
      (cleanup_init (u ''m1'') (u ''pw'') (u ''dn'') False) =
     (Some (0, u ''removed build/'', []),
      (cleanup_init (u ''m1'') (u ''pw'') (u ''dn'') False)\<lparr>issued := [sudo_command (u ''pw'') (u ''ls'')]\<rparr>)"
    by (simp add: run_command_def sudo_filter_def cleanup_init_def pystr_eval)
  have "mc_password (cleanup_init (u ''m1'') (u ''pw'') (u ''dn'') False) \<noteq> [] \<and>
        10 \<notin> set (mc_password (cleanup_init (u ''m1'') (u ''pw'') (u ''dn'') False))"
    by (simp add: u_def)
  with run_command_sudo_hides_password [OF _ _ h] h show ?thesis by simp
qed

text \<open>C20: The two \<open>df\<close> parsers of the class (the inline one of
  \<open>get_disk_usage\<close>, which skips the first line, and \<open>_parse_df_output\<close>, which skips
  lines starting with \<open>Filesystem\<close> and blank lines) give the same partitions on every
  output whose first line is the header and whose other lines are not.\<close>

theorem df_parsers_agree:
  assumes "py_split [10] (py_strip out) = header # rows"
    and "starts_with (u ''Filesystem'') header" and "\<forall>l \<in> set rows. \<not> starts_with (u ''Filesystem'') l"
  shows "disk_usage_rows out = parse_df_output out"
proof -
  have "filter (\<lambda>parts. 6 \<le> length parts)
          (map py_split_ws (filter (\<lambda>line. \<not> (starts_with (u ''Filesystem'') line \<or> py_strip line = [])) rows)) =
        filter (\<lambda>parts. 6 \<le> length parts) (map py_split_ws rows)"
    using assms(3)
    by (intro filter_map_filter_irrelevant) (auto simp: py_strip_Nil_iff py_split_ws_all_space)
  with assms(1,2) show ?thesis by (simp add: disk_usage_rows_def parse_df_output_def)
qed

theorem df_parsers_agree_witness:
  "disk_usage_rows (u ''Filesystem Size Used Avail Use% Mounted on'' @ [10] @ u ''/dev/sda1 20G 15G 5G 75% /'') =
     parse_df_output (u ''Filesystem Size Used Avail Use% Mounted on'' @ [10] @ u ''/dev/sda1 20G 15G 5G 75% /'') \<and>
   parse_df_output (u ''Filesystem Size Used Avail Use% Mounted on'' @ [10] @ u ''/dev/sda1 20G 15G 5G 75% /'') =
     [\<lparr>filesystem = u ''/dev/sda1'', part_total = u ''20G'', part_used = u ''15G'', part_available = u ''5G'',
       part_percent = u ''75%'', mountpoint = u ''/''\<rparr>]"
proof -
  have split: "py_split [10] (py_strip (u ''Filesystem Size Used Avail Use% Mounted on'' @ [10] @ u ''/dev/sda1 20G 15G 5G 75% /'')) =
      u ''Filesystem Size Used Avail Use% Mounted on'' # [u ''/dev/sda1 20G 15G 5G 75% /'']"
    by (simp add: pystr_eval)
  have "starts_with (u ''Filesystem'') (u ''Filesystem Size Used Avail Use% Mounted on'') \<and>
        (\<forall>l \<in> set [u ''/dev/sda1 20G 15G 5G 75% /'']. \<not> starts_with (u ''Filesystem'') l)"
    by (simp add: u_def)
  with df_parsers_agree [OF split] show ?thesis
    by (simp add: parse_df_output_def df_row_def pystr_eval)
qed

text \<open>C21: The fallback parser of
  \<open>get_remote_machine_var\<close> reads a configuration line back: after any text without
  \<open>=\<close> (such as \<open>export \<close>), \<open>REMOTE_MACHINE=v\<close>, \<open>REMOTE_MACHINE="v"\<close> and
  \<open>REMOTE_MACHINE='v'\<close> all give \<open>v\<close>, for every non-empty value without quotes,
  \<open>#\<close> or whitespace.\<close>

theorem remote_machine_search_config:
  assumes "61 \<notin> set pre" and "q \<in> {[], [34], [39]}" and "v \<noteq> []" and "list_all rm_value_char v"
  shows "remote_machine_search (pre @ u ''REMOTE_MACHINE='' @ q @ v @ q) = Some v"
proof -
  have tw: "takeWhile rm_value_char (v @ x) = v" if "x = [] \<or> \<not> rm_value_char (hd x)" for x
    using assms(4) that by (cases x) (auto simp: takeWhile_append2 list_all_iff)
  obtain c r where v: "v = c # r" using assms(3) by (cases v) auto
  then have "c \<noteq> 34 \<and> c \<noteq> 39" using assms(4) by (simp add: rm_value_char_def)
  from assms(2) have "rm_match_at (u ''REMOTE_MACHINE='' @ q @ v @ q) = Some v"
  proof (elim insertE emptyE)
    assume "q = []"
    with tw [of "[]"] v \<open>c \<noteq> 34 \<and> c \<noteq> 39\<close> show ?thesis by (simp add: rm_match_at_literal)
  next
    assume "q = [34]"
    with tw [of "[34]"] assms(3) show ?thesis by (simp add: rm_match_at_literal rm_value_char_def)
  next
    assume "q = [39]"
    with tw [of "[39]"] assms(3) show ?thesis by (simp add: rm_match_at_literal rm_value_char_def)
  qed
  then show ?thesis using remote_machine_search_skip [OF assms(1)] by simp
qed

theorem remote_machine_search_config_witness:
  "remote_machine_search (u ''export '' @ u ''REMOTE_MACHINE='' @ [34] @ u ''nce-7'' @ [34]) = Some (u ''nce-7'')"
  using remote_machine_search_config [of "u ''export ''" "[34]" "u ''nce-7''"]
  by (simp add: u_def rm_value_char_def is_space_def)

lemma mask_hides:
  "password \<noteq> [] \<Longrightarrow> 42 \<notin> set password \<Longrightarrow> \<not> contains password (mask_password password s)"
proof -
  assume p: "password \<noteq> []" "42 \<notin> set password"
  have "set password \<inter> set (u ''****'') = {}" "u ''****'' \<noteq> []" using p(2) by (auto simp: u_def)
  then show ?thesis using replace_aux_hides [OF p(1)] p(1) by (simp add: mask_password_def py_replace_def)
qed

lemma mask_absent: "\<not> contains password s \<Longrightarrow> mask_password password s = s"
  by (cases "password = []") (simp_all add: mask_password_def py_replace_def replace_aux_absent)

lemma log_stream_lines:
  "password \<noteq> [] \<Longrightarrow> 42 \<notin> set password \<Longrightarrow> l \<in> set (log_stream password n icon hdr text) \<Longrightarrow>
   l = log_prefix n @ [icon] @ hdr \<or> (\<exists>x. l = log_prefix n @ u ''   '' @ x \<and> \<not> contains password x)"
proof -
  assume p: "password \<noteq> []" "42 \<notin> set password" and l: "l \<in> set (log_stream password n icon hdr text)"
  then have "l = log_prefix n @ [icon] @ hdr \<or>
      l \<in> (\<lambda>line. log_prefix n @ u ''   '' @ mask_password password line) ` set (py_split [10] text)"
    by (auto simp: log_stream_def split: if_splits)
  then show ?thesis using mask_hides [OF p] by blast
qed

lemma log_stream_shows:
  "text \<noteq> [] \<Longrightarrow> x \<in> set (py_split [10] text) \<Longrightarrow> \<not> contains password x \<Longrightarrow>
   log_prefix n @ u ''   '' @ x \<in> set (log_stream password n icon hdr text)"
  by (auto simp: log_stream_def mask_absent intro!: image_eqI [where x = x])

text \<open>C22: in verbose mode the loggers never print a non-empty password without an asterisk: log_command prints one line, the command masked, and log_output prints its four fixed header lines and each line of stdout and stderr masked; a line that does not hold the password is printed as it is.\<close>

theorem log_hides_password:
  assumes "password \<noteq> []" "42 \<notin> set password"
  shows "(\<exists>x. log_command True password command n = [log_prefix n @ [9889] @ u '' [CMD] '' @ x] \<and>
              \<not> contains password x \<and> (\<not> contains password command \<longrightarrow> x = command)) \<and>
         (\<forall>l\<in>set (log_output True password out err code n).
            l \<in> {log_prefix n @ [128202] @ u '' [EXIT CODE] '' @ py_str_int code,
                 log_prefix n @ [128228] @ u '' [STDOUT]'', log_prefix n @ [128229] @ u '' [STDERR]'',
                 log_prefix n @ replicate 50 9472} \<or>
            (\<exists>x. l = log_prefix n @ u ''   '' @ x \<and> \<not> contains password x)) \<and>
         (\<forall>x\<in>(if out = [] then {} else set (py_split [10] out)) \<union> (if err = [] then {} else set (py_split [10] err)).
            \<not> contains password x \<longrightarrow> log_prefix n @ u ''   '' @ x \<in> set (log_output True password out err code n))"
proof (intro conjI)
  show "\<exists>x. log_command True password command n = [log_prefix n @ [9889] @ u '' [CMD] '' @ x] \<and>
          \<not> contains password x \<and> (\<not> contains password command \<longrightarrow> x = command)"
    using mask_hides [OF assms] mask_absent by (auto simp: log_command_def)
  show "\<forall>l\<in>set (log_output True password out err code n).
          l \<in> {log_prefix n @ [128202] @ u '' [EXIT CODE] '' @ py_str_int code,
               log_prefix n @ [128228] @ u '' [STDOUT]'', log_prefix n @ [128229] @ u '' [STDERR]'',
               log_prefix n @ replicate 50 9472} \<or>
          (\<exists>x. l = log_prefix n @ u ''   '' @ x \<and> \<not> contains password x)"
  proof
    fix l assume l: "l \<in> set (log_output True password out err code n)"
    then have "l = log_prefix n @ [128202] @ u '' [EXIT CODE] '' @ py_str_int code \<or>
        l \<in> set (log_stream password n 128228 (u '' [STDOUT]'') out) \<or>
        l \<in> set (log_stream password n 128229 (u '' [STDERR]'') err) \<or> l = log_prefix n @ replicate 50 9472"
      by (auto simp: log_output_def)
    then show "l \<in> {log_prefix n @ [128202] @ u '' [EXIT CODE] '' @ py_str_int code,
               log_prefix n @ [128228] @ u '' [STDOUT]'', log_prefix n @ [128229] @ u '' [STDERR]'',
               log_prefix n @ replicate 50 9472} \<or>
          (\<exists>x. l = log_prefix n @ u ''   '' @ x \<and> \<not> contains password x)"
      using log_stream_lines [OF assms, of l n 128228 "u '' [STDOUT]''" out]
        log_stream_lines [OF assms, of l n 128229 "u '' [STDERR]''" err] by auto
  qed
  show "\<forall>x\<in>(if out = [] then {} else set (py_split [10] out)) \<union> (if err = [] then {} else set (py_split [10] err)).
          \<not> contains password x \<longrightarrow> log_prefix n @ u ''   '' @ x \<in> set (log_output True password out err code n)"
    using log_stream_shows by (auto simp: log_output_def split: if_splits)
qed

theorem log_hides_password_witness:
  "\<exists>x. log_command True (u ''drivenets'') (sudo_command (u ''drivenets'') (u ''df -h'')) 2 =
         [log_prefix 2 @ [9889] @ u '' [CMD] '' @ x] \<and> \<not> contains (u ''drivenets'') x"
proof -
  have p: "u ''drivenets'' \<noteq> []" "42 \<notin> set (u ''drivenets'')" by (simp_all add: u_def)
  show ?thesis using log_hides_password [OF p, of "sudo_command (u ''drivenets'') (u ''df -h'')" 2] by blast
qed

text \<open>With an asterisk in the password the mask_password can rebuild it: \<open>'aa**'.replace('a**', '****')\<close>
  is \<open>'a****'\<close>, which contains \<open>'a**'\<close>.\<close>

lemma mask_star_leaks: "contains (u ''a**'') (mask_password (u ''a**'') (u ''aa**''))"
  by (simp add: mask_password_def py_replace_def u_def)

end
