(* ===== verification/Paths.thy ===== *)
theory Paths
  imports Prelude "HOL-Library.List_Lexorder"
begin

text \<open>
  The parts of \<open>pathlib\<close> and \<open>os.path\<close> that the two copy scripts
  (src/deploy_cheetah.py, src/machine_copy_files.py) rely on, written from CPython's
  definitions: \<open>str.rfind\<close>, \<open>PurePath.suffix\<close>, \<open>os.path.dirname\<close>, and a local
  directory tree with its recursive listing (\<open>Path.rglob('*')\<close> filtered by
  \<open>is_file()\<close>, the file count of \<open>os.walk\<close>). A canonical absolute path is written
  \<open>abs_path cs\<close> from its components; the lemmas show how \<open>dirname\<close> walks up such a
  path and that the listing of a well-formed tree has no duplicate path.
\<close>

subsection \<open>String helpers of the path functions\<close>

text \<open>\<open>s.rfind(c)\<close> for a single code point: the last index of \<open>c\<close>, or -1.\<close>

definition py_rfind :: "nat \<Rightarrow> ustr \<Rightarrow> int" where
  "py_rfind c s =
     (if c \<in> set s then int (length s - 1 - length (takeWhile (\<lambda>x. x \<noteq> c) (rev s))) else -1)"

text \<open>\<open>PurePath.suffix\<close>: the final component's text from its last dot, unless the dot
  is its first or its last code point.\<close>

definition path_suffix :: "ustr \<Rightarrow> ustr" where
  "path_suffix name =
     (let i = py_rfind 46 name in
      if 0 < i \<and> i < int (length name) - 1 then drop (nat i) name else [])"

text \<open>\<open>posixpath.dirname\<close>: the text up to the last slash, with trailing slashes removed
  unless it consists of slashes only.\<close>

definition py_dirname :: "ustr \<Rightarrow> ustr" where
  "py_dirname p =
     (let head = take (nat (py_rfind 47 p + 1)) p in
      if head \<noteq> [] \<and> head \<noteq> replicate (length head) 47
      then rev (dropWhile (\<lambda>c. c = 47) (rev head)) else head)"

text \<open>A path joined from its components with \<open>/\<close>, as \<open>str(Path)\<close> prints it.\<close>

definition rel_path_str :: "ustr list \<Rightarrow> ustr" where
  "rel_path_str cs = py_join [47] cs"

text \<open>A canonical absolute path: \<open>/\<close> followed by its components.\<close>

definition abs_path :: "ustr list \<Rightarrow> ustr" where
  "abs_path cs = (if cs = [] then [47] else concat (map (\<lambda>c. 47 # c) cs))"

declare py_rfind_def [pystr_eval] path_suffix_def [pystr_eval] py_dirname_def [pystr_eval]
  rel_path_str_def [pystr_eval] abs_path_def [pystr_eval]

subsection \<open>A local directory tree\<close>

text \<open>A directory entry: a file with its bytes (\<open>None\<close> when opening or reading it raises
  \<open>OSError\<close>) or a directory with its entries. The order of the entries is the order in
  which the operating system lists them.\<close>

datatype fs_entry = Fs_file ustr "nat list option" | Fs_dir ustr "fs_entry list"

primrec entry_name :: "fs_entry \<Rightarrow> ustr" where
  "entry_name (Fs_file n c) = n"
| "entry_name (Fs_dir n es) = n"

text \<open>The files below a directory, each with its path relative to it (its components)
  and its contents: what \<open>rglob('*')\<close> filtered by \<open>is_file()\<close> yields.\<close>

fun walk_entry :: "fs_entry \<Rightarrow> (ustr list \<times> nat list option) list"
and walk :: "fs_entry list \<Rightarrow> (ustr list \<times> nat list option) list" where
  "walk_entry (Fs_file n c) = [([n], c)]"
| "walk_entry (Fs_dir n es) = map (\<lambda>(p, c). (n # p, c)) (walk es)"
| "walk [] = []"
| "walk (e # es) = walk_entry e @ walk es"

text \<open>The directories below a directory, by relative path, each before its contents.\<close>

fun walk_dirs_entry :: "fs_entry \<Rightarrow> ustr list list"
and walk_dirs :: "fs_entry list \<Rightarrow> ustr list list" where
  "walk_dirs_entry (Fs_file n c) = []"
| "walk_dirs_entry (Fs_dir n es) = [n] # map ((#) n) (walk_dirs es)"
| "walk_dirs [] = []"
| "walk_dirs (e # es) = walk_dirs_entry e @ walk_dirs es"

text \<open>What a directory listing can hold: names that are non-empty, contain no slash, and
  are distinct within each directory.\<close>

definition name_ok :: "ustr \<Rightarrow> bool" where
  "name_ok n \<longleftrightarrow> n \<noteq> [] \<and> 47 \<notin> set n"

fun tree_wf_entry :: "fs_entry \<Rightarrow> bool"
and tree_wf :: "fs_entry list \<Rightarrow> bool" where
  "tree_wf_entry (Fs_file n c) = name_ok n"
| "tree_wf_entry (Fs_dir n es) = (name_ok n \<and> tree_wf es)"
| "tree_wf [] = True"
| "tree_wf (e # es) = (tree_wf_entry e \<and> entry_name e \<notin> set (map entry_name es) \<and> tree_wf es)"

subsection \<open>dirname on canonical paths, listing of a well-formed tree\<close>

lemma py_rfind_last: "c \<notin> set t \<Longrightarrow> py_rfind c (s @ c # t) = int (length s)"
proof -
  assume "c \<notin> set t"
  then have "takeWhile (\<lambda>x. x \<noteq> c) (rev t @ c # rev s) = rev t"
    by (subst takeWhile_append2) auto
  then show ?thesis by (simp add: py_rfind_def)
qed

lemma abs_path_snoc: "abs_path (cs @ [c]) = concat (map ((#) 47) cs) @ 47 # c"
  by (simp add: abs_path_def)

lemma abs_path_Cons_concat: "cs \<noteq> [] \<Longrightarrow> abs_path cs = concat (map ((#) 47) cs)"
  by (simp add: abs_path_def)

lemma last_concat_names:
  "cs \<noteq> [] \<Longrightarrow> \<forall>c\<in>set cs. name_ok c \<Longrightarrow> concat (map ((#) 47) cs) \<noteq> [] \<and> last (concat (map ((#) 47) cs)) \<noteq> 47"
proof (induction cs rule: rev_induct)
  case (snoc c cs)
  then show ?case by (auto simp: name_ok_def dest: last_in_set)
qed simp

lemma py_dirname_abs_path_snoc:
  assumes "\<forall>x\<in>set cs. name_ok x" "name_ok c"
  shows "py_dirname (abs_path (cs @ [c])) = abs_path cs"
proof (cases "cs = []")
  case True
  have "py_rfind 47 (47 # c) = 0"
    using py_rfind_last [of 47 c "[]"] assms(2) by (simp add: name_ok_def)
  with True show ?thesis by (simp add: abs_path_def py_dirname_def)
next
  case False
  let ?P = "concat (map ((#) 47) cs)"
  have r: "py_rfind 47 (?P @ 47 # c) = int (length ?P)"
    using assms(2) by (intro py_rfind_last) (simp add: name_ok_def)
  have h: "take (nat (py_rfind 47 (?P @ 47 # c) + 1)) (?P @ 47 # c) = ?P @ [47]"
  proof -
    have "nat (int (length ?P) + 1) = Suc (length ?P)" by arith
    then show ?thesis by (simp add: r)
  qed
  have l: "?P \<noteq> []" "last ?P \<noteq> 47" using last_concat_names [OF False assms(1)] by auto
  then obtain Q x where q: "?P = Q @ [x]" "x \<noteq> 47" by (metis append_butlast_last_id)
  have nr: "?P @ [47] \<noteq> replicate (length (?P @ [47])) 47"
  proof
    assume "?P @ [47] = replicate (length (?P @ [47])) 47"
    moreover have "x \<in> set (?P @ [47])" using q(1) by simp
    ultimately show False using q(2) by (metis in_set_replicate)
  qed
  have "py_dirname (abs_path (cs @ [c])) = rev (dropWhile (\<lambda>c. c = 47) (rev (?P @ [47])))"
    using nr unfolding py_dirname_def abs_path_snoc h Let_def by simp
  also have "\<dots> = ?P" using q by simp
  also have "?P = abs_path cs" using False by (simp add: abs_path_def)
  finally show ?thesis .
qed

lemma walk_entry_paths: "(p, c) \<in> set (walk_entry e) \<Longrightarrow> p \<noteq> [] \<and> hd p = entry_name e"
  by (cases e) auto

lemma tree_wf_walk_names:
  shows "tree_wf_entry e \<Longrightarrow> (p, c) \<in> set (walk_entry e) \<Longrightarrow> \<forall>x\<in>set p. name_ok x"
    and "tree_wf es \<Longrightarrow> (p, c) \<in> set (walk es) \<Longrightarrow> \<forall>x\<in>set p. name_ok x"
  by (induction e and es arbitrary: p c and p c rule: walk_entry_walk.induct) auto

lemma tree_wf_walk_distinct:
  shows "tree_wf_entry e \<Longrightarrow> distinct (map fst (walk_entry e))"
    and "tree_wf es \<Longrightarrow> distinct (map fst (walk es))"
proof (induction e and es rule: walk_entry_walk.induct)
  case (2 n es)
  have "map fst (map (\<lambda>(p, c). (n # p, c)) xs) = map ((#) n) (map fst xs)" for xs :: "(ustr list \<times> nat list option) list"
    by (induction xs) auto
  moreover have "distinct (map ((#) n) (map fst (walk es)))" using 2 by (auto simp: distinct_map intro!: comp_inj_on)
  ultimately show ?case by (metis walk_entry.simps(2))
next
  case (4 e es)
  have "fst ` set (walk_entry e) \<inter> fst ` set (walk es) = {}"
  proof -
    { fix p c c' assume a: "(p, c) \<in> set (walk_entry e)" "(p, c') \<in> set (walk es)"
      then obtain e' where "e' \<in> set es" "(p, c') \<in> set (walk_entry e')"
        by (induction es) auto
      moreover have "entry_name e = entry_name e'"
        using walk_entry_paths [OF a(1)] walk_entry_paths [OF \<open>(p, c') \<in> set (walk_entry e')\<close>] by simp
      ultimately have False using 4(3) by auto }
    then show ?thesis by auto
  qed
  then show ?case using 4 by auto
qed auto


lemma path_suffix_ext:
  assumes "stem \<noteq> []" "y \<noteq> []" "46 \<notin> set y"
  shows "path_suffix (stem @ 46 # y) = 46 # y"
proof -
  have "py_rfind 46 (stem @ 46 # y) = int (length stem)" using assms(3) by (rule py_rfind_last)
  then show ?thesis using assms(1,2) by (simp add: path_suffix_def)
qed

lemma path_suffix_no_dot: "46 \<notin> set n \<Longrightarrow> path_suffix n = []"
  by (simp add: path_suffix_def py_rfind_def)

subsection \<open>dirname walks up a path; canonical paths; listings of permuted trees\<close>

lemma py_dirname_split:
  assumes "47 \<notin> set t"
  shows "py_dirname (s @ 47 # t) =
           (if s @ [47] \<noteq> replicate (Suc (length s)) 47 then rev (dropWhile (\<lambda>c. c = 47) (rev (s @ [47])))
            else s @ [47])"
proof -
  have "py_rfind 47 (s @ 47 # t) = int (length s)" using assms by (rule py_rfind_last)
  moreover have "nat (int (length s) + 1) = Suc (length s)" by arith
  ultimately show ?thesis by (simp add: py_dirname_def Let_def)
qed

lemma py_dirname_no_slash: "47 \<notin> set p \<Longrightarrow> py_dirname p = []"
  by (simp add: py_dirname_def py_rfind_def)

lemma rstrip_shorter: "length (rev (dropWhile (\<lambda>c. c = 47) (rev (s @ [47::nat])))) < length (s @ [47])"
proof -
  have "length (dropWhile (\<lambda>c. c = (47::nat)) (rev s)) \<le> length (rev s)" by (rule length_dropWhile_le)
  then show ?thesis by simp
qed

lemma py_dirname_cases:
  "py_dirname p = [] \<or> (\<exists>s t. p = s @ 47 # t \<and> 47 \<notin> set t \<and>
     ((\<forall>c\<in>set s. c = 47) \<and> py_dirname p = s @ [47] \<or>
      \<not> (\<forall>c\<in>set s. c = 47) \<and> py_dirname p = rev (dropWhile (\<lambda>c. c = 47) (rev (s @ [47])))))"
proof (cases "47 \<in> set p")
  case True
  then obtain s t where p: "p = s @ 47 # t" "47 \<notin> set t" by (metis split_list_last)
  have e: "s @ [47] = replicate (Suc (length s)) 47 \<longleftrightarrow> (\<forall>c\<in>set s. c = 47)"
  proof
    assume "s @ [47] = replicate (Suc (length s)) 47"
    then have "\<forall>c\<in>set (s @ [47]). c = 47" by (metis in_set_replicate)
    then show "\<forall>c\<in>set s. c = 47" by simp
  next
    assume "\<forall>c\<in>set s. c = 47"
    then have "replicate (length (s @ [47])) 47 = s @ [47]" by (intro replicate_length_same) simp
    then show "s @ [47] = replicate (Suc (length s)) 47" by simp
  qed
  show ?thesis
  proof (cases "\<forall>c\<in>set s. c = 47")
    case True
    then have "py_dirname p = s @ [47]" using e py_dirname_split [OF p(2), of s] p(1) by simp
    then show ?thesis using p True by blast
  next
    case False
    then have "py_dirname p = rev (dropWhile (\<lambda>c. c = 47) (rev (s @ [47])))"
      using e py_dirname_split [OF p(2), of s] p(1) by (simp only: if_not_P) simp
    then show ?thesis using p False by blast
  qed
next
  case False
  then show ?thesis by (simp add: py_dirname_no_slash)
qed

lemma py_dirname_prefix: "prefix (py_dirname p) p"
  using py_dirname_cases [of p]
proof (elim disjE exE conjE)
  fix s t assume p: "p = s @ 47 # t" and d: "py_dirname p = rev (dropWhile (\<lambda>c. c = 47) (rev (s @ [47])))"
  have "prefix (s @ [47]) p" using p by simp
  then show ?thesis unfolding d using prefix_rstrip prefix_order.trans by blast
next
  fix s t assume p: "p = s @ 47 # t" and d: "py_dirname p = s @ [47]"
  then show ?thesis by simp
qed auto

lemma py_dirname_fixpoint: "py_dirname p = p \<Longrightarrow> \<forall>c\<in>set p. c = 47"
  using py_dirname_cases [of p]
proof (elim disjE exE conjE)
  fix s t assume fp: "py_dirname p = p" and p: "p = s @ 47 # t"
    and d: "py_dirname p = rev (dropWhile (\<lambda>c. c = 47) (rev (s @ [47])))"
  have "length (py_dirname p) < length (s @ [47])" unfolding d by (rule rstrip_shorter)
  then show ?thesis using fp p by simp
next
  fix s t assume fp: "py_dirname p = p" and "\<forall>c\<in>set s. c = 47" and d: "py_dirname p = s @ [47]"
  then show ?thesis by auto
qed auto

lemma abs_path_ne_root: "cs \<noteq> [] \<Longrightarrow> \<forall>x\<in>set cs. name_ok x \<Longrightarrow> abs_path cs \<noteq> [47] \<and> abs_path cs \<noteq> []"
  by (cases cs) (auto simp: abs_path_def name_ok_def)

lemma takeWhile_name:
  "47 \<notin> set x \<Longrightarrow> R = [] \<or> hd R = 47 \<Longrightarrow> takeWhile (\<lambda>c. c \<noteq> 47) (x @ R) = (x :: nat list)"
proof (induction x)
  case Nil
  then show ?case by (cases R) auto
qed auto

lemma concat_names_inj:
  "\<forall>x\<in>set a. name_ok x \<Longrightarrow> \<forall>x\<in>set b. name_ok x \<Longrightarrow>
     concat (map ((#) 47) a) = concat (map ((#) 47) b) \<Longrightarrow> a = b"
proof (induction a arbitrary: b)
  case Nil
  then show ?case by (cases b) auto
next
  case (Cons x a)
  then obtain y b' where b: "b = y # b'" by (cases b) auto
  let ?R = "concat (map ((#) 47) a)" and ?R' = "concat (map ((#) 47) b')"
  have hr: "?R = [] \<or> hd ?R = 47" "?R' = [] \<or> hd ?R' = 47" by (cases a; simp) (cases b'; simp)
  have eq: "x @ ?R = y @ ?R'" using Cons.prems(3) b by simp
  have "x = takeWhile (\<lambda>c. c \<noteq> 47) (x @ ?R)" using Cons.prems(1) hr(1) by (simp add: takeWhile_name name_ok_def)
  also have "\<dots> = y" unfolding eq using Cons.prems(2) hr(2) b by (simp add: takeWhile_name name_ok_def)
  finally have "x = y" .
  then have "?R = ?R'" using eq by simp
  then have "a = b'" using Cons.IH [of b'] Cons.prems(1,2) b by simp
  then show ?case using \<open>x = y\<close> b by simp
qed

lemma abs_path_inj:
  assumes "\<forall>x\<in>set a. name_ok x" "\<forall>x\<in>set b. name_ok x" "abs_path a = abs_path b"
  shows "a = b"
proof (cases "a = [] \<or> b = []")
  case True
  have "abs_path [] = [47]" by (simp add: abs_path_def)
  then show ?thesis using True assms abs_path_ne_root [of a] abs_path_ne_root [of b] by metis
next
  case False
  then show ?thesis using assms concat_names_inj by (simp add: abs_path_def)
qed

lemma names_take: "\<forall>x\<in>set cs. name_ok x \<Longrightarrow> \<forall>x\<in>set (take j cs). name_ok x"
  by (meson in_set_takeD)

lemma py_dirname_abs_take:
  "\<forall>x\<in>set cs. name_ok x \<Longrightarrow> i < length cs \<Longrightarrow> py_dirname (abs_path (take (Suc i) cs)) = abs_path (take i cs)"
  by (simp add: take_Suc_conv_app_nth py_dirname_abs_path_snoc names_take)

lemma abs_take_inj:
  "\<forall>x\<in>set cs. name_ok x \<Longrightarrow> i \<le> length cs \<Longrightarrow> j \<le> length cs \<Longrightarrow>
     abs_path (take i cs) = abs_path (take j cs) \<Longrightarrow> i = j"
  by (metis abs_path_inj length_take min.absorb2 names_take)

lemma walk_concat: "walk es = concat (map walk_entry es)"
  by (induction es) auto

lemma walk_dirs_concat: "walk_dirs es = concat (map walk_dirs_entry es)"
  by (induction es) auto

lemma tree_wf_iff: "tree_wf es \<longleftrightarrow> (\<forall>e\<in>set es. tree_wf_entry e) \<and> distinct (map entry_name es)"
  by (induction es) auto

lemma tree_wf_perm: "mset es' = mset es \<Longrightarrow> tree_wf es \<Longrightarrow> tree_wf es'"
  unfolding tree_wf_iff by (metis mset_eq_setD mset_map mset_eq_imp_distinct_iff)

lemma walk_dirs_entry_paths: "p \<in> set (walk_dirs_entry e) \<Longrightarrow> p \<noteq> [] \<and> hd p = entry_name e"
  by (cases e) auto

lemma tree_wf_walk_dirs_names:
  shows "tree_wf_entry e \<Longrightarrow> p \<in> set (walk_dirs_entry e) \<Longrightarrow> \<forall>x\<in>set p. name_ok x"
    and "tree_wf es \<Longrightarrow> p \<in> set (walk_dirs es) \<Longrightarrow> \<forall>x\<in>set p. name_ok x"
  by (induction e and es arbitrary: p and p rule: walk_dirs_entry_walk_dirs.induct) auto

lemma walk_perm:
  assumes m: "mset es' = mset es"
  shows "set (walk es') = set (walk es) \<and> set (walk_dirs es') = set (walk_dirs es) \<and>
     length (walk es') = length (walk es)"
proof -
  have s: "set es' = set es" using m by (rule mset_eq_setD)
  have "length (walk es') = sum_list (map (\<lambda>e. length (walk_entry e)) es')"
    by (simp add: walk_concat length_concat comp_def)
  also have "\<dots> = sum_list (map (\<lambda>e. length (walk_entry e)) es)" using m by (rule sum_list_perm)
  also have "\<dots> = length (walk es)" by (simp add: walk_concat length_concat comp_def)
  finally show ?thesis using s by (simp add: walk_concat walk_dirs_concat)
qed

lemma path_str_Cons: "p \<noteq> [] \<Longrightarrow> rel_path_str (n # p) = n @ [47] @ rel_path_str p"
  by (cases p) (simp_all add: rel_path_str_def)

lemma names_append: "(\<forall>x\<in>set (a @ b). name_ok x) \<longleftrightarrow> (\<forall>x\<in>set a. name_ok x) \<and> (\<forall>x\<in>set b. name_ok x)"
  by auto

lemma abs_path_append_inj:
  "\<forall>x\<in>set C. name_ok x \<Longrightarrow> \<forall>x\<in>set p. name_ok x \<Longrightarrow> \<forall>x\<in>set q. name_ok x \<Longrightarrow>
     abs_path (C @ p) = abs_path (C @ q) \<Longrightarrow> p = q"
  using abs_path_inj [of "C @ p" "C @ q"] by auto

lemma walk_names_hd:
  "tree_wf_entry e \<Longrightarrow> (p, c) \<in> set (walk_entry e) \<Longrightarrow> (\<forall>x\<in>set p. name_ok x) \<and> p \<noteq> [] \<and> hd p = entry_name e"
  using tree_wf_walk_names(1) walk_entry_paths by blast

lemma walk_dirs_names_hd:
  "tree_wf_entry e \<Longrightarrow> p \<in> set (walk_dirs_entry e) \<Longrightarrow> (\<forall>x\<in>set p. name_ok x) \<and> p \<noteq> [] \<and> hd p = entry_name e"
  using tree_wf_walk_dirs_names(1) walk_dirs_entry_paths by blast

lemma walk_paths_ne: "(p, c) \<in> set (walk es) \<Longrightarrow> p \<noteq> []"
  by (induction es) (auto dest: walk_entry_paths)

lemma tree_wf_entry_name: "tree_wf_entry e \<Longrightarrow> name_ok (entry_name e)"
  by (cases e) auto

lemma concat_names_str: "p \<noteq> [] \<Longrightarrow> concat (map ((#) 47) p) = 47 # rel_path_str p"
proof (induction p rule: induct_list012)
  case (3 x y ys)
  then show ?case by (simp add: rel_path_str_def)
qed (simp_all add: rel_path_str_def)

lemma abs_path_append_str: "C \<noteq> [] \<Longrightarrow> p \<noteq> [] \<Longrightarrow> abs_path (C @ p) = abs_path C @ [47] @ rel_path_str p"
  by (simp add: abs_path_def concat_names_str)

lemma prefix_abs_take: "C \<noteq> [] \<Longrightarrow> prefix (abs_path (take j C)) (abs_path C)"
proof (cases "take j C = []")
  case True
  assume "C \<noteq> []"
  then show ?thesis using True by (cases C) (simp_all add: abs_path_def)
next
  case False
  assume "C \<noteq> []"
  have "prefix (concat (map ((#) 47) (take j C))) (concat (map ((#) 47) C))"
    by (metis append_take_drop_id concat_append map_append prefixI)
  then show ?thesis using False \<open>C \<noteq> []\<close> by (simp add: abs_path_def)
qed

end
