(* ===== verification/DeployCheetah.thy ===== *)
theory DeployCheetah
  imports Paths
begin

text \<open>
  The deployer (src/deploy_cheetah.py). \<open>main\<close> looks for the script files below the local
  \<open>cheetah\<close> directory (\<open>find_script_files\<close>), lists them, and unless \<open>--dry-run\<close> is
  given copies them with \<open>scp\<close> to the remote path (\<open>scp_files\<close>), creating the remote
  directories first with \<open>ssh host 'mkdir -p ...'\<close>.

  The local directory is a tree of \<open>fs_entry\<close> (theory \<open>Paths\<close>); a file below it is
  named by its path relative to the directory, the list of its components, and its
  absolute path is \<open>cheetah_dir/\<close> followed by them. Every \<open>subprocess.run\<close> goes to an
  oracle \<open>procs\<close>: the \<open>n\<close>-th call (counted from 0) with its argument vector gives the
  return code and the captured stderr, or \<open>None\<close> when the call raises (\<open>ssh\<close> or
  \<open>scp\<close> not installed). The state is the list of argument vectors run so far. What
  the script prints is not modelled; the commands, \<open>scp_files\<close>'s result and the exit
  status are.
\<close>

subsection \<open>Finding the script files\<close>

definition SCRIPT_EXTENSIONS :: "ustr list" where
  "SCRIPT_EXTENSIONS = [u ''.py'', u ''.sh'', u ''.bash'', u ''.pl'', u ''.rb'', u ''.js'', u ''.ts'']"

definition REMOTE_PATH :: ustr where
  "REMOTE_PATH = u ''/home/dn/cheetah''"

text \<open>The test of the loop of \<open>find_script_files\<close> on a file with relative path \<open>p\<close>:
  a script extension in any case, or no suffix and the first two bytes \<open>#!\<close>
  (code points 35 and 33); a file that cannot be read is skipped.\<close>

definition is_script_file :: "ustr list \<Rightarrow> nat list option \<Rightarrow> bool" where
  "is_script_file p content =
     (if py_lower (path_suffix (last p)) \<in> set SCRIPT_EXTENSIONS then True
      else if path_suffix (last p) = [] then
        (case content of None \<Rightarrow> False | Some first_bytes \<Rightarrow> take 2 first_bytes = [35, 33])
      else False)"

text \<open>\<open>sorted\<close> compares the paths component by component; all of them start with the
  directory, so their order is the order of the relative paths.\<close>

definition find_script_files :: "bool \<Rightarrow> fs_entry list \<Rightarrow> ustr list list" where
  "find_script_files exists es =
     (if \<not> exists then []
      else sort (map fst (filter (\<lambda>(p, content). is_script_file p content) (walk es))))"

subsection \<open>Copying\<close>

type_synonym procs = "nat \<Rightarrow> ustr list \<Rightarrow> (int \<times> ustr) option"

type_synonym 'a deploy = "('a, ustr list list) st_exc"

definition subprocess_run :: "procs \<Rightarrow> ustr list \<Rightarrow> (int \<times> ustr) deploy" where
  "subprocess_run procs argv runs = (procs (length runs) argv, runs @ [argv])"

definition mkdir_argv :: "ustr \<Rightarrow> ustr \<Rightarrow> ustr list" where
  "mkdir_argv hostname path = [u ''ssh'', hostname, u ''mkdir -p '' @ path]"

definition scp_argv :: "ustr \<Rightarrow> ustr \<Rightarrow> ustr \<Rightarrow> ustr list \<Rightarrow> ustr list" where
  "scp_argv cheetah_dir hostname remote_path rel =
     [u ''scp'', cheetah_dir @ [47] @ rel_path_str rel, hostname @ [58] @ remote_path @ [47] @ rel_path_str rel]"

text \<open>The loop of \<open>scp_files\<close>: \<open>relative_path.parent != Path('.')\<close> holds when the path
  has more than one component; the result of the subdirectory's \<open>mkdir\<close> is not looked at.\<close>

fun scp_each :: "procs \<Rightarrow> ustr \<Rightarrow> ustr \<Rightarrow> ustr \<Rightarrow> ustr list list \<Rightarrow> bool \<Rightarrow> bool deploy" where
  "scp_each procs hostname remote_path cheetah_dir [] success = exc_return success"
| "scp_each procs hostname remote_path cheetah_dir (rel # files) success =
     exc_bind
       (if butlast rel \<noteq> [] then
          exc_bind (subprocess_run procs (mkdir_argv hostname (remote_path @ [47] @ rel_path_str (butlast rel))))
            (\<lambda>_. exc_return ())
        else exc_return ())
       (\<lambda>_. exc_bind (subprocess_run procs (scp_argv cheetah_dir hostname remote_path rel))
              (\<lambda>(returncode, stderr).
                 scp_each procs hostname remote_path cheetah_dir files
                   (if returncode \<noteq> 0 then False else success)))"

definition scp_files :: "procs \<Rightarrow> ustr list list \<Rightarrow> ustr \<Rightarrow> ustr \<Rightarrow> ustr \<Rightarrow> bool deploy" where
  "scp_files procs files hostname remote_path cheetah_dir =
     (if files = [] then exc_return True
      else exc_bind (subprocess_run procs (mkdir_argv hostname remote_path)) (\<lambda>(returncode, stderr).
             if returncode \<noteq> 0 then exc_return False
             else scp_each procs hostname remote_path cheetah_dir files True))"

subsection \<open>The script\<close>

text \<open>How the script ends: \<open>sys.exit\<close> with a status, or an exception of
  \<open>subprocess.run\<close> escapes (a traceback, exit status 1).\<close>

datatype deploy_exit = Deploy_exit int | Deploy_uncaught

text \<open>\<open>main\<close> after \<open>parse_args\<close>: whether the \<open>cheetah\<close> directory exists, its tree, its
  path, the host, \<open>--dry-run\<close> and \<open>--remote-path\<close> (\<open>None\<close> when not given).\<close>

definition deploy_main ::
  "procs \<Rightarrow> bool \<Rightarrow> fs_entry list \<Rightarrow> ustr \<Rightarrow> ustr \<Rightarrow> bool \<Rightarrow> ustr option \<Rightarrow> deploy_exit \<times> ustr list list" where
  "deploy_main procs cheetah_exists tree cheetah_dir hostname dry_run remote_path_arg =
     (let remote_path = (case remote_path_arg of None \<Rightarrow> REMOTE_PATH | Some r \<Rightarrow> r) in
      if \<not> cheetah_exists then (Deploy_exit 1, [])
      else let script_files = find_script_files cheetah_exists tree in
        if script_files = [] then (Deploy_exit 0, [])
        else if dry_run then (Deploy_exit 0, [])
        else case scp_files procs script_files hostname remote_path cheetah_dir [] of
               (None, runs) \<Rightarrow> (Deploy_uncaught, runs)
             | (Some success, runs) \<Rightarrow> (Deploy_exit (if success then 0 else 1), runs))"

subsection \<open>Specifications\<close>

text \<open>The directory a file is copied into: \<open>remote_path\<close> followed by the relative path
  of the file's parent, when it has one.\<close>

definition remote_parent :: "ustr \<Rightarrow> ustr list \<Rightarrow> ustr" where
  "remote_parent remote_path rel =
     (if butlast rel \<noteq> [] then remote_path @ [47] @ rel_path_str (butlast rel) else remote_path)"

text \<open>The commands the loop runs for one file.\<close>

definition file_commands :: "ustr \<Rightarrow> ustr \<Rightarrow> ustr \<Rightarrow> ustr list \<Rightarrow> ustr list list" where
  "file_commands cheetah_dir hostname remote_path rel =
     (if butlast rel \<noteq> [] then [mkdir_argv hostname (remote_parent remote_path rel)] else []) @
     [scp_argv cheetah_dir hostname remote_path rel]"

text \<open>The return code of the \<open>k\<close>-th command of a run.\<close>

definition ret_code :: "procs \<Rightarrow> ustr list list \<Rightarrow> nat \<Rightarrow> int" where
  "ret_code procs runs k = fst (the (procs k (runs ! k)))"

text \<open>Every \<open>scp\<close> from the \<open>lo\<close>-th command of a run on returned 0.\<close>

definition scp_codes_ok :: "procs \<Rightarrow> ustr list list \<Rightarrow> nat \<Rightarrow> bool" where
  "scp_codes_ok procs runs lo = (\<forall>k. lo \<le> k \<and> k < length runs \<longrightarrow> hd (runs ! k) = u ''scp'' \<longrightarrow> ret_code procs runs k = 0)"

subsection \<open>The runs of the loop\<close>

lemma scp_codes_ok_split:
  assumes "lo \<le> m"
  shows "scp_codes_ok procs runs lo \<longleftrightarrow>
           (\<forall>k. lo \<le> k \<and> k < m \<and> k < length runs \<longrightarrow> hd (runs ! k) = u ''scp'' \<longrightarrow> ret_code procs runs k = 0) \<and>
           scp_codes_ok procs runs m"
  using assms unfolding scp_codes_ok_def by (auto simp: not_le) (meson le_trans not_le)

lemma hd_mkdir_argv [simp]: "hd (mkdir_argv h p) \<noteq> u ''scp''"
  by (simp add: mkdir_argv_def u_def)

lemma hd_scp_argv [simp]: "hd (scp_argv d h r rel) = u ''scp''"
  by (simp add: scp_argv_def)

lemma scp_each_total:
  assumes "\<forall>n a. procs n a \<noteq> None"
  shows "scp_each procs h r d files success runs =
           (Some (success \<and> scp_codes_ok procs (runs @ concat (map (file_commands d h r) files)) (length runs)),
            runs @ concat (map (file_commands d h r) files))"
proof (induction files arbitrary: success runs)
  case Nil
  then show ?case by (simp add: scp_codes_ok_def)
next
  case (Cons rel files)
  let ?F = "runs @ concat (map (file_commands d h r) (rel # files))"
  let ?runs2 = "runs @ file_commands d h r rel"
  have tot: "\<And>n a. \<exists>rc err. procs n a = Some (rc, err)" using assms by (metis not_None_eq prod.exhaust)
  obtain rc err where p: "procs (length ?runs2 - 1) (scp_argv d h r rel) = Some (rc, err)"
    using tot by blast
  have F: "?F = ?runs2 @ concat (map (file_commands d h r) files)" by simp
  have step: "scp_each procs h r d (rel # files) success runs =
                scp_each procs h r d files (if rc \<noteq> 0 then False else success) ?runs2"
  proof (cases "butlast rel = []")
    case True
    then show ?thesis using p by (simp add: subprocess_run_def file_commands_def)
  next
    case False
    obtain m where "procs (length runs) (mkdir_argv h (r @ 47 # rel_path_str (butlast rel))) = Some m"
      using tot by blast
    then show ?thesis using p False by (simp add: subprocess_run_def file_commands_def remote_parent_def)
  qed
  have mid: "(\<forall>k. length runs \<le> k \<and> k < length ?runs2 \<and> k < length ?F \<longrightarrow> hd (?F ! k) = u ''scp'' \<longrightarrow> ret_code procs ?F k = 0)
               \<longleftrightarrow> rc = 0"
  proof
    let ?j = "length ?runs2 - 1"
    have sc: "?F ! ?j = scp_argv d h r rel" by (simp add: F nth_append file_commands_def)
    have mk: "length runs \<le> k \<Longrightarrow> k < ?j \<Longrightarrow> ?F ! k = mkdir_argv h (remote_parent r rel)" for k
      by (auto simp: F nth_append file_commands_def split: if_splits)
    have j: "?j < length ?F" "length runs \<le> ?j" "?j < length ?runs2"
      by (simp_all add: file_commands_def)
    { assume A: "\<forall>k. length runs \<le> k \<and> k < length ?runs2 \<and> k < length ?F \<longrightarrow> hd (?F ! k) = u ''scp'' \<longrightarrow> ret_code procs ?F k = 0"
      have "ret_code procs ?F ?j = 0" using A j sc by simp
      then show "rc = 0" using p sc by (simp add: ret_code_def) }
    { assume "rc = 0"
      show "\<forall>k. length runs \<le> k \<and> k < length ?runs2 \<and> k < length ?F \<longrightarrow> hd (?F ! k) = u ''scp'' \<longrightarrow> ret_code procs ?F k = 0"
      proof (intro allI impI)
        fix k assume k: "length runs \<le> k \<and> k < length ?runs2 \<and> k < length ?F" and hd: "hd (?F ! k) = u ''scp''"
        have "k = ?j"
        proof (rule ccontr)
          assume "k \<noteq> ?j"
          then have "k < ?j" using k by linarith
          then show False using hd mk [of k] k by simp
        qed
        then show "ret_code procs ?F k = 0" using p sc \<open>rc = 0\<close> by (simp add: ret_code_def)
      qed }
  qed
  show ?case
    unfolding step Cons.IH using scp_codes_ok_split [of "length runs" "length ?runs2" procs ?F] mid
    by (auto simp: F)
qed


lemma scp_files_total:
  assumes "\<forall>n a. procs n a \<noteq> None" "files \<noteq> []"
  shows "scp_files procs files h r d runs =
           (if ret_code procs (runs @ [mkdir_argv h r]) (length runs) \<noteq> 0 then (Some False, runs @ [mkdir_argv h r])
            else (Some (scp_codes_ok procs (runs @ mkdir_argv h r # concat (map (file_commands d h r) files)) (Suc (length runs))),
                  runs @ mkdir_argv h r # concat (map (file_commands d h r) files)))"
proof -
  obtain rc err where p: "procs (length runs) (mkdir_argv h r) = Some (rc, err)"
    using assms(1) by (metis not_None_eq prod.exhaust)
  show ?thesis
    using assms p scp_each_total [OF assms(1), of h r d files True "runs @ [mkdir_argv h r]"]
    by (simp add: scp_files_def subprocess_run_def ret_code_def)
qed

lemma file_commands_top: "butlast rel = [] \<Longrightarrow> file_commands d h r rel = [scp_argv d h r rel]"
  by (simp add: file_commands_def)

lemma file_commands_sub:
  "butlast rel \<noteq> [] \<Longrightarrow> file_commands d h r rel =
     [mkdir_argv h (r @ [47] @ rel_path_str (butlast rel)), scp_argv d h r rel]"
  by (simp add: file_commands_def remote_parent_def)

lemma scp_each_prefix:
  "\<exists>m. snd (scp_each procs h r d files success runs) = runs @ take m (concat (map (file_commands d h r) files))"
proof (induction files arbitrary: success runs)
  case Nil
  then show ?case by simp
next
  case (Cons rel files)
  let ?rest = "concat (map (file_commands d h r) files)"
  let ?sc = "scp_argv d h r rel"
  have after: "\<exists>m. snd (exc_bind (subprocess_run procs ?sc) (\<lambda>(returncode, stderr).
                 scp_each procs h r d files (if returncode \<noteq> 0 then False else success)) rs) =
             rs @ take m (?sc # ?rest)" for rs
  proof (cases "procs (length rs) ?sc")
    case None
    then show ?thesis by (intro exI [of _ 1]) (simp add: subprocess_run_def)
  next
    case (Some a)
    then obtain rc e where "procs (length rs) ?sc = Some (rc, e)" by (cases a) auto
    moreover obtain m where "snd (scp_each procs h r d files (if rc \<noteq> 0 then False else success) (rs @ [?sc])) =
                              (rs @ [?sc]) @ take m ?rest"
      using Cons.IH by blast
    ultimately show ?thesis by (intro exI [of _ "Suc m"]) (simp add: subprocess_run_def)
  qed
  show ?case
  proof (cases "butlast rel = []")
    case True
    then show ?thesis using after [of runs] by (simp add: file_commands_top)
  next
    case False
    let ?mk = "mkdir_argv h (r @ [47] @ rel_path_str (butlast rel))"
    show ?thesis
    proof (cases "procs (length runs) ?mk")
      case None
      then show ?thesis using False
        by (intro exI [of _ 1]) (simp add: subprocess_run_def file_commands_sub)
    next
      case (Some a)
      then obtain m where "snd (exc_bind (subprocess_run procs ?sc) (\<lambda>(returncode, stderr).
                 scp_each procs h r d files (if returncode \<noteq> 0 then False else success)) (runs @ [?mk])) =
             (runs @ [?mk]) @ take m (?sc # ?rest)"
        using after by blast
      moreover have "snd (scp_each procs h r d (rel # files) success runs) =
          snd (exc_bind (subprocess_run procs ?sc) (\<lambda>(returncode, stderr).
                 scp_each procs h r d files (if returncode \<noteq> 0 then False else success)) (runs @ [?mk]))"
        using Some False by (simp add: subprocess_run_def del: append.simps append_Cons)
      ultimately show ?thesis using False
        by (intro exI [of _ "Suc m"]) (simp add: file_commands_sub)
    qed
  qed
qed


lemma scp_files_prefix:
  "\<exists>m. snd (scp_files procs files h r d []) = take m (mkdir_argv h r # concat (map (file_commands d h r) files))"
proof (cases "files = []")
  case True
  then show ?thesis by (intro exI [of _ 0]) (simp add: scp_files_def)
next
  case False
  show ?thesis
  proof (cases "procs 0 (mkdir_argv h r)")
    case None
    then show ?thesis using False by (intro exI [of _ 1]) (simp add: scp_files_def subprocess_run_def)
  next
    case (Some a)
    then obtain rc e where p: "procs 0 (mkdir_argv h r) = Some (rc, e)" by (cases a) auto
    obtain m where "snd (scp_each procs h r d files True [mkdir_argv h r]) =
                      [mkdir_argv h r] @ take m (concat (map (file_commands d h r) files))"
      using scp_each_prefix by blast
    then show ?thesis using False p
      by (cases "rc = 0") (auto simp: scp_files_def subprocess_run_def intro: exI [of _ 1] exI [of _ "Suc m"])
  qed
qed

lemma plan_mkdir_before_scp:
  assumes "k < length P" "P = mkdir_argv h r # concat (map (file_commands d h r) files)" "hd (P ! k) = u ''scp''"
  shows "\<exists>rel\<in>set files. P ! k = scp_argv d h r rel \<and> (\<exists>j<k. P ! j = mkdir_argv h (remote_parent r rel))"
proof -
  obtain k' where k: "k = Suc k'" using assms(2,3) by (cases k) (auto simp: mkdir_argv_def u_def)
  then have "k' < length (concat (map (file_commands d h r) files))" using assms(1,2) by simp
  then obtain pre rel post i where h: "files = pre @ rel # post" "i < length (file_commands d h r rel)"
      "k' = length (concat (map (file_commands d h r) pre)) + i"
      "concat (map (file_commands d h r) files) ! k' = file_commands d h r rel ! i"
    using concat_map_nth by blast
  have Pk: "P ! k = file_commands d h r rel ! i" using h(4) assms(2) k by simp
  have rel: "rel \<in> set files" using h(1) by simp
  show ?thesis
  proof (cases "butlast rel = []")
    case True
    then have "i = 0" using h(2) by (simp add: file_commands_top)
    then show ?thesis using rel True Pk assms(2) k
      by (intro bexI [OF _ rel] conjI exI [of _ 0]) (simp_all add: file_commands_top remote_parent_def)
  next
    case False
    then have "i = 1" using h(2) Pk assms(3) by (cases i) (auto simp: file_commands_sub mkdir_argv_def u_def)
    have "P ! k' = file_commands d h r rel ! 0"
    proof -
      have "k' = Suc (length (concat (map (file_commands d h r) pre)))" using h(3) \<open>i = 1\<close> by simp
      then show ?thesis using assms(2) h(1) k by (simp add: nth_append file_commands_sub False)
    qed
    then show ?thesis using rel False Pk \<open>i = 1\<close> k
      by (intro bexI [OF _ rel] conjI exI [of _ k']) (simp_all add: file_commands_sub remote_parent_def)
  qed
qed

lemma py_lower_cp_dot: "py_lower_cp c = 46 \<longleftrightarrow> c = 46"
  by (auto simp: py_lower_cp_def)

lemma script_ext_shape: "py_lower e \<in> set SCRIPT_EXTENSIONS \<Longrightarrow> \<exists>y. e = 46 # y \<and> y \<noteq> [] \<and> 46 \<notin> set y"
proof -
  assume a: "py_lower e \<in> set SCRIPT_EXTENSIONS"
  then obtain x where x: "py_lower e = 46 # x" "x \<noteq> []" "46 \<notin> set x"
    by (auto simp: SCRIPT_EXTENSIONS_def u_def)
  then obtain c y where e: "e = c # y" "py_lower_cp c = 46" "map py_lower_cp y = x"
    by (cases e) (auto simp: py_lower_def)
  have "46 \<notin> set y"
  proof
    assume "46 \<in> set y"
    then have "py_lower_cp 46 \<in> set x" using e(3) by auto
    then show False using x(3) by (simp add: py_lower_cp_def)
  qed
  then show ?thesis using e x(2) py_lower_cp_dot by auto
qed

subsection \<open>Properties\<close>

text \<open>C26: a file whose name is a non-empty stem followed by a script extension,
  in any case, is selected whatever its contents; a file whose name has no dot is selected
  exactly when it can be read and starts with #!.\<close>

theorem is_script_file_selects:
  "(stem \<noteq> [] \<and> py_lower e \<in> set SCRIPT_EXTENSIONS \<longrightarrow> is_script_file (p @ [stem @ e]) c) \<and>
   (46 \<notin> set n \<longrightarrow> is_script_file (p @ [n]) c = (\<exists>b. c = Some b \<and> take 2 b = [35, 33]))"
proof (intro conjI impI)
  assume a: "stem \<noteq> [] \<and> py_lower e \<in> set SCRIPT_EXTENSIONS"
  then obtain y where "e = 46 # y" "y \<noteq> []" "46 \<notin> set y" using script_ext_shape by blast
  then show "is_script_file (p @ [stem @ e]) c" using a path_suffix_ext by (simp add: is_script_file_def)
next
  assume "46 \<notin> set n"
  then show "is_script_file (p @ [n]) c = (\<exists>b. c = Some b \<and> take 2 b = [35, 33])"
    by (simp add: is_script_file_def path_suffix_no_dot py_lower_def SCRIPT_EXTENSIONS_def u_def split: option.split)
qed

theorem is_script_file_selects_witness:
  "is_script_file [u ''tools'', u ''run.SH''] None \<and> is_script_file [u ''deploy''] (Some [35, 33, 47]) \<and>
   \<not> is_script_file [u ''Makefile''] (Some [97])"
proof -
  have "py_lower (u ''.SH'') \<in> set SCRIPT_EXTENSIONS" by (simp add: pystr_eval SCRIPT_EXTENSIONS_def)
  moreover have "(46::nat) \<notin> set (u ''deploy'')" "(46::nat) \<notin> set (u ''Makefile'')" by (simp_all add: u_def)
  ultimately show ?thesis
    using is_script_file_selects [where stem = "u ''run''" and e = "u ''.SH''" and p = "[u ''tools'']" and c = None]
          is_script_file_selects [where p = "[]" and c = "Some [35, 33, 47]" and n = "u ''deploy''"]
          is_script_file_selects [where p = "[]" and c = "Some [97]" and n = "u ''Makefile''"]
    by (simp_all add: u_def)
qed


text \<open>C25: on a well-formed tree, find_script_files lists every file the selection test accepts, each once, sorted.\<close>

theorem find_script_files_spec:
  "tree_wf tree \<Longrightarrow>
     sorted (find_script_files True tree) \<and> distinct (find_script_files True tree) \<and>
     set (find_script_files True tree) = {p. \<exists>c. (p, c) \<in> set (walk tree) \<and> is_script_file p c}"
proof -
  assume wf: "tree_wf tree"
  let ?xs = "filter (\<lambda>(p, content). is_script_file p content) (walk tree)"
  have "distinct (map fst (walk tree))" using wf by (rule tree_wf_walk_distinct(2))
  then have "distinct (map fst ?xs)" by (rule distinct_map_filter)
  moreover have "set (map fst ?xs) = {p. \<exists>c. (p, c) \<in> set (walk tree) \<and> is_script_file p c}"
    by force
  ultimately show ?thesis by (simp add: find_script_files_def)
qed

theorem find_script_files_spec_witness:
  "sorted (find_script_files True [Fs_file (u ''b.py'') (Some []), Fs_dir (u ''lib'') [Fs_file (u ''a.sh'') None, Fs_file (u ''x.txt'') None]]) \<and> distinct (find_script_files True [Fs_file (u ''b.py'') (Some []), Fs_dir (u ''lib'') [Fs_file (u ''a.sh'') None, Fs_file (u ''x.txt'') None]]) \<and>
   set (find_script_files True [Fs_file (u ''b.py'') (Some []), Fs_dir (u ''lib'') [Fs_file (u ''a.sh'') None, Fs_file (u ''x.txt'') None]]) = {p. \<exists>c. (p, c) \<in> set (walk [Fs_file (u ''b.py'') (Some []), Fs_dir (u ''lib'') [Fs_file (u ''a.sh'') None, Fs_file (u ''x.txt'') None]]) \<and> is_script_file p c}"
proof -
  have "tree_wf [Fs_file (u ''b.py'') (Some []), Fs_dir (u ''lib'') [Fs_file (u ''a.sh'') None, Fs_file (u ''x.txt'') None]]" by (simp add: name_ok_def u_def)
  then show ?thesis by (rule find_script_files_spec)
qed


text \<open>C23: when every command completes, main exits 1 without a command if the cheetah directory is missing, 0 without a command on a dry run or when no script is found, 1 after the single mkdir when creating the remote directory fails, and otherwise runs the remote mkdir and, per file in order, the mkdir of its subdirectory and its scp, exiting 0 exactly when every scp returned 0.\<close>

theorem deploy_main_outcome:
  assumes "\<forall>n argv. procs n argv \<noteq> None"
      and "r = (case rp of None \<Rightarrow> REMOTE_PATH | Some x \<Rightarrow> x)"
      and "files = find_script_files True tree"
  shows "deploy_main procs ex tree d h dry rp =
           (if \<not> ex then (Deploy_exit 1, [])
            else if files = [] \<or> dry then (Deploy_exit 0, [])
            else if ret_code procs [mkdir_argv h r] 0 \<noteq> 0 then (Deploy_exit 1, [mkdir_argv h r])
            else (Deploy_exit (if scp_codes_ok procs (mkdir_argv h r # concat (map (file_commands d h r) files)) 1
                               then 0 else 1),
                  mkdir_argv h r # concat (map (file_commands d h r) files)))"
proof (cases "ex \<and> files \<noteq> [] \<and> \<not> dry")
  case True
  then show ?thesis
    using scp_files_total [OF assms(1), of files h r d "[]"] assms(2,3)
    by (auto simp: deploy_main_def Let_def)
next
  case False
  then show ?thesis using assms(3) by (auto simp: deploy_main_def Let_def find_script_files_def)
qed

theorem deploy_main_outcome_witness:
  "deploy_main (\<lambda>n argv. Some (if argv ! 0 = u ''scp'' \<and> n = 3 then 1 else 0, [])) True
     [Fs_file (u ''b.py'') (Some []), Fs_dir (u ''lib'') [Fs_file (u ''a.sh'') None]] (u ''/src/cheetah'') (u ''host'') False None =
   (Deploy_exit 1,
    [mkdir_argv (u ''host'') REMOTE_PATH, scp_argv (u ''/src/cheetah'') (u ''host'') REMOTE_PATH [u ''b.py''],
     mkdir_argv (u ''host'') (REMOTE_PATH @ u ''/lib''),
     scp_argv (u ''/src/cheetah'') (u ''host'') REMOTE_PATH [u ''lib'', u ''a.sh'']])"
proof -
  let ?procs = "\<lambda>n argv. Some (if argv ! 0 = u ''scp'' \<and> n = 3 then 1 else 0, [])"
  let ?tree = "[Fs_file (u ''b.py'') (Some []), Fs_dir (u ''lib'') [Fs_file (u ''a.sh'') None]]"
  have f: "find_script_files True ?tree = [[u ''b.py''], [u ''lib'', u ''a.sh'']]"
    by (simp add: find_script_files_def is_script_file_def SCRIPT_EXTENSIONS_def pystr_eval)
  have "\<forall>n argv. ?procs n argv \<noteq> None" by simp
  from deploy_main_outcome [OF this refl f [symmetric], of True "u ''/src/cheetah''" "u ''host''" False]
  show ?thesis
    by (simp add: ret_code_def scp_codes_ok_def file_commands_def remote_parent_def mkdir_argv_def scp_argv_def
                  pystr_eval REMOTE_PATH_def nth_Cons' )
qed


text \<open>C24: on every run, whatever the commands return or raise, every scp command main runs copies one of the script files found to its place under the remote path, and an earlier command ran mkdir -p of the remote directory it is copied into.\<close>

theorem deploy_main_mkdir_before_scp:
  assumes "deploy_main procs ex tree d h dry rp = (status, runs)"
      and "r = (case rp of None \<Rightarrow> REMOTE_PATH | Some x \<Rightarrow> x)"
      and "k < length runs" and "hd (runs ! k) = u ''scp''"
  shows "\<exists>rel\<in>set (find_script_files True tree). runs ! k = scp_argv d h r rel \<and>
           (\<exists>j<k. runs ! j = mkdir_argv h (remote_parent r rel))"
proof -
  have ex: "ex" and runs: "runs = snd (scp_files procs (find_script_files True tree) h r d [])"
    using assms(1-3) by (auto simp: deploy_main_def Let_def split: if_splits prod.splits option.splits)
  obtain m where m: "runs = take m (mkdir_argv h r # concat (map (file_commands d h r) (find_script_files True tree)))"
    using scp_files_prefix runs by blast
  let ?P = "mkdir_argv h r # concat (map (file_commands d h r) (find_script_files True tree))"
  have k: "k < length ?P" "runs ! k = ?P ! k" using assms(3) m by auto
  then obtain rel j where rel: "rel \<in> set (find_script_files True tree)" "?P ! k = scp_argv d h r rel"
      and j: "j < k" "?P ! j = mkdir_argv h (remote_parent r rel)"
    using plan_mkdir_before_scp [OF k(1) refl] assms(4) by auto
  have "runs ! j = ?P ! j" using j(1) k(1) assms(3) m by auto
  then show ?thesis using rel j k(2) by (intro bexI [OF _ rel(1)] conjI exI [of _ j]) auto
qed

theorem deploy_main_mkdir_before_scp_witness:
  "\<exists>rel\<in>set (find_script_files True [Fs_dir (u ''lib'') [Fs_file (u ''a.sh'') None]]).
     snd (deploy_main (\<lambda>n argv. Some (0, [])) True [Fs_dir (u ''lib'') [Fs_file (u ''a.sh'') None]]
            (u ''/src'') (u ''host'') False None) ! 2 = scp_argv (u ''/src'') (u ''host'') REMOTE_PATH rel \<and>
     (\<exists>j<2. snd (deploy_main (\<lambda>n argv. Some (0, [])) True [Fs_dir (u ''lib'') [Fs_file (u ''a.sh'') None]]
            (u ''/src'') (u ''host'') False None) ! j = mkdir_argv (u ''host'') (remote_parent REMOTE_PATH rel))"
proof -
  let ?t = "[Fs_dir (u ''lib'') [Fs_file (u ''a.sh'') None]]"
  let ?run = "deploy_main (\<lambda>n argv. Some (0, [])) True ?t (u ''/src'') (u ''host'') False None"
  have f: "find_script_files True ?t = [[u ''lib'', u ''a.sh'']]"
    by (simp add: find_script_files_def is_script_file_def SCRIPT_EXTENSIONS_def pystr_eval)
  have r: "?run = (Deploy_exit 0, [mkdir_argv (u ''host'') REMOTE_PATH,
                     mkdir_argv (u ''host'') (remote_parent REMOTE_PATH [u ''lib'', u ''a.sh'']),
                     scp_argv (u ''/src'') (u ''host'') REMOTE_PATH [u ''lib'', u ''a.sh'']])"
    by (simp add: deploy_main_def f scp_files_def subprocess_run_def file_commands_def remote_parent_def)
  have "hd (snd ?run ! 2) = u ''scp''" by (simp add: r)
  moreover have "2 < length (snd ?run)" by (simp add: r)
  ultimately show ?thesis
    using deploy_main_mkdir_before_scp [of "\<lambda>n argv. Some (0, [])" True ?t "u ''/src''" "u ''host''" False None
            "fst ?run" "snd ?run" REMOTE_PATH 2]
    by simp
qed

text \<open>the remote command of the mkdir -p calls is the path pasted after "mkdir -p " without quoting, so the remote shell splits it at whitespace: a remote directory whose path contains a space is created as several directories.\<close>

theorem deploy_mkdir_word_split:
  "py_split_ws (last (mkdir_argv h p)) = u ''mkdir'' # u ''-p'' # py_split_ws p"
  by (simp add: mkdir_argv_def py_split_ws_def u_def is_space_def)

end
