(* ===== verification/MachineCopy.thy ===== *)
theory MachineCopy
  imports Paths MachineClean
begin

text \<open>
  The machine file copier (src/machine_copy_files.py). \<open>MachineCopyFiles.run_copy\<close>
  checks the local folder, opens an SSH connection and an SFTP session, copies the local
  folder recursively to \<open>REMOTE_FOLDER\<close> (\<open>_copy_recursive\<close>, which creates each remote
  directory with \<open>_remote_mkdir_p\<close> and puts each file), and closes the session in a
  \<open>finally\<close> clause.

  The remote side is an explicit SFTP file system \<open>remote_fs\<close>: the set of its
  directories and a map from each file to the local file it was last put from. Paths
  are the strings the script sends; the server is assumed to name each file by one
  canonical string (no doubled or trailing slash), which is what the script sends when
  \<open>REMOTE_FOLDER\<close> is canonical. \<open>stat\<close> finds a directory or a file, \<open>mkdir\<close> needs the
  parent directory and a free name, \<open>put\<close> needs the parent directory and a name that is
  not a directory; a failing call raises, as paramiko's \<open>IOError\<close> does. Network errors
  and permissions are not modelled. The local folder is a tree of \<open>fs_entry\<close> (theory
  \<open>Paths\<close>). The \<open>while True\<close> loop of \<open>_remote_mkdir_p\<close> is a
  \<open>partial_function (option)\<close>: \<open>None\<close> is a run that never ends. A method is a
  \<open>'a cp\<close>: \<open>None\<close> when it does not return, otherwise its value (\<open>None\<close> when an
  exception escapes) and the object after it. Printing is not modelled.
\<close>

definition SSH_PASSWORD :: ustr where
  "SSH_PASSWORD = u ''drivenets''"

definition REMOTE_FOLDER :: ustr where
  "REMOTE_FOLDER = u ''/home/dn/yossi_moz_content''"

subsection \<open>The remote file system and the object\<close>

record remote_fs =
  r_dirs :: "ustr set"
  r_files :: "ustr \<Rightarrow> ustr option"

record machine_copy =
  cp_hostname :: ustr
  cp_password :: ustr
  cp_username :: ustr
  cp_verbose :: bool
  cp_client :: client_state
  sftp_open :: bool
  files_copied :: nat
  dirs_created :: nat
  remote :: remote_fs

definition copy_init :: "ustr \<Rightarrow> ustr \<Rightarrow> ustr \<Rightarrow> bool \<Rightarrow> remote_fs \<Rightarrow> machine_copy" where
  "copy_init hostname password username verbose fs =
     \<lparr>cp_hostname = hostname, cp_password = password, cp_username = username, cp_verbose = verbose,
      cp_client = No_client, sftp_open = False, files_copied = 0, dirs_created = 0, remote = fs\<rparr>"

text \<open>\<open>sftp.stat(p)\<close> succeeds, or raises \<open>FileNotFoundError\<close>.\<close>

definition sftp_stat :: "remote_fs \<Rightarrow> ustr \<Rightarrow> bool" where
  "sftp_stat fs p \<longleftrightarrow> p \<in> r_dirs fs \<or> r_files fs p \<noteq> None"

definition sftp_mkdir :: "ustr \<Rightarrow> (unit, remote_fs) st_exc" where
  "sftp_mkdir d fs =
     (if py_dirname d \<in> r_dirs fs \<and> \<not> sftp_stat fs d then (Some (), fs\<lparr>r_dirs := insert d (r_dirs fs)\<rparr>)
      else (None, fs))"

definition sftp_put :: "ustr \<Rightarrow> ustr \<Rightarrow> (unit, remote_fs) st_exc" where
  "sftp_put local_path remote_path fs =
     (if py_dirname remote_path \<in> r_dirs fs \<and> remote_path \<notin> r_dirs fs
      then (Some (), fs\<lparr>r_files := (r_files fs)(remote_path \<mapsto> local_path)\<rparr>)
      else (None, fs))"

text \<open>A remote call on the object's SFTP session.\<close>

definition on_remote :: "(unit, remote_fs) st_exc \<Rightarrow> (unit, machine_copy) st_exc" where
  "on_remote m st = (case m (remote st) of (r, fs) \<Rightarrow> (r, st\<lparr>remote := fs\<rparr>))"

subsection \<open>Connecting\<close>

text \<open>How \<open>connect\<close> ends: both steps succeed, \<open>client.connect\<close> raises, or the connection
  is made and \<open>open_sftp\<close> raises (every exception is caught and reported the same way).\<close>

datatype copy_connect_outcome = Copy_connected | Copy_connect_failed | Copy_sftp_failed

definition copy_connect :: "copy_connect_outcome \<Rightarrow> machine_copy \<Rightarrow> bool \<times> machine_copy" where
  "copy_connect conn st =
     (case conn of
        Copy_connected \<Rightarrow> (True, st\<lparr>cp_client := Connected, sftp_open := True\<rparr>)
      | Copy_connect_failed \<Rightarrow> (False, st\<lparr>cp_client := Unconnected\<rparr>)
      | Copy_sftp_failed \<Rightarrow> (False, st\<lparr>cp_client := Connected\<rparr>))"

definition copy_disconnect :: "machine_copy \<Rightarrow> machine_copy" where
  "copy_disconnect st =
     (let st = (if sftp_open st then st\<lparr>sftp_open := False\<rparr> else st) in
      if cp_client st \<noteq> No_client then st\<lparr>cp_client := Closed\<rparr> else st)"

subsection \<open>Creating the remote directories\<close>

text \<open>The \<open>while True\<close> loop of \<open>_remote_mkdir_p\<close>: walk up from the path with
  \<open>os.path.dirname\<close> while \<open>stat\<close> raises \<open>FileNotFoundError\<close>, collecting the missing
  paths, and stop at the root or the empty path.\<close>

partial_function (option) mkdir_p_scan :: "remote_fs \<Rightarrow> ustr \<Rightarrow> ustr list \<Rightarrow> ustr list option" where
  "mkdir_p_scan fs current dirs_to_create =
     (if sftp_stat fs current then Some dirs_to_create
      else let dirs_to_create = dirs_to_create @ [current]; current = py_dirname current in
        if current = [47] \<or> current = [] then Some dirs_to_create
        else mkdir_p_scan fs current dirs_to_create)"

text \<open>The \<open>for\<close> loop: \<open>mkdir\<close> each collected path, outermost first.\<close>

fun mkdir_each :: "ustr list \<Rightarrow> (unit, machine_copy) st_exc" where
  "mkdir_each [] = exc_return ()"
| "mkdir_each (d # ds) =
     exc_bind (on_remote (sftp_mkdir d)) (\<lambda>_ st. mkdir_each ds (st\<lparr>dirs_created := dirs_created st + 1\<rparr>))"

type_synonym 'a cp = "machine_copy \<Rightarrow> ('a option \<times> machine_copy) option"

definition cp_return :: "'a \<Rightarrow> 'a cp" where
  "cp_return a st = Some (Some a, st)"

definition cp_bind :: "'a cp \<Rightarrow> ('a \<Rightarrow> 'b cp) \<Rightarrow> 'b cp" where
  "cp_bind m f st =
     (case m st of None \<Rightarrow> None | Some (None, st') \<Rightarrow> Some (None, st') | Some (Some a, st') \<Rightarrow> f a st')"

definition cp_lift :: "('a, machine_copy) st_exc \<Rightarrow> 'a cp" where
  "cp_lift m st = Some (m st)"

definition remote_mkdir_p :: "ustr \<Rightarrow> unit cp" where
  "remote_mkdir_p remote_path st =
     map_option (\<lambda>dirs_to_create. mkdir_each (rev dirs_to_create) st) (mkdir_p_scan (remote st) remote_path [])"

subsection \<open>Copying the tree\<close>

text \<open>\<open>os.path.join(a, b)\<close> for a name \<open>b\<close>.\<close>

definition path_join :: "ustr \<Rightarrow> ustr \<Rightarrow> ustr" where
  "path_join a b = (if a = [] \<or> last a = 47 then a @ b else a @ [47] @ b)"

text \<open>The file branch of the loop of \<open>_copy_recursive\<close>, given the local file's contents
  (\<open>None\<close> when it cannot be opened or read). \<open>sftp.put\<close> opens the local file before it
  sends anything, so an unreadable file raises with the server unchanged.\<close>

definition copy_file :: "ustr \<Rightarrow> ustr \<Rightarrow> nat list option \<Rightarrow> (unit, machine_copy) st_exc" where
  "copy_file local_entry remote_entry contents =
     (case contents of
        None \<Rightarrow> (\<lambda>st. (None, st))
      | Some _ \<Rightarrow>
          exc_bind (on_remote (sftp_put local_entry remote_entry))
            (\<lambda>_ st. (Some (), st\<lparr>files_copied := files_copied st + 1\<rparr>)))"

function copy_recursive :: "ustr \<Rightarrow> ustr \<Rightarrow> fs_entry list \<Rightarrow> unit cp"
and copy_entries :: "ustr \<Rightarrow> ustr \<Rightarrow> fs_entry list \<Rightarrow> unit cp" where
  "copy_recursive local_path remote_path es =
     cp_bind (remote_mkdir_p remote_path) (\<lambda>_. copy_entries local_path remote_path (sort_key entry_name es))"
| "copy_entries local_path remote_path [] = cp_return ()"
| "copy_entries local_path remote_path (Fs_dir n sub # es) =
     cp_bind (copy_recursive (path_join local_path n) (remote_path @ [47] @ n) sub)
       (\<lambda>_. copy_entries local_path remote_path es)"
| "copy_entries local_path remote_path (Fs_file n c # es) =
     cp_bind (cp_lift (copy_file (path_join local_path n) (remote_path @ [47] @ n) c))
       (\<lambda>_. copy_entries local_path remote_path es)"
  by pat_completeness auto
termination
proof (relation "measure (\<lambda>x. case x of Inl (l, r, es) \<Rightarrow> 2 * size_list size es + 1
                                        | Inr (l, r, es) \<Rightarrow> 2 * size_list size es)")
  fix local_path remote_path :: ustr and es :: "fs_entry list" and x
  have "size_list size (sort_key entry_name es) = size_list size es"
    unfolding size_list_conv_sum_list by (metis length_sort mset_map mset_sort sum_mset_sum_list)
  then show "(Inr (local_path, remote_path, sort_key entry_name es), Inl (local_path, remote_path, es))
               \<in> measure (\<lambda>x. case x of Inl (l, r, es) \<Rightarrow> 2 * size_list size es + 1
                                    | Inr (l, r, es) \<Rightarrow> 2 * size_list size es)"
    by simp
qed auto

subsection \<open>The whole run\<close>

text \<open>\<open>sum(len(files) for _, _, files in os.walk(LOCAL_FOLDER))\<close>: the number of files
  below the local folder.\<close>

definition local_file_count :: "fs_entry list \<Rightarrow> nat" where
  "local_file_count tree = length (walk tree)"

text \<open>\<open>run_copy\<close>: whether \<open>LOCAL_FOLDER\<close> is a directory, the path and the tree of the
  local folder, and how \<open>connect\<close> ends. The \<open>except Exception\<close> turns an exception of
  the copy into \<open>False\<close>, and the \<open>finally\<close> clause disconnects on both paths; a failed
  \<open>connect\<close> returns before the \<open>try\<close>. The result is \<open>None\<close> when the copy never ends.\<close>

definition run_copy ::
  "bool \<Rightarrow> ustr \<Rightarrow> fs_entry list \<Rightarrow> copy_connect_outcome \<Rightarrow> machine_copy \<Rightarrow> (bool \<times> machine_copy) option" where
  "run_copy local_isdir local_folder tree conn st =
     (if \<not> local_isdir then Some (False, st)
      else case copy_connect conn st of
        (False, st1) \<Rightarrow> Some (False, st1)
      | (True, st1) \<Rightarrow>
          (case copy_recursive local_folder REMOTE_FOLDER tree st1 of
             None \<Rightarrow> None
           | Some (None, st2) \<Rightarrow> Some (False, copy_disconnect st2)
           | Some (Some _, st2) \<Rightarrow> Some (True, copy_disconnect st2)))"

text \<open>\<open>main\<close> after \<open>parse_args\<close>: the host, \<open>--username\<close> and \<open>--password\<close> (\<open>None\<close> when
  not given), \<open>--verbose\<close>; the exit status and the object at the end.\<close>

definition copy_main ::
  "bool \<Rightarrow> ustr \<Rightarrow> fs_entry list \<Rightarrow> copy_connect_outcome \<Rightarrow> remote_fs \<Rightarrow>
     ustr \<Rightarrow> ustr option \<Rightarrow> ustr option \<Rightarrow> bool \<Rightarrow> (int \<times> machine_copy) option" where
  "copy_main local_isdir local_folder tree conn fs hostname username password verbose =
     (let copier = copy_init hostname (case password of None \<Rightarrow> SSH_PASSWORD | Some p \<Rightarrow> p)
                     (case username of None \<Rightarrow> u ''dn'' | Some n \<Rightarrow> n) verbose fs
      in map_option (\<lambda>(success, st). (if success then 0 else 1, st))
           (run_copy local_isdir local_folder tree conn copier))"

subsection \<open>What the proofs speak about\<close>

text \<open>A remote file system as a server keeps it: the root is a directory, the parent of
  every other directory and of every file is a directory, and no path is both.\<close>

text \<open>Every file of the local tree can be read.\<close>

definition files_readable :: "fs_entry list \<Rightarrow> bool" where
  "files_readable es \<longleftrightarrow> list_all (\<lambda>(p, c). c \<noteq> None) (walk es)"

definition remote_wf :: "remote_fs \<Rightarrow> bool" where
  "remote_wf fs \<longleftrightarrow>
     [47] \<in> r_dirs fs \<and> (\<forall>d\<in>r_dirs fs. d \<noteq> [47] \<longrightarrow> py_dirname d \<in> r_dirs fs) \<and>
     (\<forall>f\<in>dom (r_files fs). py_dirname f \<in> r_dirs fs \<and> f \<notin> r_dirs fs)"

text \<open>The remote file system after a copy of the tree \<open>es\<close> from \<open>local_path\<close> into the
  directory with components \<open>C\<close>: its directories, and each file put from its local path.\<close>

definition copied_fs :: "ustr \<Rightarrow> ustr list \<Rightarrow> fs_entry list \<Rightarrow> remote_fs \<Rightarrow> remote_fs" where
  "copied_fs local_path C es fs =
     \<lparr>r_dirs = r_dirs fs \<union> (\<lambda>p. abs_path (C @ p)) ` set (walk_dirs es),
      r_files = r_files fs ++ map_of (map (\<lambda>(p, c). (abs_path (C @ p), local_path @ [47] @ rel_path_str p)) (walk es))\<rparr>"

text \<open>Nothing is at or below the canonical path with components \<open>P\<close> (a path below it
  has name components).\<close>

definition fresh_below :: "remote_fs \<Rightarrow> ustr list \<Rightarrow> bool" where
  "fresh_below fs P \<longleftrightarrow>
     (\<forall>q. (\<forall>x\<in>set q. name_ok x) \<longrightarrow> abs_path (P @ q) \<notin> r_dirs fs \<and> r_files fs (abs_path (P @ q)) = None)"

text \<open>The components of \<open>REMOTE_FOLDER\<close>.\<close>

definition REMOTE_PARTS :: "ustr list" where
  "REMOTE_PARTS = [u ''home'', u ''dn'', u ''yossi_moz_content'']"

text \<open>A destination the copy can fill: no directory or file lies below \<open>r\<close>, and no file
  is at \<open>r\<close> or at a text that starts \<open>r\<close> (its ancestors among them).\<close>

definition fresh_destination :: "remote_fs \<Rightarrow> ustr \<Rightarrow> bool" where
  "fresh_destination fs r \<longleftrightarrow>
     (\<forall>d\<in>r_dirs fs. \<not> prefix (r @ [47]) d) \<and> (\<forall>f\<in>dom (r_files fs). \<not> prefix (r @ [47]) f \<and> \<not> prefix f r)"

subsection \<open>Lemmas: the scan, mkdir -p, the recursive copy, the session\<close>

text \<open>C29: the while-True loop of _remote_mkdir_p ends on every path that does not start with two slashes, whatever the server holds.\<close>

theorem mkdir_p_scan_terminates: "\<not> starts_with [47, 47] p \<Longrightarrow> mkdir_p_scan fs p acc \<noteq> None"
proof (induction p arbitrary: acc rule: length_induct)
  case (1 p)
  let ?c = "py_dirname p"
  show ?case
  proof (cases "sftp_stat fs p \<or> ?c = [47] \<or> ?c = []")
    case True
    then show ?thesis by (subst mkdir_p_scan.simps) (auto simp: Let_def)
  next
    case False
    have pre: "prefix ?c p" by (rule py_dirname_prefix)
    have "?c \<noteq> p"
    proof
      assume "?c = p"
      then have "\<forall>c\<in>set p. c = 47" by (rule py_dirname_fixpoint)
      moreover have "p \<noteq> [] \<and> p \<noteq> [47]" using False \<open>?c = p\<close> by auto
      ultimately have "starts_with [47, 47] p"
      proof (cases p)
        case (Cons a q)
        assume "\<forall>c\<in>set p. c = 47" "p \<noteq> [] \<and> p \<noteq> [47]"
        then show ?thesis using Cons by (cases q) auto
      qed simp
      then show False using "1.prems" by simp
    qed
    then have "length ?c < length p" using pre by (simp add: prefix_length_less prefix_order.less_le)
    moreover have "\<not> starts_with [47, 47] ?c"
    proof
      assume "starts_with [47, 47] ?c"
      then have "prefix [47, 47] p" using pre unfolding starts_with_iff_prefix by (rule prefix_order.trans)
      then show False using "1.prems" by (simp add: starts_with_iff_prefix)
    qed
    ultimately have "mkdir_p_scan fs ?c (acc @ [p]) \<noteq> None" using "1.IH" by blast
    then show ?thesis using False by (subst mkdir_p_scan.simps) (simp add: Let_def)
  qed
qed

theorem mkdir_p_scan_terminates_witness:
  "\<not> starts_with [47, 47] (u ''/home/dn/yossi_moz_content'') \<and>
   mkdir_p_scan \<lparr>r_dirs = {[47]}, r_files = Map.empty\<rparr> (u ''/home/dn/yossi_moz_content'') [] \<noteq> None"
proof -
  have "\<not> starts_with [47, 47] (u ''/home/dn/yossi_moz_content'')" by (simp add: u_def)
  with mkdir_p_scan_terminates [of "u ''/home/dn/yossi_moz_content''" "\<lparr>r_dirs = {[47]}, r_files = Map.empty\<rparr>" "[]"]
  show ?thesis by blast
qed

lemma mkdir_p_scan_abs:
  assumes "\<forall>x\<in>set cs. name_ok x" "m \<le> length cs" "sftp_stat fs (abs_path (take m cs))"
    "\<forall>j. m < j \<and> j \<le> length cs \<longrightarrow> \<not> sftp_stat fs (abs_path (take j cs))"
  shows "mkdir_p_scan fs (abs_path cs) acc =
           Some (acc @ map (\<lambda>j. abs_path (take j cs)) (rev [Suc m..<Suc (length cs)]))"
  using assms
proof (induction cs arbitrary: acc rule: rev_induct)
  case Nil
  then show ?case by (subst mkdir_p_scan.simps) simp
next
  case (snoc c cs)
  show ?case
  proof (cases "m = Suc (length cs)")
    case True
    then show ?thesis using snoc.prems(3) by (subst mkdir_p_scan.simps) simp
  next
    case False
    then have m: "m \<le> length cs" using snoc.prems(2) by simp
    have ns: "\<not> sftp_stat fs (abs_path (cs @ [c]))" using snoc.prems(4) m by (metis length_append_singleton le_refl le_imp_less_Suc take_all)
    have names: "\<forall>x\<in>set cs. name_ok x" "name_ok c" using snoc.prems(1) by auto
    have d: "py_dirname (abs_path (cs @ [c])) = abs_path cs" using names by (rule py_dirname_abs_path_snoc)
    have r: "rev [Suc m..<Suc (Suc (length cs))] = Suc (length cs) # rev [Suc m..<Suc (length cs)]"
      using m by simp
    have mp: "map (\<lambda>j. abs_path (take j (cs @ [c]))) (rev [Suc m..<Suc (length cs)]) =
              map (\<lambda>j. abs_path (take j cs)) (rev [Suc m..<Suc (length cs)])"
      by (rule map_cong) auto
    show ?thesis
    proof (cases "cs = []")
      case True
      then have "m = 0" using m by simp
      then show ?thesis using True ns d by (subst mkdir_p_scan.simps) (simp add: abs_path_def)
    next
      case False
      have "mkdir_p_scan fs (abs_path cs) (acc @ [abs_path (cs @ [c])]) =
              Some ((acc @ [abs_path (cs @ [c])]) @ map (\<lambda>j. abs_path (take j cs)) (rev [Suc m..<Suc (length cs)]))"
      proof (rule snoc.IH)
        show "\<forall>j. m < j \<and> j \<le> length cs \<longrightarrow> \<not> sftp_stat fs (abs_path (take j cs))"
          using snoc.prems(4) by (metis le_SucI length_append_singleton take_snoc_le)
        show "sftp_stat fs (abs_path (take m cs))" using snoc.prems(3) m by simp
      qed (use names m in auto)
      then show ?thesis using False ns d r mp abs_path_ne_root [OF False names(1)]
        by (subst mkdir_p_scan.simps) (simp add: Let_def)
    qed
  qed
qed

lemma mkdir_each_append:
  "mkdir_each (xs @ ys) st =
     (case mkdir_each xs st of (None, st') \<Rightarrow> (None, st') | (Some _, st') \<Rightarrow> mkdir_each ys st')"
  by (induction xs arbitrary: st)
     (auto simp: exc_bind_def on_remote_def split: prod.split option.split)

lemma mkdir_each_abs:
  assumes names: "\<forall>x\<in>set cs. name_ok x" and "m + k \<le> length cs"
    and top: "abs_path (take m cs) \<in> r_dirs (remote st)"
    and free: "\<forall>j. m < j \<and> j \<le> length cs \<longrightarrow> \<not> sftp_stat (remote st) (abs_path (take j cs))"
  shows "mkdir_each (map (\<lambda>j. abs_path (take j cs)) [Suc m..<Suc (m + k)]) st =
           (Some (), st\<lparr>dirs_created := dirs_created st + k,
                        remote := (remote st)\<lparr>r_dirs := r_dirs (remote st) \<union> (\<lambda>j. abs_path (take j cs)) ` {Suc m..m + k}\<rparr>\<rparr>)"
  using assms(2)
proof (induction k)
  case 0
  then show ?case by simp
next
  case (Suc k)
  let ?f = "\<lambda>j. abs_path (take j cs)"
  let ?st = "st\<lparr>dirs_created := dirs_created st + k,
                remote := (remote st)\<lparr>r_dirs := r_dirs (remote st) \<union> ?f ` {Suc m..m + k}\<rparr>\<rparr>"
  have IH: "mkdir_each (map ?f [Suc m..<Suc (m + k)]) st = (Some (), ?st)" using Suc by simp
  have parent: "py_dirname (?f (Suc (m + k))) \<in> r_dirs (remote ?st)"
    using py_dirname_abs_take [OF names, of "m + k"] Suc.prems top by (cases k) auto
  have nd: "?f (Suc (m + k)) \<notin> r_dirs (remote ?st)"
  proof
    assume "?f (Suc (m + k)) \<in> r_dirs (remote ?st)"
    moreover have "?f (Suc (m + k)) \<notin> r_dirs (remote st)" using free Suc.prems by (simp add: sftp_stat_def)
    ultimately obtain j where "j \<in> {Suc m..m + k}" "?f (Suc (m + k)) = ?f j" by auto
    then show False using abs_take_inj [OF names, of "Suc (m + k)" j] Suc.prems by auto
  qed
  have nf: "r_files (remote ?st) (?f (Suc (m + k))) = None" using free Suc.prems by (simp add: sftp_stat_def)
  have "[Suc m..<Suc (m + Suc k)] = [Suc m..<Suc (m + k)] @ [Suc (m + k)]" by simp
  then show ?case using IH parent nd nf
    by (simp add: mkdir_each_append sftp_mkdir_def sftp_stat_def on_remote_def atLeastAtMostSuc_conv insert_commute)
qed

lemma remote_wf_down:
  assumes wf: "remote_wf fs" and names: "\<forall>x\<in>set cs. name_ok x"
    and "abs_path (take j cs) \<in> r_dirs fs" "i \<le> j" "j \<le> length cs"
  shows "abs_path (take i cs) \<in> r_dirs fs"
  using assms(3-5)
proof (induction j)
  case (Suc j)
  show ?case
  proof (cases "i = Suc j")
    case False
    have "take (Suc j) cs \<noteq> []" using Suc.prems(3) by (cases cs) auto
    then have "abs_path (take (Suc j) cs) \<noteq> [47]" using abs_path_ne_root names_take [OF names] by blast
    then have "py_dirname (abs_path (take (Suc j) cs)) \<in> r_dirs fs"
      using wf Suc.prems(1) by (auto simp: remote_wf_def)
    then have "abs_path (take j cs) \<in> r_dirs fs" using py_dirname_abs_take [OF names, of j] Suc.prems(3) by simp
    then show ?thesis using Suc False by simp
  qed (use Suc in simp)
qed simp

lemma remote_mkdir_p_abs:
  assumes wf: "remote_wf (remote st)" and names: "\<forall>x\<in>set cs. name_ok x"
    and nofile: "\<forall>j\<le>length cs. r_files (remote st) (abs_path (take j cs)) = None"
  shows "\<exists>k. remote_mkdir_p (abs_path cs) st =
           Some (Some (), st\<lparr>dirs_created := dirs_created st + k,
                  remote := (remote st)\<lparr>r_dirs := r_dirs (remote st) \<union> (\<lambda>j. abs_path (take j cs)) ` {..length cs}\<rparr>\<rparr>)"
proof -
  let ?f = "\<lambda>j. abs_path (take j cs)"
  let ?M = "{j. j \<le> length cs \<and> ?f j \<in> r_dirs (remote st)}"
  define m where "m = Max ?M"
  have "0 \<in> ?M" using wf by (simp add: remote_wf_def abs_path_def)
  then have ne: "?M \<noteq> {}" by blast
  have fin: "finite ?M" by simp
  have mM: "m \<in> ?M" unfolding m_def by (rule Max_in [OF fin ne])
  have mx: "\<And>j. j \<in> ?M \<Longrightarrow> j \<le> m" unfolding m_def by (rule Max_ge [OF fin])
  have free: "\<forall>j. m < j \<and> j \<le> length cs \<longrightarrow> \<not> sftp_stat (remote st) (?f j)"
    using mx nofile by (force simp: sftp_stat_def)
  have scan: "mkdir_p_scan (remote st) (abs_path cs) [] = Some (map ?f (rev [Suc m..<Suc (length cs)]))"
    using mkdir_p_scan_abs [OF names, of m "remote st" "[]"] mM free by (simp add: sftp_stat_def)
  have ml: "m + (length cs - m) \<le> length cs" "Suc (m + (length cs - m)) = Suc (length cs)" using mM by auto
  have run: "mkdir_each (map ?f [Suc m..<Suc (length cs)]) st =
           (Some (), st\<lparr>dirs_created := dirs_created st + (length cs - m),
                        remote := (remote st)\<lparr>r_dirs := r_dirs (remote st) \<union> ?f ` {Suc m..m + (length cs - m)}\<rparr>\<rparr>)"
    using mkdir_each_abs [OF names ml(1), of st] mM free ml(2) by simp
  have low: "?f ` {..m} \<subseteq> r_dirs (remote st)"
    using remote_wf_down [OF wf names] mM by auto
  have "{..length cs} = {..m} \<union> {Suc m..m + (length cs - m)}" using mM by auto
  then have "r_dirs (remote st) \<union> ?f ` {Suc m..m + (length cs - m)} = r_dirs (remote st) \<union> ?f ` {..length cs}"
    using low by auto
  then show ?thesis using scan run
    by (intro exI [of _ "length cs - m"]) (simp add: remote_mkdir_p_def rev_map)
qed

text \<open>The put of one file.\<close>

lemma remote_wf_put:
  "remote_wf fs \<Longrightarrow> py_dirname t \<in> r_dirs fs \<Longrightarrow> t \<notin> r_dirs fs \<Longrightarrow>
     remote_wf (fs\<lparr>r_files := (r_files fs)(t \<mapsto> v)\<rparr>)"
  by (auto simp: remote_wf_def)

lemma remote_wf_prefixes:
  assumes "remote_wf fs" "\<forall>x\<in>set C. name_ok x" "\<forall>j\<le>length C. r_files fs (abs_path (take j C)) = None"
  shows "remote_wf (fs\<lparr>r_dirs := r_dirs fs \<union> (\<lambda>j. abs_path (take j C)) ` {..length C}\<rparr>)"
proof -
  have "py_dirname (abs_path (take j C)) \<in> r_dirs fs \<union> (\<lambda>j. abs_path (take j C)) ` {..length C}"
    if "j \<le> length C" "abs_path (take j C) \<noteq> [47]" for j
  proof (cases j)
    case 0
    then show ?thesis using that by (simp add: abs_path_def)
  next
    case (Suc i)
    then show ?thesis using py_dirname_abs_take [OF assms(2), of i] that by auto
  qed
  moreover have "f \<notin> (\<lambda>j. abs_path (take j C)) ` {..length C}" if "f \<in> dom (r_files fs)" for f
    using assms(3) that by auto
  ultimately show ?thesis using assms(1) by (auto simp: remote_wf_def)
qed

lemma path_join_name: "L \<noteq> [] \<Longrightarrow> last L \<noteq> 47 \<Longrightarrow> path_join L n = L @ [47] @ n"
  by (simp add: path_join_def)

lemma abs_path_child: "C \<noteq> [] \<Longrightarrow> abs_path C @ [47] @ n = abs_path (C @ [n])"
  by (simp add: abs_path_def)

lemma copied_fs_Nil [simp]: "copied_fs L C [] fs = fs"
  by (simp add: copied_fs_def)

lemma copied_fs_file:
  "copied_fs L C [Fs_file n c] fs = fs\<lparr>r_files := (r_files fs)(abs_path (C @ [n]) \<mapsto> L @ [47] @ n)\<rparr>"
  by (simp add: copied_fs_def rel_path_str_def)

lemma copied_fs_keys_distinct:
  assumes "tree_wf es" "\<forall>x\<in>set C. name_ok x"
  shows "distinct (map fst (map (\<lambda>(p, c). (abs_path (C @ p), L @ [47] @ rel_path_str p)) (walk es)))"
proof -
  have d: "distinct (map fst (walk es))" using assms(1) by (rule tree_wf_walk_distinct(2))
  have "inj_on (\<lambda>p. abs_path (C @ p)) (fst ` set (walk es))"
  proof (rule inj_onI)
    fix p q assume "p \<in> fst ` set (walk es)" "q \<in> fst ` set (walk es)" "abs_path (C @ p) = abs_path (C @ q)"
    then obtain c c' where "(p, c) \<in> set (walk es)" "(q, c') \<in> set (walk es)" "abs_path (C @ p) = abs_path (C @ q)"
      by auto
    then show "p = q" using assms tree_wf_walk_names(2) abs_path_append_inj by metis
  qed
  then have dd: "distinct (map (\<lambda>p. abs_path (C @ p)) (map fst (walk es)))"
    using d by (subst distinct_map) simp
  have eq: "map fst (map (\<lambda>(p, c). (abs_path (C @ p), L @ [47] @ rel_path_str p)) (walk es)) =
            map (\<lambda>p. abs_path (C @ p)) (map fst (walk es))"
    unfolding map_map by (rule arg_cong [where f = "\<lambda>g. map g (walk es)"]) (auto simp: fun_eq_iff)
  show ?thesis by (subst eq) (rule dd)
qed

lemma copied_fs_perm:
  assumes "mset es' = mset es" "tree_wf es" "\<forall>x\<in>set C. name_ok x"
  shows "copied_fs L C es' fs = copied_fs L C es fs"
proof -
  have w: "set (walk es') = set (walk es)" "set (walk_dirs es') = set (walk_dirs es)"
    using walk_perm [OF assms(1)] by auto
  have wf': "tree_wf es'" using assms(1,2) by (rule tree_wf_perm)
  have "map_of (map (\<lambda>(p, c). (abs_path (C @ p), L @ [47] @ rel_path_str p)) (walk es')) =
        map_of (map (\<lambda>(p, c). (abs_path (C @ p), L @ [47] @ rel_path_str p)) (walk es))"
    using copied_fs_keys_distinct [OF wf' assms(3)] copied_fs_keys_distinct [OF assms(2,3)] w(1)
    by (subst map_of_inject_set) auto
  then show ?thesis using w(2) by (simp add: copied_fs_def)
qed

lemma copied_fs_Cons:
  assumes "tree_wf (e # es)" "\<forall>x\<in>set C. name_ok x"
  shows "copied_fs L C (e # es) fs = copied_fs L C es (copied_fs L C [e] fs)"
proof -
  let ?f = "\<lambda>(p, c). (abs_path (C @ p), L @ [47] @ rel_path_str p)"
  let ?A = "map ?f (walk_entry e)" and ?B = "map ?f (walk es)"
  have "distinct (map fst (?A @ ?B))" using copied_fs_keys_distinct [OF assms, of L] by simp
  then have "set (map fst ?A) \<inter> set (map fst ?B) = {}" unfolding map_append distinct_append by blast
  then have "dom (map_of ?A) \<inter> dom (map_of ?B) = {}" by (simp only: dom_map_of_conv_image_fst set_map)
  then have "map_of ?B ++ map_of ?A = map_of ?A ++ map_of ?B" by (rule map_add_comm [symmetric])
  then show ?thesis by (simp add: copied_fs_def map_of_append Un_assoc image_Un)
qed

lemma copied_fs_dir:
  "copied_fs L C [Fs_dir n sub] fs =
     copied_fs (L @ [47] @ n) (C @ [n]) sub (fs\<lparr>r_dirs := insert (abs_path (C @ [n])) (r_dirs fs)\<rparr>)"
proof -
  have m: "map (\<lambda>(p, c). (abs_path (C @ p), L @ [47] @ rel_path_str p)) (walk [Fs_dir n sub]) =
        map (\<lambda>(p, c). (abs_path ((C @ [n]) @ p), (L @ [47] @ n) @ [47] @ rel_path_str p)) (walk sub)"
    by (auto simp: path_str_Cons dest: walk_paths_ne)
  have d: "(\<lambda>p. abs_path (C @ p)) ` set (walk_dirs [Fs_dir n sub]) =
           insert (abs_path (C @ [n])) ((\<lambda>p. abs_path ((C @ [n]) @ p)) ` set (walk_dirs sub))"
    by auto
  show ?thesis unfolding copied_fs_def m d by simp
qed

lemma fresh_below_copied:
  assumes fresh: "fresh_below fs (C @ [m])" and "m \<noteq> entry_name e" "tree_wf_entry e"
    and names: "\<forall>x\<in>set C. name_ok x" "name_ok m"
  shows "fresh_below (copied_fs L C [e] fs) (C @ [m])"
  unfolding fresh_below_def
proof (intro allI impI conjI)
  fix q assume q: "\<forall>x\<in>set q. name_ok x"
  have other: "abs_path (C @ m # q) \<noteq> abs_path (C @ p)" if "\<forall>x\<in>set p. name_ok x" "p \<noteq> []" "hd p = entry_name e" for p
  proof
    assume "abs_path (C @ m # q) = abs_path (C @ p)"
    then have "m # q = p" using abs_path_append_inj [OF names(1) _ that(1)] q names(2) by simp
    then show False using that assms(2) by auto
  qed
  have fq: "abs_path (C @ m # q) \<notin> r_dirs fs \<and> r_files fs (abs_path (C @ m # q)) = None"
    using fresh q unfolding fresh_below_def by (metis append_Cons append_Nil append_assoc)
  show "abs_path ((C @ [m]) @ q) \<notin> r_dirs (copied_fs L C [e] fs)"
  proof
    assume "abs_path ((C @ [m]) @ q) \<in> r_dirs (copied_fs L C [e] fs)"
    then have "abs_path (C @ m # q) \<in> r_dirs fs \<or> (\<exists>p\<in>set (walk_dirs_entry e). abs_path (C @ m # q) = abs_path (C @ p))"
      by (auto simp: copied_fs_def)
    then show False
    proof
      assume "\<exists>p\<in>set (walk_dirs_entry e). abs_path (C @ m # q) = abs_path (C @ p)"
      then obtain p where "p \<in> set (walk_dirs_entry e)" "abs_path (C @ m # q) = abs_path (C @ p)" by blast
      then show False using other walk_dirs_names_hd [OF assms(3)] by blast
    qed (use fq in blast)
  qed
  have "abs_path (C @ m # q) \<notin> fst ` set (map (\<lambda>(p, c). (abs_path (C @ p), L @ [47] @ rel_path_str p)) (walk_entry e))"
    using other walk_names_hd [OF assms(3)] by fastforce
  then show "r_files (copied_fs L C [e] fs) (abs_path ((C @ [m]) @ q)) = None"
    using fq by (simp add: copied_fs_def map_add_None map_of_eq_None_iff)
qed

lemma cp_bind_Some: "m st = Some (Some a, st') \<Longrightarrow> cp_bind m f st = f a st'"
  by (simp add: cp_bind_def)

lemma fresh_below_child: "fresh_below fs P \<Longrightarrow> name_ok m \<Longrightarrow> fresh_below fs (P @ [m])"
  unfolding fresh_below_def by (metis append_Cons append_Nil append_assoc set_ConsD)

lemma copied_fs_dirs_mono: "r_dirs fs \<subseteq> r_dirs (copied_fs L C es fs)"
  by (auto simp: copied_fs_def)

lemma fresh_below_prefixes:
  assumes "fresh_below fs (C @ [n])" "\<forall>x\<in>set C. name_ok x" "name_ok n"
  shows "fresh_below (fs\<lparr>r_dirs := r_dirs fs \<union> (\<lambda>j. abs_path (take j C)) ` {..length C}\<rparr>) (C @ [n])"
  unfolding fresh_below_def
proof (intro allI impI)
  fix q assume q: "\<forall>x\<in>set q. name_ok x"
  have "abs_path ((C @ [n]) @ q) \<noteq> abs_path (take j C)" if "j \<le> length C" for j
  proof
    assume "abs_path ((C @ [n]) @ q) = abs_path (take j C)"
    moreover have "\<forall>x\<in>set ((C @ [n]) @ q). name_ok x" using q assms(2,3) by auto
    ultimately have "(C @ [n]) @ q = take j C" using abs_path_inj names_take [OF assms(2)] by blast
    then show False using that by (metis length_append length_take min.absorb2 length_append_singleton not_less_eq_eq le_add1 le_trans)
  qed
  then show "abs_path ((C @ [n]) @ q) \<notin> r_dirs (fs\<lparr>r_dirs := r_dirs fs \<union> (\<lambda>j. abs_path (take j C)) ` {..length C}\<rparr>) \<and>
             r_files (fs\<lparr>r_dirs := r_dirs fs \<union> (\<lambda>j. abs_path (take j C)) ` {..length C}\<rparr>) (abs_path ((C @ [n]) @ q)) = None"
    using assms(1) q unfolding fresh_below_def by auto
qed

lemma prefixes_child:
  assumes wf: "remote_wf fs" and names: "\<forall>x\<in>set C. name_ok x" and C: "abs_path C \<in> r_dirs fs"
  shows "r_dirs fs \<union> (\<lambda>j. abs_path (take j (C @ [n]))) ` {..length (C @ [n])} = insert (abs_path (C @ [n])) (r_dirs fs)"
proof -
  have "abs_path (take j C) \<in> r_dirs fs" if "j \<le> length C" for j
    using remote_wf_down [OF wf names, of "length C" j] C that by simp
  moreover have "{..length (C @ [n])} = insert (Suc (length C)) {..length C}" by auto
  ultimately show ?thesis by auto
qed

lemma prefixes_no_file:
  assumes wf: "remote_wf fs" and names: "\<forall>x\<in>set C. name_ok x" and C: "abs_path C \<in> r_dirs fs"
    and fresh: "fresh_below fs (C @ [n])"
  shows "\<forall>j\<le>length (C @ [n]). r_files fs (abs_path (take j (C @ [n]))) = None"
proof (intro allI impI)
  fix j assume j: "j \<le> length (C @ [n])"
  show "r_files fs (abs_path (take j (C @ [n]))) = None"
  proof (cases "j = Suc (length C)")
    case True
    have "r_files fs (abs_path ((C @ [n]) @ [])) = None" using fresh unfolding fresh_below_def by simp
    then show ?thesis using True by simp
  next
    case False
    then have "j \<le> length C" using j by simp
    then have "abs_path (take j C) \<in> r_dirs fs" using remote_wf_down [OF wf names, of "length C" j] C by simp
    then show ?thesis using wf \<open>j \<le> length C\<close> by (auto simp: remote_wf_def)
  qed
qed

lemma files_readable_dir: "files_readable (Fs_dir n sub # es) \<longleftrightarrow> files_readable sub \<and> files_readable es"
  by (simp add: files_readable_def list.pred_map comp_def split_def)

lemma copy_tree:
  shows "\<And>st C. R = abs_path C \<Longrightarrow> C \<noteq> [] \<Longrightarrow> \<forall>x\<in>set C. name_ok x \<Longrightarrow> L \<noteq> [] \<Longrightarrow> last L \<noteq> 47 \<Longrightarrow>
           tree_wf es \<Longrightarrow> files_readable es \<Longrightarrow> remote_wf (remote st) \<Longrightarrow>
           \<forall>j\<le>length C. r_files (remote st) (abs_path (take j C)) = None \<Longrightarrow>
           \<forall>n. name_ok n \<longrightarrow> fresh_below (remote st) (C @ [n]) \<Longrightarrow>
           \<exists>k. copy_recursive L R es st =
                 Some (Some (), st\<lparr>files_copied := files_copied st + length (walk es), dirs_created := dirs_created st + k,
                   remote := copied_fs L C es ((remote st)\<lparr>r_dirs := r_dirs (remote st) \<union> (\<lambda>j. abs_path (take j C)) ` {..length C}\<rparr>)\<rparr>) \<and>
               remote_wf (copied_fs L C es ((remote st)\<lparr>r_dirs := r_dirs (remote st) \<union> (\<lambda>j. abs_path (take j C)) ` {..length C}\<rparr>))"
    and "\<And>st C. R = abs_path C \<Longrightarrow> C \<noteq> [] \<Longrightarrow> \<forall>x\<in>set C. name_ok x \<Longrightarrow> L \<noteq> [] \<Longrightarrow> last L \<noteq> 47 \<Longrightarrow>
           tree_wf es \<Longrightarrow> files_readable es \<Longrightarrow> remote_wf (remote st) \<Longrightarrow> abs_path C \<in> r_dirs (remote st) \<Longrightarrow>
           \<forall>e\<in>set es. fresh_below (remote st) (C @ [entry_name e]) \<Longrightarrow>
           \<exists>k. copy_entries L R es st =
                 Some (Some (), st\<lparr>files_copied := files_copied st + length (walk es), dirs_created := dirs_created st + k,
                   remote := copied_fs L C es (remote st)\<rparr>) \<and>
               remote_wf (copied_fs L C es (remote st))"
proof (induction L R es and L R es rule: copy_recursive_copy_entries.induct)
  case (1 L R es st C)
  let ?fs1 = "(remote st)\<lparr>r_dirs := r_dirs (remote st) \<union> (\<lambda>j. abs_path (take j C)) ` {..length C}\<rparr>"
  obtain k1 where mk: "remote_mkdir_p R st = Some (Some (), st\<lparr>dirs_created := dirs_created st + k1, remote := ?fs1\<rparr>)"
    using remote_mkdir_p_abs [OF "1.prems"(8,3,9)] "1.prems"(1) by blast
  let ?st1 = "st\<lparr>dirs_created := dirs_created st + k1, remote := ?fs1\<rparr>"
  have wf1: "remote_wf ?fs1" using remote_wf_prefixes [OF "1.prems"(8,3,9)] .
  have Cin: "abs_path C \<in> r_dirs ?fs1" by force
  have ms: "mset (sort_key entry_name es) = mset es" by simp
  have wfs: "tree_wf (sort_key entry_name es)" using tree_wf_perm [OF ms "1.prems"(6)] .
  have rds: "files_readable (sort_key entry_name es)"
    using walk_perm [OF ms] "1.prems"(7) by (simp add: files_readable_def list_all_iff)
  have fr: "\<forall>e\<in>set (sort_key entry_name es). fresh_below ?fs1 (C @ [entry_name e])"
  proof
    fix e assume "e \<in> set (sort_key entry_name es)"
    then have "name_ok (entry_name e)" using wfs tree_wf_entry_name by (auto simp: tree_wf_iff)
    then show "fresh_below ?fs1 (C @ [entry_name e])"
      using fresh_below_prefixes "1.prems"(10,3) by blast
  qed
  obtain k2 where ce: "copy_entries L R (sort_key entry_name es) ?st1 =
      Some (Some (), ?st1\<lparr>files_copied := files_copied ?st1 + length (walk (sort_key entry_name es)),
        dirs_created := dirs_created ?st1 + k2, remote := copied_fs L C (sort_key entry_name es) (remote ?st1)\<rparr>)"
    and wf2: "remote_wf (copied_fs L C (sort_key entry_name es) (remote ?st1))"
    using "1.IH" [where st = ?st1 and C = C] "1.prems"(1-5) wfs rds wf1 Cin fr by auto
  have cf: "copied_fs L C (sort_key entry_name es) ?fs1 = copied_fs L C es ?fs1"
    using copied_fs_perm [OF ms "1.prems"(6,3)] .
  have lw: "length (walk (sort_key entry_name es)) = length (walk es)" using walk_perm [OF ms] by simp
  show ?case
    using ce wf2 cf lw by (intro exI [of _ "k1 + k2"]) (simp add: cp_bind_Some [where m = "remote_mkdir_p R", OF mk])
next
  case (2 L R st C)
  then show ?case by (intro exI [of _ 0]) (simp add: cp_return_def)
next
  case (3 L R n sub es st C)
  have wfe: "name_ok n" "tree_wf sub" "n \<notin> entry_name ` set es" "tree_wf es"
    using "3.prems"(6) by auto
  have rd: "files_readable sub" "files_readable es"
    using "3.prems"(7) by (simp_all add: files_readable_dir)
  have L': "path_join L n = L @ [47] @ n" "L @ [47] @ n \<noteq> []" "last (L @ [47] @ n) \<noteq> 47"
    using "3.prems"(4,5) wfe(1) by (auto simp: path_join_name name_ok_def dest: last_in_set)
  have R': "R @ [47] @ n = abs_path (C @ [n])" using "3.prems"(1,2) abs_path_child by simp
  have fresh_n: "fresh_below (remote st) (C @ [n])" using "3.prems"(10) by simp
  have nofile: "\<forall>j\<le>length (C @ [n]). r_files (remote st) (abs_path (take j (C @ [n]))) = None"
    using prefixes_no_file [OF "3.prems"(8,3,9) fresh_n] .
  have below: "\<forall>m. name_ok m \<longrightarrow> fresh_below (remote st) ((C @ [n]) @ [m])"
    using fresh_below_child [OF fresh_n] by blast
  let ?fs1 = "copied_fs L C [Fs_dir n sub] (remote st)"
  have pc: "(remote st)\<lparr>r_dirs := r_dirs (remote st) \<union> (\<lambda>j. abs_path (take j (C @ [n]))) ` {..length (C @ [n])}\<rparr> =
            (remote st)\<lparr>r_dirs := insert (abs_path (C @ [n])) (r_dirs (remote st))\<rparr>"
    using prefixes_child [OF "3.prems"(8,3,9)] by simp
  obtain k1 where cr: "copy_recursive (path_join L n) (R @ [47] @ n) sub st =
      Some (Some (), st\<lparr>files_copied := files_copied st + length (walk sub), dirs_created := dirs_created st + k1,
        remote := ?fs1\<rparr>)" and wf1: "remote_wf ?fs1"
    using "3.IH"(1) [where st = st and C = "C @ [n]"] R' L' "3.prems"(3,8) wfe(1,2) rd(1) nofile below pc copied_fs_dir by auto
  let ?st1 = "st\<lparr>files_copied := files_copied st + length (walk sub), dirs_created := dirs_created st + k1, remote := ?fs1\<rparr>"
  have Cin: "abs_path C \<in> r_dirs ?fs1" using "3.prems"(9) copied_fs_dirs_mono by blast
  have fr: "\<forall>e\<in>set es. fresh_below ?fs1 (C @ [entry_name e])"
  proof
    fix e assume e: "e \<in> set es"
    then have "name_ok (entry_name e)" "entry_name e \<noteq> n"
      using wfe(3,4) tree_wf_entry_name by (auto simp: tree_wf_iff)
    moreover have "fresh_below (remote st) (C @ [entry_name e])" using "3.prems"(10) e by simp
    ultimately show "fresh_below ?fs1 (C @ [entry_name e])"
      using fresh_below_copied [of "remote st" C "entry_name e" "Fs_dir n sub"] "3.prems"(3) wfe(1,2) by auto
  qed
  obtain k2 where ce: "copy_entries L R es ?st1 =
      Some (Some (), ?st1\<lparr>files_copied := files_copied ?st1 + length (walk es),
        dirs_created := dirs_created ?st1 + k2, remote := copied_fs L C es ?fs1\<rparr>)"
    and wf2: "remote_wf (copied_fs L C es ?fs1)"
    using "3.IH"(2) [where st = ?st1 and C = C] "3.prems"(1-5) wfe(4) rd(2) wf1 Cin fr by auto
  have cc: "copied_fs L C es ?fs1 = copied_fs L C (Fs_dir n sub # es) (remote st)"
    using copied_fs_Cons [OF "3.prems"(6,3)] by simp
  have step: "copy_entries L R (Fs_dir n sub # es) st = copy_entries L R es ?st1"
    by (subst copy_entries.simps) (rule cp_bind_Some [where m = "copy_recursive (path_join L n) (R @ [47] @ n) sub", OF cr])
  show ?case
    unfolding step using ce wf2 cc by (intro exI [of _ "k1 + k2"]) (simp add: ac_simps)
next
  case (4 L R n c es st C)
  have wfe: "name_ok n" "n \<notin> entry_name ` set es" "tree_wf es"
    using "4.prems"(6) by auto
  obtain x where c: "c = Some x" and rd: "files_readable es"
    using "4.prems"(7) by (cases c) (auto simp: files_readable_def)
  have L': "path_join L n = L @ [47] @ n" using "4.prems"(4,5) by (simp add: path_join_name)
  have R': "R @ [47] @ n = abs_path (C @ [n])" using "4.prems"(1,2) abs_path_child by simp
  have fresh_n: "fresh_below (remote st) (C @ [n])" using "4.prems"(10) by simp
  have par: "py_dirname (abs_path (C @ [n])) = abs_path C"
    using py_dirname_abs_path_snoc "4.prems"(3) wfe(1) by blast
  have nd: "abs_path (C @ [n]) \<notin> r_dirs (remote st)" using fresh_n unfolding fresh_below_def
    by (metis append_Nil2 empty_iff list.set(1))
  let ?fs1 = "copied_fs L C [Fs_file n c] (remote st)"
  have cf: "copy_file (path_join L n) (R @ [47] @ n) c st =
              (Some (), st\<lparr>remote := ?fs1, files_copied := files_copied st + 1\<rparr>)"
    using par nd "4.prems"(9) L' R'
    by (simp add: copy_file_def on_remote_def sftp_put_def copied_fs_file c)
  have wf1: "remote_wf ?fs1" unfolding copied_fs_file
    using remote_wf_put [OF "4.prems"(8)] par nd "4.prems"(9) by simp
  let ?st1 = "st\<lparr>remote := ?fs1, files_copied := files_copied st + 1\<rparr>"
  have Cin: "abs_path C \<in> r_dirs ?fs1" using "4.prems"(9) copied_fs_dirs_mono by blast
  have fr: "\<forall>e\<in>set es. fresh_below ?fs1 (C @ [entry_name e])"
  proof
    fix e assume e: "e \<in> set es"
    then have "name_ok (entry_name e)" "entry_name e \<noteq> n"
      using wfe(2,3) tree_wf_entry_name by (auto simp: tree_wf_iff)
    moreover have "fresh_below (remote st) (C @ [entry_name e])" using "4.prems"(10) e by simp
    ultimately show "fresh_below ?fs1 (C @ [entry_name e])"
      using fresh_below_copied [of "remote st" C "entry_name e" "Fs_file n c"] "4.prems"(3) wfe(1) by auto
  qed
  obtain k2 where ce: "copy_entries L R es ?st1 =
      Some (Some (), ?st1\<lparr>files_copied := files_copied ?st1 + length (walk es),
        dirs_created := dirs_created ?st1 + k2, remote := copied_fs L C es ?fs1\<rparr>)"
    and wf2: "remote_wf (copied_fs L C es ?fs1)"
    using "4.IH" [where st = ?st1 and C = C] "4.prems"(1-5) wfe(3) rd wf1 Cin fr by auto
  have cc: "copied_fs L C es ?fs1 = copied_fs L C (Fs_file n c # es) (remote st)"
    using copied_fs_Cons [OF "4.prems"(6,3)] by simp
  have step: "copy_entries L R (Fs_file n c # es) st = copy_entries L R es ?st1"
    by (subst copy_entries.simps) (simp only: cp_bind_def cp_lift_def cf prod.case option.case)
  show ?case
    unfolding step using ce wf2 cc by (intro exI [of _ k2]) simp
qed

lemma REMOTE_FOLDER_abs: "REMOTE_FOLDER = abs_path REMOTE_PARTS"
  by (simp add: REMOTE_FOLDER_def REMOTE_PARTS_def abs_path_def u_def)

lemma REMOTE_PARTS_names: "\<forall>x\<in>set REMOTE_PARTS. name_ok x" "REMOTE_PARTS \<noteq> []"
  by (simp_all add: REMOTE_PARTS_def name_ok_def u_def)

lemma fresh_destination_abs:
  assumes fd: "fresh_destination fs (abs_path C)" and C: "C \<noteq> []"
  shows "\<forall>j\<le>length C. r_files fs (abs_path (take j C)) = None"
    and "\<forall>n. name_ok n \<longrightarrow> fresh_below fs (C @ [n])"
proof -
  show "\<forall>j\<le>length C. r_files fs (abs_path (take j C)) = None"
    using fd prefix_abs_take [OF C] by (fastforce simp: fresh_destination_def)
  show "\<forall>n. name_ok n \<longrightarrow> fresh_below fs (C @ [n])"
  proof (intro allI impI)
    fix n assume "name_ok n"
    have "prefix (abs_path C @ [47]) (abs_path ((C @ [n]) @ q))" for q
      using abs_path_append_str [OF C, of "n # q"] by simp
    then show "fresh_below fs (C @ [n])" using fd by (auto simp: fresh_below_def fresh_destination_def)
  qed
qed

lemma mkdir_each_session:
  "mkdir_each ds st = (r, st') \<Longrightarrow> cp_client st' = cp_client st \<and> sftp_open st' = sftp_open st"
proof (induction ds arbitrary: st)
  case (Cons d ds)
  then show ?case
    by (auto simp: exc_bind_def on_remote_def sftp_mkdir_def split: if_splits)
qed simp

lemma copy_file_session:
  "copy_file l r c st = (x, st') \<Longrightarrow> cp_client st' = cp_client st \<and> sftp_open st' = sftp_open st"
  by (auto simp: copy_file_def exc_bind_def on_remote_def sftp_put_def split: if_splits option.splits)

lemma cp_bind_SomeE:
  assumes "cp_bind m f st = Some (r, st')"
  obtains st1 where "m st = Some (None, st1)" "r = None" "st' = st1"
    | a st1 where "m st = Some (Some a, st1)" "f a st1 = Some (r, st')"
  using assms by (auto simp: cp_bind_def split: option.splits prod.splits)

lemma copy_session:
  shows "\<And>r st st'. copy_recursive L R es st = Some (r, st') \<Longrightarrow> cp_client st' = cp_client st \<and> sftp_open st' = sftp_open st"
    and "\<And>r st st'. copy_entries L R es st = Some (r, st') \<Longrightarrow> cp_client st' = cp_client st \<and> sftp_open st' = sftp_open st"
proof (induction L R es and L R es rule: copy_recursive_copy_entries.induct)
  case (1 L R es r st st')
  from "1.prems" show ?case unfolding copy_recursive.simps
  proof (elim cp_bind_SomeE)
    fix st1 assume "remote_mkdir_p R st = Some (None, st1)" "st' = st1"
    then show ?thesis using mkdir_each_session by (auto simp: remote_mkdir_p_def)
  next
    fix a st1 assume m: "remote_mkdir_p R st = Some (Some a, st1)"
      and c: "copy_entries L R (sort_key entry_name es) st1 = Some (r, st')"
    have "cp_client st1 = cp_client st \<and> sftp_open st1 = sftp_open st"
      using m mkdir_each_session by (auto simp: remote_mkdir_p_def)
    then show ?thesis using "1.IH" c by fastforce
  qed
next
  case (2 L R r st st')
  then show ?case by (simp add: cp_return_def)
next
  case (3 L R n sub es r st st')
  from "3.prems" show ?case unfolding copy_entries.simps
  proof (elim cp_bind_SomeE)
    fix st1 assume "copy_recursive (path_join L n) (R @ [47] @ n) sub st = Some (None, st1)" "st' = st1"
    then show ?thesis using "3.IH"(1) by blast
  next
    fix a st1 assume m: "copy_recursive (path_join L n) (R @ [47] @ n) sub st = Some (Some a, st1)"
      and c: "copy_entries L R es st1 = Some (r, st')"
    show ?thesis using "3.IH"(1) [OF m] "3.IH"(2) c by fastforce
  qed
next
  case (4 L R n c es r st st')
  from "4.prems" show ?case unfolding copy_entries.simps
  proof (elim cp_bind_SomeE)
    fix st1 assume "cp_lift (copy_file (path_join L n) (R @ [47] @ n) c) st = Some (None, st1)" "st' = st1"
    then show ?thesis using copy_file_session by (auto simp: cp_lift_def)
  next
    fix a st1 assume m: "cp_lift (copy_file (path_join L n) (R @ [47] @ n) c) st = Some (Some a, st1)"
      and cc: "copy_entries L R es st1 = Some (r, st')"
    have "cp_client st1 = cp_client st \<and> sftp_open st1 = sftp_open st"
      using m copy_file_session by (auto simp: cp_lift_def)
    then show ?thesis using "4.IH" cc by fastforce
  qed
qed

lemma copied_fs_key:
  "C \<noteq> [] \<Longrightarrow> (p, c) \<in> set (walk es) \<Longrightarrow> abs_path (C @ p) = abs_path C @ [47] @ rel_path_str p"
  using abs_path_append_str walk_paths_ne by blast

lemma copied_fs_lookup_copied:
  assumes "tree_wf es" "\<forall>x\<in>set C. name_ok x" "C \<noteq> []" "(p, c) \<in> set (walk es)"
  shows "r_files (copied_fs L C es fs) (abs_path C @ [47] @ rel_path_str p) = Some (L @ [47] @ rel_path_str p)"
proof -
  let ?xs = "map (\<lambda>(p, c). (abs_path (C @ p), L @ [47] @ rel_path_str p)) (walk es)"
  have "(abs_path (C @ p), L @ [47] @ rel_path_str p) \<in> set ?xs" using assms(4) by force
  then have "(abs_path C @ [47] @ rel_path_str p, L @ [47] @ rel_path_str p) \<in> set ?xs"
    using copied_fs_key [OF assms(3,4)] by simp
  then have "map_of ?xs (abs_path C @ [47] @ rel_path_str p) = Some (L @ [47] @ rel_path_str p)"
    using copied_fs_keys_distinct [OF assms(1,2), where L = L] by (intro map_of_is_SomeI)
  then show ?thesis by (simp add: copied_fs_def)
qed

lemma copied_fs_lookup_other:
  assumes "C \<noteq> []" "\<forall>p c. (p, c) \<in> set (walk es) \<longrightarrow> f \<noteq> abs_path C @ [47] @ rel_path_str p"
  shows "r_files (copied_fs L C es fs) f = r_files fs f"
proof -
  let ?xs = "map (\<lambda>(p, c). (abs_path (C @ p), L @ [47] @ rel_path_str p)) (walk es)"
  have "f \<notin> fst ` set ?xs"
  proof
    assume "f \<in> fst ` set ?xs"
    then obtain p c where "(p, c) \<in> set (walk es)" "f = abs_path (C @ p)" by auto
    then show False using assms(2) copied_fs_key [OF assms(1)] by metis
  qed
  then have "map_of ?xs f = None" by (simp add: map_of_eq_None_iff)
  then show ?thesis by (simp add: copied_fs_def map_add_def)
qed

text \<open>C27: with the local folder present, every local file readable and the session open, a copy into a destination that holds nothing below REMOTE_FOLDER (and no file on its path) ends, succeeds and closes the session; afterwards every local file is at REMOTE_FOLDER/<its relative path>, put from LOCAL_FOLDER/<the same path>, every other remote file is unchanged, the server's tree is still well formed, and files_copied has grown by the number of local files.\<close>

theorem run_copy_mirrors_tree:
  assumes "tree_wf tree" "remote_wf (remote st)" "fresh_destination (remote st) REMOTE_FOLDER"
    and "L \<noteq> []" "last L \<noteq> 47" "files_readable tree"
  shows "\<exists>st'. run_copy True L tree Copy_connected st = Some (True, st') \<and>
           (\<forall>p c. (p, c) \<in> set (walk tree) \<longrightarrow>
              r_files (remote st') (REMOTE_FOLDER @ [47] @ rel_path_str p) = Some (L @ [47] @ rel_path_str p)) \<and>
           (\<forall>f. (\<forall>p c. (p, c) \<in> set (walk tree) \<longrightarrow> f \<noteq> REMOTE_FOLDER @ [47] @ rel_path_str p) \<longrightarrow>
              r_files (remote st') f = r_files (remote st) f) \<and>
           files_copied st' = files_copied st + local_file_count tree \<and>
           cp_client st' = Closed \<and> \<not> sftp_open st' \<and> remote_wf (remote st')"
proof -
  let ?C = REMOTE_PARTS
  let ?st1 = "st\<lparr>cp_client := Connected, sftp_open := True\<rparr>"
  let ?fs1 = "(remote st)\<lparr>r_dirs := r_dirs (remote st) \<union> (\<lambda>j. abs_path (take j ?C)) ` {..length ?C}\<rparr>"
  have fd: "fresh_destination (remote ?st1) (abs_path ?C)" using assms(3) by (simp add: REMOTE_FOLDER_abs)
  obtain k where cr: "copy_recursive L REMOTE_FOLDER tree ?st1 =
      Some (Some (), ?st1\<lparr>files_copied := files_copied ?st1 + length (walk tree), dirs_created := dirs_created ?st1 + k,
        remote := copied_fs L ?C tree ?fs1\<rparr>)" and wf: "remote_wf (copied_fs L ?C tree ?fs1)"
    using copy_tree(1) [where st = ?st1 and C = ?C and L = L and R = REMOTE_FOLDER and es = tree]
      REMOTE_FOLDER_abs REMOTE_PARTS_names assms(1,2,4,5,6)
      fresh_destination_abs [OF fd REMOTE_PARTS_names(2)] by auto
  let ?st2 = "?st1\<lparr>files_copied := files_copied ?st1 + length (walk tree), dirs_created := dirs_created ?st1 + k,
        remote := copied_fs L ?C tree ?fs1\<rparr>"
  have run: "run_copy True L tree Copy_connected st = Some (True, copy_disconnect ?st2)"
    using cr by (simp add: run_copy_def copy_connect_def del: copy_recursive.simps)
  have files: "r_files ?fs1 = r_files (remote st)" by simp
  have in_tree: "r_files (copied_fs L ?C tree ?fs1) (REMOTE_FOLDER @ [47] @ rel_path_str p) = Some (L @ [47] @ rel_path_str p)"
    if "(p, c) \<in> set (walk tree)" for p c
    using copied_fs_lookup_copied [OF assms(1) REMOTE_PARTS_names that] by (simp add: REMOTE_FOLDER_abs)
  have others: "r_files (copied_fs L ?C tree ?fs1) f = r_files (remote st) f"
    if "\<forall>p c. (p, c) \<in> set (walk tree) \<longrightarrow> f \<noteq> REMOTE_FOLDER @ [47] @ rel_path_str p" for f
    using copied_fs_lookup_other [OF REMOTE_PARTS_names(2)] that files by (simp add: REMOTE_FOLDER_abs)
  show ?thesis
  proof (rule exI [of _ "copy_disconnect ?st2"], intro conjI allI impI)
    show "run_copy True L tree Copy_connected st = Some (True, copy_disconnect ?st2)" by (rule run)
    show "r_files (remote (copy_disconnect ?st2)) (REMOTE_FOLDER @ [47] @ rel_path_str p) = Some (L @ [47] @ rel_path_str p)"
      if "(p, c) \<in> set (walk tree)" for p c
      using in_tree [OF that] by (simp add: copy_disconnect_def)
    show "r_files (remote (copy_disconnect ?st2)) f = r_files (remote st) f"
      if "\<forall>p c. (p, c) \<in> set (walk tree) \<longrightarrow> f \<noteq> REMOTE_FOLDER @ [47] @ rel_path_str p" for f
      using others [OF that] by (simp add: copy_disconnect_def)
  qed (simp_all add: copy_disconnect_def local_file_count_def wf)
qed

theorem run_copy_mirrors_tree_witness:
  "\<exists>st'. run_copy True (u ''/data/content'') [Fs_dir (u ''docs'') [Fs_file (u ''a.txt'') (Some [65])]] Copy_connected
        (copy_init (u ''host'') SSH_PASSWORD (u ''dn'') False \<lparr>r_dirs = {[47]}, r_files = Map.empty\<rparr>) = Some (True, st') \<and>
     r_files (remote st') (REMOTE_FOLDER @ [47] @ u ''docs/a.txt'') = Some (u ''/data/content/docs/a.txt'') \<and>
     files_copied st' = 1 \<and> cp_client st' = Closed"
proof -
  let ?T = "[Fs_dir (u ''docs'') [Fs_file (u ''a.txt'') (Some [65])]]"
  let ?st = "copy_init (u ''host'') SSH_PASSWORD (u ''dn'') False \<lparr>r_dirs = {[47]}, r_files = Map.empty\<rparr>"
  have h: "tree_wf ?T" "remote_wf (remote ?st)" "fresh_destination (remote ?st) REMOTE_FOLDER"
      "u ''/data/content'' \<noteq> []" "last (u ''/data/content'') \<noteq> 47" "files_readable ?T"
    by (simp_all add: u_def name_ok_def copy_init_def remote_wf_def fresh_destination_def REMOTE_FOLDER_def
        files_readable_def)
  have w: "(u ''docs'' # [u ''a.txt''], Some [65]) \<in> set (walk ?T)" by simp
  have p: "rel_path_str [u ''docs'', u ''a.txt''] = u ''docs/a.txt''" by (simp add: rel_path_str_def u_def)
  have q: "u ''/data/content'' @ [47] @ u ''docs/a.txt'' = u ''/data/content/docs/a.txt''" by (simp add: u_def)
  from run_copy_mirrors_tree [OF h] w p q show ?thesis
    by (simp add: local_file_count_def copy_init_def) metis
qed

text \<open>An unreadable local file makes \<open>sftp.put\<close> raise: the copy fails and the session is
  closed.\<close>

lemma run_copy_unreadable_file:
  "run_copy True (u ''/data'') [Fs_file (u ''a.txt'') None] Copy_connected
     (copy_init (u ''host'') SSH_PASSWORD (u ''dn'') False \<lparr>r_dirs = {[47], u ''/home'', u ''/home/dn'', REMOTE_FOLDER}, r_files = Map.empty\<rparr>) =
   Some (False, (copy_init (u ''host'') SSH_PASSWORD (u ''dn'') False \<lparr>r_dirs = {[47], u ''/home'', u ''/home/dn'', REMOTE_FOLDER}, r_files = Map.empty\<rparr>)
                  \<lparr>cp_client := Closed\<rparr>)"
proof -
  let ?st = "(copy_init (u ''host'') SSH_PASSWORD (u ''dn'') False \<lparr>r_dirs = {[47], u ''/home'', u ''/home/dn'', REMOTE_FOLDER}, r_files = Map.empty\<rparr>)"
  have "mkdir_p_scan (remote (?st\<lparr>cp_client := Connected, sftp_open := True\<rparr>)) REMOTE_FOLDER [] = Some []"
    by (subst mkdir_p_scan.simps) (simp add: sftp_stat_def copy_init_def)
  then have "copy_recursive (u ''/data'') REMOTE_FOLDER [Fs_file (u ''a.txt'') None] (?st\<lparr>cp_client := Connected, sftp_open := True\<rparr>)
      = Some (None, ?st\<lparr>cp_client := Connected, sftp_open := True\<rparr>)"
    by (simp add: remote_mkdir_p_def cp_bind_def cp_lift_def copy_file_def exc_return_def)
  then show ?thesis by (simp add: run_copy_def copy_connect_def copy_disconnect_def copy_init_def)
qed

text \<open>C28: run_copy returns True only when the local folder exists and connect succeeded; whenever the copy was started the finally clause leaves the SFTP channel and the SSH client closed, whatever the copy raised; no path leaves the SFTP channel open; but when open_sftp raises after client.connect succeeded, run_copy returns False with the SSH connection still open.\<close>

theorem run_copy_session:
  assumes "run_copy isdir L tree conn st = Some (ok, st')" "cp_client st = No_client" "\<not> sftp_open st"
  shows "(ok \<longrightarrow> isdir \<and> conn = Copy_connected) \<and>
         (isdir \<and> conn = Copy_connected \<longrightarrow> cp_client st' = Closed) \<and>
         (isdir \<and> conn = Copy_sftp_failed \<longrightarrow> cp_client st' = Connected) \<and> \<not> sftp_open st'"
proof (cases "isdir \<and> conn = Copy_connected")
  case True
  let ?st1 = "st\<lparr>cp_client := Connected, sftp_open := True\<rparr>"
  obtain r st2 where cr: "copy_recursive L REMOTE_FOLDER tree ?st1 = Some (r, st2)"
    using assms(1) True by (cases "copy_recursive L REMOTE_FOLDER tree ?st1")
      (auto simp: run_copy_def copy_connect_def simp del: copy_recursive.simps)
  have s2: "cp_client st2 = Connected" "sftp_open st2" using copy_session(1) [OF cr] by simp_all
  have "st' = copy_disconnect st2"
    using assms(1) True cr by (cases r) (auto simp: run_copy_def copy_connect_def simp del: copy_recursive.simps)
  then show ?thesis using s2 True by (simp add: copy_disconnect_def)
next
  case False
  then have "\<not> ok \<and> (isdir \<and> conn = Copy_sftp_failed \<longrightarrow> cp_client st' = Connected) \<and> \<not> sftp_open st'"
    using assms by (cases conn) (auto simp: run_copy_def copy_connect_def split: if_splits)
  then show ?thesis using False by blast
qed

theorem run_copy_session_witness:
  "run_copy True (u ''/data'') [] Copy_sftp_failed (copy_init (u ''host'') SSH_PASSWORD (u ''dn'') False \<lparr>r_dirs = {[47]}, r_files = Map.empty\<rparr>)
     = Some (False, (copy_init (u ''host'') SSH_PASSWORD (u ''dn'') False \<lparr>r_dirs = {[47]}, r_files = Map.empty\<rparr>)\<lparr>cp_client := Connected\<rparr>) \<and>
   cp_client ((copy_init (u ''host'') SSH_PASSWORD (u ''dn'') False \<lparr>r_dirs = {[47]}, r_files = Map.empty\<rparr>)\<lparr>cp_client := Connected\<rparr>) = Connected"
proof -
  let ?st = "copy_init (u ''host'') SSH_PASSWORD (u ''dn'') False \<lparr>r_dirs = {[47]}, r_files = Map.empty\<rparr>"
  have r: "run_copy True (u ''/data'') [] Copy_sftp_failed ?st = Some (False, ?st\<lparr>cp_client := Connected\<rparr>)"
    by (simp add: run_copy_def copy_connect_def)
  have "cp_client ?st = No_client" "\<not> sftp_open ?st" by (simp_all add: copy_init_def)
  with run_copy_session [OF r] r show ?thesis by simp
qed

end
