(* ===== verification/Spec2Isabelle.thy ===== *)
theory Spec2Isabelle
  imports WebBorrow TimeTracker DiaryTodos DiarySync DiaryEntries WboxTest MachineClean DeployCheetah MachineCopy
begin

text \<open>
  \<^bold>\<open>A verification development of the lab tools repository.\<close>

  \<^medskip>
  \<^bold>\<open>The program.\<close> The repository holds independent Python tools around a lab of
  test machines.
  \<^item> webborrow (src/webborrow/app.py) is a Flask front end to the external inventory
    tool \<open>pyborrow.py\<close>: it runs the tool (\<open>run_pyborrow\<close>), strips ANSI colours
    from its output (\<open>strip_ansi\<close>), scrapes the box-drawn machine tables
    (\<open>parse_machine_table\<close>, which classifies each machine's status) and the summary
    table (\<open>parse_summary\<close>), and answers \<open>/api/machines\<close>, \<open>/api/borrow\<close>,
    \<open>/api/free\<close> and \<open>/api/machine\<close>.
  \<^item> time_tracker (src/time_tracker/app.py) is a Flask application over an SQLite
    database of subjects and time entries, with CRUD endpoints and statistics.
  \<^item> diary (src/diary/app.py) keeps Markdown entries and a todo list as files of a git
    repository; every change is committed, and a background thread (and a fresh thread
    after each change) pulls and pushes the repository.
  \<^item> wbox_test (src/wbox_test.py) asks seven questions on the terminal, builds a make
    command for the test harness from the answers and optionally runs it with \<open>bash -c\<close>.
  \<^item> cheetah/machine_clean, machine_copy_files and deploy_cheetah are command-line
    scripts that drive ssh, scp and sftp sessions: clean a lab machine's checkout and
    Docker images, copy a content folder by SFTP, deploy the cheetah scripts by scp.

  \<^medskip>
  \<^bold>\<open>The theories.\<close> \<open>Prelude\<close> is shared; each other theory models one part and
  imports the parts it calls.
  \<^item> \<open>Prelude\<close>: Python strings as lists of code points (\<open>ustr\<close>) and the builtins the
    code calls, each translated from CPython's behaviour: \<open>in\<close> (\<open>contains\<close>),
    \<open>startswith\<close>, \<open>strip\<close> (the \<open>Py_UNICODE_ISSPACE\<close> set), \<open>lower\<close> (exact below
    code point 256), \<open>split\<close> with a separator and with a limit (\<open>py_split_max\<close>),
    \<open>join\<close>, \<open>replace\<close>, \<open>int\<close> on a string, \<open>str\<close> on naturals (\<open>dec\<close>) and
    zero-padded formatting (\<open>pad\<close>); a JSON request body as an association list of
    \<open>json\<close> values with \<open>data.get\<close>, truthiness and \<open>.strip()\<close>. Its lemmas (split/join
    round trips, \<open>contains\<close> as \<open>sublist\<close>, \<open>strip\<close> on padded text, \<open>int (str n) = n\<close>,
    folds, sums and \<open>those\<close>) carry the component proofs.
  \<^item> \<open>Ansi\<close>: \<open>strip_ansi\<close>, the left-to-right scan of \<open>re.sub\<close> with the greedy match
    of \<open>\x1b\[[0-9;]*m\<close>; a \<open>function\<close> terminating by the length measure.
  \<^item> \<open>Status\<close>: the status \<open>if/elif\<close> chain (\<open>classify_status\<close>) and the spec's ordered
    rule list it refines.
  \<^item> \<open>Table\<close>: \<open>parse_machine_table\<close>. The loop variables are the record
    \<open>scan_state\<close>; one iteration of the \<open>for\<close> loop, every \<open>continue\<close> a branch, is
    \<open>scan_line\<close>; the loop is \<open>foldl scan_line scan_init\<close>. \<open>section_of\<close> reads the
    section string as the datatype \<open>section_kind\<close>, whose transition \<open>section_step\<close> is
    the spec's section classifier.
  \<^item> \<open>Summary\<close>: \<open>parse_summary\<close>, its \<open>break\<close> as the first line passing the shape
    test (\<open>summary_line\<close>), \<open>ValueError\<close> of \<open>int\<close> as \<open>None\<close>.
  \<^item> \<open>WebBorrow\<close>: \<open>run_pyborrow\<close> and the handlers; the tool is a parameter from
    arguments to completed, timed out or raised; each answer is a JSON body with its
    HTTP status.
  \<^item> \<open>TimeTracker\<close>: the database as the record \<open>db\<close> (each table a list of rows in
    rowid order, and the \<open>sqlite_sequence\<close> counters); every handler (\<open>get_subjects\<close>,
    \<open>create_subject\<close>, \<open>delete_subject\<close>, \<open>get_entries\<close>, \<open>create_entry\<close>,
    \<open>delete_entry\<close>, \<open>get_stats\<close>) as a function from the request and the database to
    the response and the new database, with SQLite's value order, \<open>ORDER BY ... DESC\<close>,
    \<open>AUTOINCREMENT\<close> and the inner join written out; \<open>tt_step\<close> and \<open>tt_run\<close> run a
    sequence of requests.
  \<^item> \<open>DiaryTodos\<close>: \<open>todos.json\<close> (missing, corrupt or a list) with the git commands each
    save issues; \<open>load_todos\<close> to \<open>delete_todo\<close> and the \<open>/api/todos\<close> handlers.
  \<^item> \<open>DiarySync\<close>: \<open>run_git_command\<close>, \<open>ensure_remote_configured\<close> and
    \<open>sync_with_remote\<close> over a git oracle answering the \<open>n\<close>-th command; the threads
    that call the sync as the inductive step relation \<open>sync_step\<close> on a shared flag;
    \<open>ensure_repo_exists\<close> at start-up, and \<open>/api/sync\<close> and \<open>/api/status\<close>.
  \<^item> \<open>DiaryEntries\<close>: the repository as a tree \<open>fs_node\<close>; the date formatting
    (\<open>get_day_folder_name\<close>, \<open>strftime\<close>, \<open>isoformat\<close>), \<open>diary_create_entry\<close>,
    \<open>diary_delete_entry\<close>, \<open>get_all_entries\<close> (the nested directory walk with its
    filters and sorts) and the \<open>/api/entries\<close> handlers.
  \<^item> \<open>WboxTest\<close>: standard input as the list of lines still to be read (\<open>EOFError\<close>
    when it runs out), standard output as a list of written texts; the three prompt loops
    as structural recursion on the input, \<open>build_command\<close>, and \<open>main\<close> as a chain of
    reads (\<open>io_bind\<close>) with \<open>bash -c\<close> as an oracle giving the return code.
  \<^item> \<open>MachineClean\<close>: \<open>MachineCleanup\<close> of src/cheetah/machine_clean.py as the record
    \<open>machine_cleanup\<close> (with the commands sent and the client state); the machine is an
    oracle \<open>ssh\<close> answering the \<open>n\<close>-th \<open>exec_command\<close>; \<open>connect\<close>, \<open>run_command\<close>
    (with the sudo prompt filter), the two \<open>df\<close> parsers, \<open>git_clean\<close>,
    \<open>docker_cleanup\<close>, \<open>get_remote_machine_var\<close> (its fallback regex as a scan),
    \<open>cleanup_nested_machine\<close>, \<open>run_full_cleanup\<close> and \<open>main\<close>, each a method of type
    \<open>'a mc\<close> (value or escaping exception, and the object after it); the verbose
    loggers \<open>log_command\<close> and \<open>log_output\<close> as the lines they print.
  \<^item> \<open>Paths\<close>: \<open>str.rfind\<close>, \<open>PurePath.suffix\<close>, \<open>posixpath.dirname\<close>, canonical
    absolute paths (\<open>abs_path\<close>) and a local directory tree \<open>fs_entry\<close> with its listings
    (\<open>walk\<close>, \<open>walk_dirs\<close>) and well-formedness (\<open>tree_wf\<close>), shared by the two copy
    scripts; lemmas on how \<open>dirname\<close> walks up a path and on permuted listings.
  \<^item> \<open>DeployCheetah\<close>: src/deploy_cheetah.py, \<open>find_script_files\<close> over the local tree,
    \<open>scp_files\<close> and \<open>main\<close>, with every \<open>subprocess.run\<close> answered by an oracle
    \<open>procs\<close> and the argument vectors run so far as the state.
  \<^item> \<open>MachineCopy\<close>: \<open>MachineCopyFiles\<close> of src/machine_copy_files.py as the record
    \<open>machine_copy\<close>, over an explicit SFTP server \<open>remote_fs\<close> (its directories and a map
    from each file to the local file put there); \<open>connect\<close> (three outcomes),
    \<open>disconnect\<close>, \<open>_remote_mkdir_p\<close> (its \<open>while True\<close> loop \<open>mkdir_p_scan\<close> a
    \<open>partial_function (option)\<close>, then \<open>mkdir_each\<close>), \<open>_copy_recursive\<close> (the mutual
    \<open>copy_recursive\<close>/\<open>copy_entries\<close>, terminating by the size of the tree),
    \<open>run_copy\<close> with its \<open>try/except/finally\<close>, and \<open>main\<close> (\<open>copy_main\<close>).

  \<^medskip>
  \<^bold>\<open>What is shown.\<close>
  \<^item> Machine scraper: a loop invariant (\<open>scan_inv\<close>) makes every returned machine well
    formed and tagged with its section. The section bookkeeping refines spec 4.2's
    ordered rule list (\<open>section_rules\<close>) on every line but a "shadowed header" (a line
    mentioning Cluster without an id that rule 3 or 4 matches), where the two differ;
    the tangled skip guard equals "not a row section".
  \<^item> Status classifier: it is the spec's first-match rule list.
  \<^item> Summary: it always satisfies \<open>0 \<le> free \<le> total\<close> and is the first valid row; a
    printed summary row reads back as the same counts.
  \<^item> Normaliser: on ESC-free text with well-formed SGR sequences inserted it returns the
    text with exactly those sequences removed; it only deletes and works line by line.
  \<^item> Time tracker: every request sequence keeps the database invariant (\<open>tt_wf\<close>,
    durations positive integers or reals) and hands out fresh ids; the two totals of
    \<open>/api/stats\<close> agree on a database with referential integrity; an entry for a
    missing subject is stored, breaks that integrity, is never listed and shifts the
    per-day totals only.
  \<^item> Todos: with distinct ids, each operation refines the corresponding operation on a
    finite map (\<open>todo_map\<close>), and distinct ids are kept; toggling twice restores the
    list.
  \<^item> Git sync: the outcome of \<open>sync_with_remote\<close> on every branch; the flag is released
    from every reachable state (liveness, by induction on the number of busy threads);
    start-up creates and commits the repository once and is idempotent afterwards.
  \<^item> Entries: a written entry file parses back as its timestamp and stripped text, and a
    created entry is listed in its day group.
  \<^item> wbox_test: \<open>main\<close> prints and runs exactly the command built from the seven
    answers it reads; the command determines the answers again (a round trip through a
    reader of the command).
  \<^item> Machine cleaner: the session is closed on every path once connected, no command
    is sent otherwise, and \<open>sys.exit(1)\<close> is reached only when the connection fails
    (an exception escaping after it also ends with status 1); the sudo filter hides the
    password; the two \<open>df\<close> parsers agree; the \<open>REMOTE_MACHINE=\<close> regex reads a
    configured value back; the verbose loggers never print a password without an
    asterisk.
  \<^item> Deployer: the exit status and the commands of \<open>main\<close> on every branch; each
    \<open>scp\<close> follows a \<open>mkdir -p\<close> of its directory; \<open>find_script_files\<close> returns each
    selected file once, sorted; the selection test.
  \<^item> File copier: copying a readable tree into a fresh destination ends and refines the abstract
    mirror \<open>copied_fs\<close> (each local file at \<open>REMOTE_FOLDER/\<close> its relative path, other
    files unchanged, the server tree well formed by \<open>remote_wf\<close>, the file count right);
    the session on every path of \<open>run_copy\<close>; the \<open>mkdir -p\<close> scan ends on every path
    not starting with two slashes.

  \<^medskip>
  \<^bold>\<open>Findings.\<close>
  \<^item> A webborrow line that mentions Cluster without an id is taken by the cluster
    branch, so a header such as "Cluster DP IXIAs" does not switch to the IXIA section
    as spec 4.2's rule order says.
  \<^item> The webborrow separator literals are Mac-Roman mojibake of the box-drawing
    characters, so real output yields no machines and an all-zero summary.
  \<^item> The normaliser can leave an escape sequence.
  \<^item> Interior empty cells shift columns.
  \<^item> The borrow success test accepts any output containing "borrowed".
  \<^item> The \<open>(deploy)\<close> removal is case-sensitive.
  \<^item> The time tracker accepts entries for missing subjects (foreign keys are off), which
    vanish from the listing and the per-subject totals but count in the per-day totals;
    string durations raise, and fractional durations such as 0.5 are stored.
  \<^item> The diary sync's in-progress guard is not atomic, so two syncs can run at once,
    and its failures are overwritten before they are reported.
  \<^item> A corrupt \<open>todos.json\<close> is silently replaced.
  \<^item> A failing \<open>git init\<close> at start-up is ignored.
  \<^item> \<open>delete_entry\<close> joins unchecked route parameters into a path.
  \<^item> wbox_test puts the test name into the \<open>bash -c\<close> command unquoted, so a name
    with \<open>;\<close> runs further commands.
  \<^item> machine_clean's password mask can rebuild a password that contains \<open>*\<close> from
    the stars it writes.
  \<^item> deploy_cheetah pastes the remote directories after \<open>mkdir -p\<close> unquoted, and
    ignores the return code of the per-directory \<open>mkdir\<close>.
  \<^item> machine_copy_files leaves the SSH connection open when \<open>open_sftp\<close> raises after
    \<open>client.connect\<close> succeeded (the \<open>finally\<close> clause covers only the copy), and the
    \<open>mkdir -p\<close> scan never ends on a path that starts with \<open>//\<close> and does not stat; one
    unreadable local file aborts the whole copy.

  \<^medskip>
  \<^bold>\<open>Bounds and fuel.\<close> No fuel is needed: every loop of the modelled code runs over a
  finite list (lines of output, rows of a table, children of a directory, a request
  sequence), and the scans that are not structural (\<open>strip_ansi\<close>, \<open>split\<close>) are
  \<open>function\<close>s with termination proofs. The unbounded behaviour of the sync threads is
  a step relation; its liveness is proved by well-founded induction, not by fuel.
  Python integers are unbounded and are modelled as \<open>int\<close>/\<open>nat\<close>. SQLite's
  64-bit limit on rowids (where \<open>AUTOINCREMENT\<close> fails with \<open>SQLITE_FULL\<close>) is not
  modelled: ids are naturals. The wbox prompts need no fuel either: each iteration
  consumes a line of the finite input.
  The one loop that may run forever, the \<open>while True\<close> of \<open>_remote_mkdir_p\<close>, is a
  \<open>partial_function (option)\<close> whose \<open>None\<close> is the run that never ends; that it
  ends is proved as \<open>mkdir_p_scan fs p acc \<noteq> None\<close>, by induction on the length
  of the path, which \<open>dirname\<close> shortens. The file copier's result type keeps that
  \<open>None\<close>, and the refinement theorem proves the copy returns \<open>Some\<close>.

  \<^medskip>
  \<^bold>\<open>Not modelled.\<close>
  \<^item> Flask routing, templates and server start-up.
  \<^item> The external processes (pyborrow.py, git), which are parameters.
  \<^item> JSON encoding and decoding of files: \<open>todos.json\<close> is read as a decoded list or
    as corrupt.
  \<^item> SQLite column affinity beyond turning an integral REAL into an INTEGER, and the
    \<open>/api/stats\<close> default window taken from the clock. JSON floats are rationals: the
    rounding to a double is not modelled.
  \<^item> Unicode digits: \<open>\d\<close>, \<open>str.isdigit\<close> and \<open>int()\<close> are modelled on ASCII digits
    only (Python also accepts the other Unicode decimal digits), and \<open>str.lower\<close> is
    exact below code point 256.
  \<^item> The background sync loop's sleeping.
  \<^item> The box-drawn help texts of wbox_test, which are named by their key.
  \<^item> What the three scripts print (\<open>log\<close>, \<open>log_verbose\<close>, section headers and
    summaries, \<open>parse_size\<close>/\<open>format_size\<close> of the freed space), and \<open>argparse\<close>
    itself: \<open>main\<close> takes the parsed arguments, with \<open>None\<close> for a default.
  \<^item> Network errors, timeouts and permissions of the SSH/SFTP sessions, beyond the
    outcomes \<open>connect\<close> distinguishes and the failure of \<open>mkdir\<close> and \<open>put\<close>.
  \<^item> Non-canonical remote paths (doubled or trailing slashes): the copier's server names
    each file by one canonical string, which is what the script sends.
\<close>

end
